(* ===== verification/Prelude.thy ===== *)
theory Prelude
  imports Main
begin

text \<open>
  Shared vocabulary of the development: the character classes the source's regular
  expression and \<open>String.prototype.trim\<close> use, the JavaScript exceptions a handler can
  throw, a small exception monad that keeps the state reached before the throw (a
  JavaScript handler that throws half-way keeps the mutations it already made), and
  list lemmas the component theories share.

  Strings are \<open>char list\<close>; a JavaScript string of ASCII characters is the same list,
  and \<open>length\<close> counts its code units. Characters outside ASCII are bytes here, which
  is harmless for the digit filter (no byte of a multi-byte UTF-8 sequence is a digit).
\<close>

named_theorems handler_simps "unfolding equations of the event handlers"
named_theorems wf_intros "facts that well-formedness of the scan history is kept"

section \<open>Characters\<close>

definition is_digit :: "char \<Rightarrow> bool" where
  "is_digit c \<longleftrightarrow> (let n = of_char c :: nat in 48 \<le> n \<and> n \<le> 57)"

text \<open>The ASCII members of ECMAScript's WhiteSpace and LineTerminator classes.\<close>

definition is_js_space :: "char \<Rightarrow> bool" where
  "is_js_space c \<longleftrightarrow> of_char c \<in> {9, 10, 11, 12, 13, 32 :: nat}"

text \<open>\<open>s.trim()\<close>: strip the white space at both ends.\<close>

definition js_trim :: "string \<Rightarrow> string" where
  "js_trim s = rev (dropWhile is_js_space (rev (dropWhile is_js_space s)))"

text \<open>\<open>xs.join(sep)\<close> on a list of strings.\<close>

fun join_with :: "'a list \<Rightarrow> 'a list list \<Rightarrow> 'a list" where
  "join_with sep [] = []"
| "join_with sep [x] = x"
| "join_with sep (x # xs) = x @ sep @ join_with sep xs"

section \<open>Exceptions\<close>

datatype js_error =
    SyntaxError   \<comment> \<open>\<open>JSON.parse\<close> on malformed text\<close>
  | TypeError     \<comment> \<open>property read on \<open>null\<close>, call of a missing method\<close>

text \<open>
  A computation on a state \<open>'s\<close> either finishes (\<open>Inr\<close>) or throws (\<open>Inl\<close>), and a
  throw carries the state reached so far.
\<close>

type_synonym 's js = "(js_error \<times> 's) + 's"

definition js_bind :: "'s js \<Rightarrow> ('s \<Rightarrow> 's js) \<Rightarrow> 's js" where
  "js_bind r f = (case r of Inl e \<Rightarrow> Inl e | Inr s \<Rightarrow> f s)"

text \<open>The state an event leaves behind, whether its handler threw or not.\<close>

definition js_state :: "'s js \<Rightarrow> 's" where
  "js_state r = (case r of Inl (e, s) \<Rightarrow> s | Inr s \<Rightarrow> s)"

lemma js_bind_Inr [simp]: "js_bind (Inr s) f = f s"
  by (simp add: js_bind_def)

lemma js_bind_Inl [simp]: "js_bind (Inl e) f = Inl e"
  by (simp add: js_bind_def)

lemma js_state_simps [simp]: "js_state (Inr s) = s" "js_state (Inl (e, s)) = s"
  by (simp_all add: js_state_def)

section \<open>Lists\<close>

lemma join_with_empty_sep [simp]: "join_with [] xs = concat xs"
  by (induction "[] :: 'a list" xs rule: join_with.induct) auto

lemma join_with_Cons: "join_with sep (x # xs) = (if xs = [] then x else x @ sep @ join_with sep xs)"
  by (cases xs) auto

lemma is_digit_code: "is_digit c \<longleftrightarrow> of_char c \<in> {48..57 :: nat}"
  by (simp add: is_digit_def Let_def)

text \<open>Removing every element with one key keeps a list duplicate-free in its keys.\<close>

lemma distinct_map_filter [intro]:
  "distinct (map f xs) \<Longrightarrow> distinct (map f (filter P xs))"
  by (induction xs) auto

lemma distinct_map_take [intro]: "distinct (map f xs) \<Longrightarrow> distinct (map f (take n xs))"
  by (metis distinct_take take_map)

lemma take_if_longer: "(if n < length xs then take n xs else xs) = take n xs"
  by simp

lemma map_filter_all_Some:
  "list_all (\<lambda>x. f x \<noteq> None) xs \<Longrightarrow> List.map_filter f xs = map (the \<circ> f) xs"
  by (induction xs) (auto simp: List.map_filter_simps split: option.splits)

text \<open>\<open>remdups\<close> keeps last occurrences, so appending an element moves it to the end.\<close>

lemma remdups_snoc: "remdups (xs @ [b]) = removeAll b (remdups xs) @ [b]"
  by (induction xs) auto

lemma rev_removeAll: "rev (removeAll b xs) = removeAll b (rev xs)"
  by (simp add: removeAll_filter_not_eq rev_filter)

text \<open>On a list without duplicates, cutting before removing an element changes nothing
  in the first \<open>n\<close> places of what remains.\<close>

lemma take_removeAll_take:
  "distinct h \<Longrightarrow> take n (removeAll b (take (Suc n) h)) = take n (removeAll b h)"
proof (induction h arbitrary: n)
  case Nil
  then show ?case by simp
next
  case (Cons x h)
  show ?case
  proof (cases "x = b")
    case True
    with Cons.prems have "b \<notin> set h" by simp
    then have "removeAll b (take n h) = take n h" and "removeAll b h = h"
      by (auto intro!: removeAll_id dest: in_set_takeD)
    with True show ?thesis by simp
  next
    case False
    with Cons show ?thesis by (cases n) auto
  qed
qed

end

