(* ===== verification/Classifier.thy ===== *)
theory Classifier
  imports Prelude
begin

text \<open>
  The barcode classifier of \<open>src/script.js\<close>: the digit filter of
  \<open>processBarcode\<close> (\<open>barcodeData.replace(/[^0-9]/g, '')\<close>) and
  \<open>generateUsageInfo\<close>, which answers six known filter barcodes with a fixed part
  description and classifies every other barcode by its length and first character.
  The HTML that \<open>generateUsageInfo\<close> returns is represented by what it shows: the
  applicable models, the part variants, the image URLs and the note of a known part, or
  the category of an unknown barcode (whose bullet list is static text selected by the
  category alone; only the \<open>Special\<close> text interpolates a value, the length).
\<close>

section \<open>Digit filter\<close>

definition clean_barcode :: "string \<Rightarrow> string" where
  "clean_barcode s = filter is_digit s"

section \<open>Known parts\<close>

text \<open>A model listed as \<open>SS100\<close> followed by the Korean word for ``some'' (only some SS100 units take the filter) is \<open>ModelSome ''SS100''\<close>.\<close>

datatype filter_model = Model string | ModelSome string

record part_variant =
  version :: "nat option"     \<comment> \<open>the ``version n'' heading, where the entry has several variants\<close>
  part_name :: string
  part_number :: string

record part_info =
  filter_models :: "filter_model list"
  variants :: "part_variant list"
  images :: "string list"
  no_photo_model :: "string option"   \<comment> \<open>the note ``no photo of model M is provided''\<close>

datatype category =
    DomesticEAN13        \<comment> \<open>13 digits, first \<open>'8'\<close>\<close>
  | InternationalEAN13   \<comment> \<open>13 digits, first \<open>'9'\<close>\<close>
  | GeneralEAN13         \<comment> \<open>13 digits, any other first character\<close>
  | UPCA                 \<comment> \<open>12 digits\<close>
  | EAN8                 \<comment> \<open>8 digits\<close>
  | Special nat          \<comment> \<open>any other length, shown in the text\<close>

datatype usage_info = KnownPart part_info | Category category

definition cdn_image :: "string \<Rightarrow> string" where
  "cdn_image f = ''https://cdn.cuckoo.co.kr/upload_cuckoo/_bo_rental/product/'' @ f"

definition aas_images :: "string list" where
  "aas_images = map cdn_image
     [''ea64591f-6f68-48ce-b318-5a748fac7d20.jpg'',
      ''5079ad3c-7fe5-4280-b654-edfb6e1c13a7.jpg'',
      ''7a5e10c7-d312-408c-b6ee-a1bf30b2e87d.jpg'']"

definition m_images :: "string list" where
  "m_images = map cdn_image
     [''b0ca930a-dc26-4f85-bf67-af9827d0b005.jpg'',
      ''38fe1de0-7052-4247-be77-60a53f51e7a1.jpg'',
      ''9cc1372f-ccf0-4036-89a2-9a5794de8553.jpg'']"

definition aas_models :: "filter_model list" where
  "aas_models = [Model ''AAS'', Model ''ABS'', Model ''AHS'']"

definition m_models :: "filter_model list" where
  "m_models = [Model ''M'', Model ''U'', Model ''AK'', ModelSome ''SS100'']"

definition single_part :: "string \<Rightarrow> string \<Rightarrow> part_variant list" where
  "single_part n p = [\<lparr>version = None, part_name = n, part_number = p\<rparr>]"

definition part_8809841630962 :: part_info where
  "part_8809841630962 = \<lparr>filter_models = aas_models,
     variants = single_part ''SVC_METAL-BLOCK20_FTASM_08_CP-ALL_KR'' ''10420-0191J0'',
     images = aas_images, no_photo_model = None\<rparr>"

definition part_8809591513836 :: part_info where
  "part_8809591513836 = \<lparr>filter_models = aas_models,
     variants = single_part ''SVC_NANOPOSITIVEPLUS30_FTASM_08_CP-ALL_KR'' ''Z0420-0210U0'',
     images = aas_images, no_photo_model = None\<rparr>"

definition part_8809591517872 :: part_info where
  "part_8809591517872 = \<lparr>filter_models = m_models,
     variants = single_part ''SVC_DS-CARBON-COMPOSITE_FTASM_08_CP-ALL_KR'' ''00420-0367S0'',
     images = m_images, no_photo_model = Some ''M''\<rparr>"

definition part_8809591519135 :: part_info where
  "part_8809591519135 = \<lparr>filter_models = m_models,
     variants = single_part ''SVC_NATURALPLUS20_FTASM_08_CP-ALL_KR'' ''00420-0383Y0'',
     images = m_images, no_photo_model = Some ''M''\<rparr>"

definition part_8809591519128 :: part_info where
  "part_8809591519128 = \<lparr>filter_models = m_models,
     variants = single_part ''SVC_NANOPOSITIVE30C_FTASM_08_3FILTER_KR'' ''Z0420-0209C2'',
     images = m_images, no_photo_model = Some ''M''\<rparr>"

definition part_8809591514628 :: part_info where
  "part_8809591514628 = \<lparr>filter_models = [Model ''TS'', ModelSome ''SS''],
     variants =
       [\<lparr>version = Some 1, part_name = ''SVC_CARBON-COMPOSITE_FTASM_08_130,HAYCABB_CP-ALL_KR'',
         part_number = ''10420-0043A1''\<rparr>,
        \<lparr>version = Some 2, part_name = ''SVC_CARBON-COMPOSITE_FTASM_08_50,130,HAYCABB_CP-ALL_KR'',
         part_number = ''10420-0043C1''\<rparr>],
     images = map cdn_image
       [''553f469b-11da-4aa7-81c8-368da7c365f9.jpg'', ''b0ca930a-dc26-4f85-bf67-af9827d0b005.jpg''],
     no_photo_model = None\<rparr>"

section \<open>generateUsageInfo\<close>

text \<open>The pattern classifier, lines 219--305: length first, then \<open>barcode.charAt(0)\<close>.\<close>

definition heuristic_category :: "string \<Rightarrow> category" where
  "heuristic_category barcode =
     (let barcodeLength = length barcode; firstDigit = take 1 barcode in
      if barcodeLength = 13 then
        (if firstDigit = ''8'' then DomesticEAN13
         else if firstDigit = ''9'' then InternationalEAN13
         else GeneralEAN13)
      else if barcodeLength = 12 then UPCA
      else if barcodeLength = 8 then EAN8
      else Special barcodeLength)"

text \<open>The six literal comparisons of lines 128--217, in the source's order.\<close>

definition generate_usage_info :: "string \<Rightarrow> usage_info" where
  "generate_usage_info barcode =
     (if barcode = ''8809841630962'' then KnownPart part_8809841630962
      else if barcode = ''8809591513836'' then KnownPart part_8809591513836
      else if barcode = ''8809591517872'' then KnownPart part_8809591517872
      else if barcode = ''8809591519135'' then KnownPart part_8809591519135
      else if barcode = ''8809591519128'' then KnownPart part_8809591519128
      else if barcode = ''8809591514628'' then KnownPart part_8809591514628
      else Category (heuristic_category barcode))"

section \<open>The classifier as a lookup table\<close>

text \<open>
  The design the specification asks for (its section 9): the knowledge base as an
  explicit table from code to record, consulted before the pattern classifier.
\<close>

definition known_parts :: "(string \<times> part_info) list" where
  "known_parts =
     [(''8809841630962'', part_8809841630962),
      (''8809591513836'', part_8809591513836),
      (''8809591517872'', part_8809591517872),
      (''8809591519135'', part_8809591519135),
      (''8809591519128'', part_8809591519128),
      (''8809591514628'', part_8809591514628)]"

definition usage_from_table :: "string \<Rightarrow> usage_info" where
  "usage_from_table b =
     (case map_of known_parts b of Some p \<Rightarrow> KnownPart p | None \<Rightarrow> Category (heuristic_category b))"

definition known_code :: "string \<Rightarrow> bool" where
  "known_code b \<longleftrightarrow> b \<in> set (map fst known_parts)"

text \<open>Specification section 4.1: normalise, reject fewer than 8 digits, classify.\<close>

datatype classify_error = InvalidBarcode

definition classify :: "string \<Rightarrow> classify_error + usage_info" where
  "classify raw =
     (let c = clean_barcode raw in
      if length c < 8 then Inl InvalidBarcode else Inr (usage_from_table c))"

section \<open>Properties of the classifier\<close>

lemmas part_defs = part_8809841630962_def part_8809591513836_def part_8809591517872_def
  part_8809591519135_def part_8809591519128_def part_8809591514628_def single_part_def

text \<open>A barcode outside the table falls through all six comparisons.\<close>

lemma generate_usage_info_unknown:
  "\<not> known_code b \<Longrightarrow> generate_usage_info b = Category (heuristic_category b)"
  by (auto simp add: generate_usage_info_def known_code_def known_parts_def)

text \<open>The table classifier is what the code computes (used by the other theories).\<close>

lemma usage_from_table_code: "usage_from_table b = generate_usage_info b"
  unfolding generate_usage_info_def usage_from_table_def known_parts_def by simp

text \<open>
  The chain of literal comparisons in \<open>generateUsageInfo\<close> is the lookup-table
  classifier of the specification: first the exact match in the table of known parts,
  then the pattern classifier; the two agree on every string.
\<close>

theorem generate_usage_info_table: "generate_usage_info b = usage_from_table b"
  unfolding generate_usage_info_def usage_from_table_def known_parts_def by simp

text \<open>
  The knowledge base is well formed: its codes are unique, and each is a 13-digit
  Korean EAN-13 code (prefix 880) with at least one part variant.
\<close>

theorem known_parts_well_formed:
  "distinct (map fst known_parts) \<and>
   list_all (\<lambda>(c, p). length c = 13 \<and> list_all is_digit c \<and> take 3 c = ''880'' \<and> variants p \<noteq> [])
     known_parts"
  by (simp add: known_parts_def is_digit_def part_defs)

text \<open>
  The barcode 8809841630962 shows part number 10420-0191J0 (its only variant), three
  product images and no note.
\<close>

theorem usage_info_8809841630962:
  "\<exists>p. generate_usage_info ''8809841630962'' = KnownPart p \<and>
     map part_number (variants p) = [''10420-0191J0''] \<and> length (images p) = 3 \<and>
     no_photo_model p = None"
  by (simp add: generate_usage_info_def part_defs aas_images_def)

text \<open>
  The barcode 8809591517872 shows part number 00420-0367S0 and the note that no photo
  of model M is provided.
\<close>

theorem usage_info_8809591517872_note:
  "\<exists>p. generate_usage_info ''8809591517872'' = KnownPart p \<and>
     map part_number (variants p) = [''00420-0367S0''] \<and> no_photo_model p = Some ''M''"
  by (simp add: generate_usage_info_def part_defs)

text \<open>
  C31: a 13-character barcode that starts with 8 and is not in the table is a domestic
  EAN-13 product, whatever its other characters are.
\<close>

theorem usage_info_domestic:
  "length b = 13 \<Longrightarrow> take 1 b = ''8'' \<Longrightarrow> \<not> known_code b \<Longrightarrow>
   generate_usage_info b = Category DomesticEAN13"
  by (simp add: generate_usage_info_unknown heuristic_category_def)

theorem usage_info_domestic_witness:
  "length ''8801234567890'' = 13 \<and> take 1 ''8801234567890'' = ''8'' \<and>
   \<not> known_code ''8801234567890'' \<and> generate_usage_info ''8801234567890'' = Category DomesticEAN13"
  using usage_info_domestic [of "''8801234567890''"] by (simp add: known_code_def known_parts_def)

text \<open>
  C32: for barcodes outside the table, the answer depends on nothing but the length and
  the first character.
\<close>

theorem usage_info_length_first_char:
  "\<not> known_code b \<Longrightarrow> \<not> known_code b' \<Longrightarrow> length b = length b' \<Longrightarrow> take 1 b = take 1 b' \<Longrightarrow>
   generate_usage_info b = generate_usage_info b'"
  by (simp add: generate_usage_info_unknown heuristic_category_def)

theorem usage_info_length_first_char_witness:
  "\<not> known_code ''8801234567890'' \<and> \<not> known_code ''8809999999999'' \<and>
   length ''8801234567890'' = length ''8809999999999'' \<and>
   take 1 ''8801234567890'' = take 1 ''8809999999999'' \<and>
   generate_usage_info ''8801234567890'' = generate_usage_info ''8809999999999''"
  using usage_info_length_first_char [of "''8801234567890''" "''8809999999999''"]
  by (simp add: known_code_def known_parts_def)

text \<open>
  The digit filter leaves only digits, and it changes a string exactly when the
  string has a character that is not a digit.
\<close>

theorem clean_barcode_digits:
  "list_all is_digit (clean_barcode s) \<and> (clean_barcode s = s \<longleftrightarrow> list_all is_digit s)"
  by (simp add: clean_barcode_def list_all_iff filter_id_conv)

end
