(* ===== verification/Json.thy ===== *)
theory Json
  imports Prelude
begin

text \<open>
  JavaScript values as \<open>JSON.parse\<close> returns them, and the three things the source does
  with such a value: read a property (\<open>scan.barcode\<close>, \<open>xs.length\<close>), convert it to a
  string inside a template literal (\<open>`${scan.time}`\<close>), and compare it with \<open>!==\<close>.
  The scan history \<open>this.recentScans\<close> of \<open>src/script.js\<close> is such a value:
  it is whatever the browser's storage held at start-up, and only the code's own writes
  make it an array of scan records. Numbers are integers here (the history never stores
  a number; a fractional number in a corrupted store is outside the model).
  \<open>None\<close> of a property read is \<open>undefined\<close>.
\<close>

datatype json =
    JNull
  | JBool bool
  | JNum int
  | JStr string
  | JArr "json list"
  | JObj "(string \<times> json) list"

text \<open>
  \<open>v[k]\<close>: reading a property of \<open>null\<close> throws; an object answers with the last
  binding of the key (\<open>JSON.parse\<close> leaves one binding per key, theory
  \<open>JsonText\<close>); strings and arrays
  have a \<open>length\<close>; no other property exists on a primitive or an array.
\<close>

fun js_get :: "json \<Rightarrow> string \<Rightarrow> js_error + json option" where
  "js_get JNull k = Inl TypeError"
| "js_get (JObj kvs) k = Inr (map_of (rev kvs) k)"
| "js_get (JStr s) k = Inr (if k = ''length'' then Some (JNum (int (length s))) else None)"
| "js_get (JArr xs) k = Inr (if k = ''length'' then Some (JNum (int (length xs))) else None)"
| "js_get (JBool b) k = Inr None"
| "js_get (JNum n) k = Inr None"

text \<open>Decimal notation of numbers, as \<open>String(n)\<close> writes an integer.\<close>

fun nat_str :: "nat \<Rightarrow> string" where
  "nat_str n = (if n < 10 then [char_of (48 + n)] else nat_str (n div 10) @ [char_of (48 + n mod 10)])"

definition int_str :: "int \<Rightarrow> string" where
  "int_str i = (if i < 0 then CHR ''-'' # nat_str (nat (- i)) else nat_str (nat i))"

text \<open>
  \<open>String(v)\<close>, the conversion a template literal applies (ECMA-262 ToString). An
  object goes through OrdinaryToPrimitive: its \<open>toString\<close>, then its \<open>valueOf\<close>, is
  called if callable and kept if it returns a primitive. A value \<open>JSON.parse\<close> built
  has no callable own property, so an object with an own \<open>toString\<close> key throws a
  \<open>TypeError\<close> (the inherited \<open>valueOf\<close> returns the object itself), and any other
  object is \<open>[object Object]\<close>. An array is \<open>Array.prototype.join\<close>, which writes
  \<open>null\<close> elements as the empty string and converts the others in order.
\<close>

fun js_str :: "json \<Rightarrow> js_error + string"
  and js_str_elems :: "json list \<Rightarrow> js_error + string list" where
  "js_str JNull = Inr ''null''"
| "js_str (JBool b) = Inr (if b then ''true'' else ''false'')"
| "js_str (JNum n) = Inr (int_str n)"
| "js_str (JStr s) = Inr s"
| "js_str (JArr xs) = (case js_str_elems xs of Inl e \<Rightarrow> Inl e | Inr ss \<Rightarrow> Inr (join_with '','' ss))"
| "js_str (JObj kvs) = (if map_of kvs ''toString'' = None then Inr ''[object Object]'' else Inl TypeError)"
| "js_str_elems [] = Inr []"
| "js_str_elems (x # xs) =
     (case (if x = JNull then Inr [] else js_str x) of
        Inl e \<Rightarrow> Inl e
      | Inr s \<Rightarrow> (case js_str_elems xs of Inl e \<Rightarrow> Inl e | Inr ss \<Rightarrow> Inr (s # ss)))"

definition js_str_opt :: "json option \<Rightarrow> js_error + string" where
  "js_str_opt v = (case v of None \<Rightarrow> Inr ''undefined'' | Some x \<Rightarrow> js_str x)"

lemma nat_str_nonempty [simp]: "nat_str n \<noteq> []"
  by (subst nat_str.simps) simp

declare nat_str.simps [simp del]

lemma nat_str_small [simp]: "n < 10 \<Longrightarrow> nat_str n = [char_of (48 + n)]"
  by (subst nat_str.simps) simp

end
