(* ===== verification/History.thy ===== *)
theory History
  imports Json
begin

text \<open>
  The recent-scan history of \<open>src/script.js\<close>: the array update of
  \<open>addToRecentScans\<close> (remove the records with the same barcode, put the new record in
  front, keep the first ten) and the list markup of \<open>loadRecentScans\<close>. The history
  \<open>this.recentScans\<close> is a JSON value (see \<open>Json\<close>): the code's own writes keep it an
  array of scan records, which \<open>wf_history\<close> describes; on any other value the property
  reads and method calls of the source throw, and the model throws with them.
  The abstract history is the list of barcodes, newest first (\<open>history_barcodes\<close>).
\<close>

section \<open>Scan records\<close>

text \<open>\<open>{barcode, timestamp: new Date().toISOString(), time: new Date().toLocaleString('ko-KR')}\<close>\<close>

definition scan_record :: "string \<Rightarrow> string \<Rightarrow> string \<Rightarrow> json" where
  "scan_record barcode stamp loc_time =
     JObj [(''barcode'', JStr barcode), (''timestamp'', JStr stamp), (''time'', JStr loc_time)]"

text \<open>\<open>this.recentScans.filter(scan => scan.barcode !== barcode)\<close>\<close>

fun remove_barcode :: "string \<Rightarrow> json list \<Rightarrow> js_error + json list" where
  "remove_barcode b [] = Inr []"
| "remove_barcode b (x # xs) =
     (case js_get x ''barcode'' of
        Inl e \<Rightarrow> Inl e
      | Inr v \<Rightarrow> (case remove_barcode b xs of
                   Inl e \<Rightarrow> Inl e
                 | Inr ys \<Rightarrow> Inr (if v \<noteq> Some (JStr b) then x # ys else ys)))"

text \<open>
  Lines 336--351: the new value of \<open>this.recentScans\<close>. \<open>filter\<close> exists on arrays
  only; the record is built before the filter runs; \<open>unshift\<close> puts it in front;
  \<open>slice(0, 10)\<close> cuts a list longer than ten.
\<close>

definition update_recent :: "string \<Rightarrow> string \<Rightarrow> string \<Rightarrow> json \<Rightarrow> js_error + json" where
  "update_recent stamp loc_time barcode recent =
     (let scanRecord = scan_record barcode stamp loc_time in
      case recent of
        JArr xs \<Rightarrow>
          (case remove_barcode barcode xs of
             Inl e \<Rightarrow> Inl e
           | Inr ys \<Rightarrow>
               (let zs = scanRecord # ys in Inr (JArr (if length zs > 10 then take 10 zs else zs))))
      | _ \<Rightarrow> Inl TypeError)"

section \<open>The rendered list\<close>

text \<open>
  \<open>loadRecentScans\<close>, lines 357--369: the placeholder paragraph for an empty history,
  else one \<open>div\<close> per record, joined with the empty string. The template's
  indentation is left out; every interpolated value is kept where the source puts it.
\<close>

datatype recent_view = NoRecentScans | RecentItems string

definition recent_item_html :: "string \<Rightarrow> string \<Rightarrow> string" where
  \<open>recent_item_html bc t =
     ''<div class="recent-item" onclick="easyFilter.selectRecentScan('' @ [CHR 0x27] @ bc @ [CHR 0x27] @
     '')">'' @ ''<span class="recent-barcode">'' @ bc @ ''</span>'' @
     ''<span class="recent-time">'' @ t @ ''</span>'' @ ''</div>''\<close>

fun render_items :: "json list \<Rightarrow> js_error + string list" where
  "render_items [] = Inr []"
| "render_items (scan # xs) =
     (case js_get scan ''barcode'' of
        Inl e \<Rightarrow> Inl e
      | Inr bv \<Rightarrow> (case js_str_opt bv of
          Inl e \<Rightarrow> Inl e
        | Inr bc \<Rightarrow> (case js_get scan ''time'' of
            Inl e \<Rightarrow> Inl e
          | Inr tv \<Rightarrow> (case js_str_opt tv of
              Inl e \<Rightarrow> Inl e
            | Inr t \<Rightarrow> (case render_items xs of
                Inl e \<Rightarrow> Inl e
              | Inr hs \<Rightarrow> Inr (recent_item_html bc t # hs))))))"

definition load_recent_scans :: "json \<Rightarrow> js_error + recent_view" where
  "load_recent_scans recent =
     (case js_get recent ''length'' of
        Inl e \<Rightarrow> Inl e
      | Inr len \<Rightarrow>
          if len = Some (JNum 0) then Inr NoRecentScans
          else (case recent of
                  JArr xs \<Rightarrow> (case render_items xs of
                                Inl e \<Rightarrow> Inl e
                              | Inr hs \<Rightarrow> Inr (RecentItems (join_with [] hs)))
                | _ \<Rightarrow> Inl TypeError))"

section \<open>Well-formed histories and their abstraction\<close>

definition record_barcode :: "json \<Rightarrow> string option" where
  "record_barcode x = (case js_get x ''barcode'' of Inr (Some (JStr b)) \<Rightarrow> Some b | _ \<Rightarrow> None)"

definition history_barcodes :: "json list \<Rightarrow> string list" where
  "history_barcodes xs = List.map_filter record_barcode xs"

text \<open>
  What the code's own writes keep true: every element is a record with a string
  barcode, no barcode occurs twice, at most ten elements.
\<close>

definition wf_history :: "json list \<Rightarrow> bool" where
  "wf_history xs \<longleftrightarrow>
     list_all (\<lambda>x. record_barcode x \<noteq> None) xs \<and> distinct (map record_barcode xs) \<and> length xs \<le> 10"

text \<open>
  A run of \<open>addToRecentScans\<close> calls, each with its barcode and the two clock strings;
  the first exception ends the run. The abstract counterpart is \<open>hist_step\<close> on lists
  of barcodes: the specification's record operation (section 4.2).
\<close>

fun record_all :: "(string \<times> string \<times> string) list \<Rightarrow> json \<Rightarrow> js_error + json" where
  "record_all [] h = Inr h"
| "record_all ((b, s, l) # evs) h =
     (case update_recent s l b h of Inl e \<Rightarrow> Inl e | Inr h' \<Rightarrow> record_all evs h')"

definition hist_step :: "string \<Rightarrow> string list \<Rightarrow> string list" where
  "hist_step b h = take 10 (b # removeAll b h)"

section \<open>Lemmas on the history operations\<close>

lemma js_get_nonnull: "x \<noteq> JNull \<Longrightarrow> \<exists>v. js_get x k = Inr v"
  by (cases x) auto

lemma record_barcode_js_get:
  "x \<noteq> JNull \<Longrightarrow> (js_get x ''barcode'' = Inr (Some (JStr b))) = (record_barcode x = Some b)"
  by (cases x) (auto simp: record_barcode_def split: option.splits json.splits)

lemma record_barcode_scan_record [simp]: "record_barcode (scan_record b s l) = Some b"
  by (simp add: record_barcode_def scan_record_def)

lemma remove_barcode_filter:
  "JNull \<notin> set xs \<Longrightarrow> remove_barcode b xs = Inr (filter (\<lambda>x. record_barcode x \<noteq> Some b) xs)"
proof (induction xs)
  case Nil
  then show ?case by simp
next
  case (Cons x xs)
  then have "x \<noteq> JNull" by auto
  then obtain v where v: "js_get x ''barcode'' = Inr v" using js_get_nonnull by blast
  have "(v \<noteq> Some (JStr b)) = (record_barcode x \<noteq> Some b)"
    using record_barcode_js_get [OF \<open>x \<noteq> JNull\<close>, of b] v by auto
  with Cons v show ?case by simp
qed

lemma remove_barcode_null: "JNull \<in> set xs \<Longrightarrow> remove_barcode b xs = Inl TypeError"
proof (induction xs)
  case Nil
  then show ?case by simp
next
  case (Cons x xs)
  show ?case
  proof (cases "x = JNull")
    case True
    then show ?thesis by simp
  next
    case False
    with Cons obtain v where "js_get x ''barcode'' = Inr v" using js_get_nonnull by blast
    with Cons False show ?thesis by simp
  qed
qed

lemma update_recent_array:
  assumes "JNull \<notin> set xs"
  shows "update_recent s l b (JArr xs) =
     Inr (JArr (take 10 (scan_record b s l # filter (\<lambda>x. record_barcode x \<noteq> Some b) xs)))"
  by (simp only: update_recent_def remove_barcode_filter [OF assms] Let_def json.case sum.case
      take_if_longer)

lemma wf_history_nonnull: "wf_history xs \<Longrightarrow> JNull \<notin> set xs"
  by (auto simp: wf_history_def list_all_iff record_barcode_def)

lemma wf_history_update:
  assumes "wf_history xs"
  shows "wf_history (take 10 (scan_record b s l # filter (\<lambda>x. record_barcode x \<noteq> Some b) xs))"
proof -
  let ?ys = "filter (\<lambda>x. record_barcode x \<noteq> Some b) xs"
  have all: "list_all (\<lambda>x. record_barcode x \<noteq> None) (scan_record b s l # ?ys)"
    using assms by (auto simp: wf_history_def list_all_iff)
  have "distinct (map record_barcode (scan_record b s l # ?ys))"
    using assms by (auto simp: wf_history_def)
  then have "distinct (map record_barcode (take 10 (scan_record b s l # ?ys)))"
    by (rule distinct_map_take)
  moreover have "list_all (\<lambda>x. record_barcode x \<noteq> None) (take 10 (scan_record b s l # ?ys))"
    using all by (auto simp: list_all_iff dest: in_set_takeD)
  ultimately show ?thesis by (simp add: wf_history_def del: take_Suc_Cons)
qed

lemma history_barcodes_update:
  assumes "wf_history xs"
  shows "history_barcodes (take 10 (scan_record b s l # filter (\<lambda>x. record_barcode x \<noteq> Some b) xs)) =
         hist_step b (history_barcodes xs)"
proof -
  let ?g = "the \<circ> record_barcode"
  have all: "list_all (\<lambda>x. record_barcode x \<noteq> None) xs" using assms by (simp add: wf_history_def)
  have "filter (\<lambda>x. record_barcode x \<noteq> Some b) xs = filter (\<lambda>x. ?g x \<noteq> b) xs"
    using all by (auto simp: list_all_iff intro!: filter_cong)
  then have "map ?g (filter (\<lambda>x. record_barcode x \<noteq> Some b) xs) = removeAll b (map ?g xs)"
    by (simp add: removeAll_filter_not_eq filter_map comp_def eq_commute)
  moreover have "list_all (\<lambda>x. record_barcode x \<noteq> None)
      (take 10 (scan_record b s l # filter (\<lambda>x. record_barcode x \<noteq> Some b) xs))"
    using all by (auto simp: list_all_iff dest: in_set_takeD)
  ultimately show ?thesis
    using all by (simp add: history_barcodes_def hist_step_def map_filter_all_Some
        take_map [symmetric] del: take_Suc_Cons)
qed

lemma update_recent_wf_step:
  assumes "wf_history xs"
  shows "\<exists>ys. update_recent s l b (JArr xs) = Inr (JArr ys) \<and> wf_history ys \<and>
           history_barcodes ys = hist_step b (history_barcodes xs)"
  using update_recent_array [OF wf_history_nonnull [OF assms]] wf_history_update [OF assms]
    history_barcodes_update [OF assms] by blast

lemma record_all_abs:
  "wf_history xs \<Longrightarrow> \<exists>ys. record_all evs (JArr xs) = Inr (JArr ys) \<and> wf_history ys \<and>
     history_barcodes ys = fold hist_step (map fst evs) (history_barcodes xs)"
proof (induction evs arbitrary: xs)
  case Nil
  then show ?case by simp
next
  case (Cons ev evs)
  obtain b s l where ev: "ev = (b, s, l)" by (cases ev) auto
  from update_recent_wf_step [OF Cons.prems, of s l b] obtain ys where
    ys: "update_recent s l b (JArr xs) = Inr (JArr ys)" "wf_history ys"
        "history_barcodes ys = hist_step b (history_barcodes xs)" by blast
  from Cons.IH [OF ys(2)] ev ys show ?case by simp
qed

lemma hist_step_remdups:
  "hist_step b (take 10 (rev (remdups bs))) = take 10 (rev (remdups (bs @ [b])))"
proof -
  have "take 9 (removeAll b (take 10 (rev (remdups bs)))) = take 9 (removeAll b (rev (remdups bs)))"
    using take_removeAll_take [of "rev (remdups bs)" 9 b] by simp
  then show ?thesis by (simp add: hist_step_def remdups_snoc rev_removeAll)
qed

lemma fold_hist_step:
  "fold hist_step bs (take 10 (rev (remdups as))) = take 10 (rev (remdups (as @ bs)))"
proof (induction bs arbitrary: as)
  case Nil
  then show ?case by simp
next
  case (Cons b bs)
  from Cons.IH [of "as @ [b]"] show ?case by (simp add: hist_step_remdups)
qed

lemma wf_history_Nil [simp]: "wf_history []"
  by (simp add: wf_history_def)

lemma length_history_barcodes: "wf_history ys \<Longrightarrow> length (history_barcodes ys) = length ys"
  by (simp add: wf_history_def history_barcodes_def map_filter_all_Some)

section \<open>Properties of the history\<close>


text \<open>
  C4: on a well-formed history, \<open>addToRecentScans\<close> succeeds, and its effect on the
  list of barcodes is the specification's record operation: the new barcode in front,
  its older occurrence removed, at most ten kept.
\<close>

theorem update_recent_refines:
  "wf_history xs \<Longrightarrow> \<exists>ys. update_recent s l b (JArr xs) = Inr (JArr ys) \<and>
     history_barcodes ys = take 10 (b # removeAll b (history_barcodes xs))"
  using update_recent_wf_step [of xs s l b] by (auto simp: hist_step_def)

theorem update_recent_refines_witness:
  "wf_history [] \<and> (\<exists>ys. update_recent ''s'' ''l'' ''12345678'' (JArr []) = Inr (JArr ys) \<and>
     history_barcodes ys = take 10 (''12345678'' # removeAll ''12345678'' (history_barcodes [])))"
  using update_recent_refines [of "[]" "''s''" "''l''" "''12345678''"] by simp

text \<open>
  C5: \<open>addToRecentScans\<close> keeps the history well formed: records with string barcodes,
  no barcode twice, at most ten entries.
\<close>

theorem update_recent_wf:
  "wf_history xs \<Longrightarrow> update_recent s l b (JArr xs) = Inr (JArr ys) \<Longrightarrow> wf_history ys"
  using update_recent_wf_step [of xs s l b] by auto

theorem update_recent_wf_witness:
  "wf_history [] \<and> update_recent ''s'' ''l'' ''12345678'' (JArr []) = Inr (JArr [scan_record ''12345678'' ''s'' ''l'']) \<and>
   wf_history [scan_record ''12345678'' ''s'' ''l'']"
proof -
  have u: "update_recent ''s'' ''l'' ''12345678'' (JArr []) = Inr (JArr [scan_record ''12345678'' ''s'' ''l''])"
    by (simp add: update_recent_def)
  show ?thesis using update_recent_wf [OF wf_history_Nil u] u by simp
qed

text \<open>
  C17: any sequence of recorded scans from an empty history succeeds and leaves the ten
  most recently scanned distinct barcodes, newest first.
\<close>

theorem history_run:
  "\<exists>ys. record_all evs (JArr []) = Inr (JArr ys) \<and> wf_history ys \<and>
     history_barcodes ys = take 10 (rev (remdups (map fst evs)))"
  using record_all_abs [OF wf_history_Nil, of evs] fold_hist_step [of "map fst evs" "[]"]
  by (simp add: history_barcodes_def List.map_filter_simps)

text \<open>
  C18: recording the same barcode twice leaves exactly one entry for it, at the front,
  carrying the second call's timestamps.
\<close>

theorem history_dedup:
  assumes "wf_history xs" "update_recent s1 l1 b (JArr xs) = Inr (JArr ys)"
    "update_recent s2 l2 b (JArr ys) = Inr (JArr zs)"
  shows "hd zs = scan_record b s2 l2 \<and> filter (\<lambda>x. record_barcode x = Some b) zs = [scan_record b s2 l2]"
proof -
  have "ys = take 10 (scan_record b s1 l1 # filter (\<lambda>x. record_barcode x \<noteq> Some b) xs)"
    using assms(2) update_recent_array [OF wf_history_nonnull [OF assms(1)]] by simp
  then have ys: "wf_history ys" using wf_history_update [OF assms(1)] by simp
  have "zs = take 10 (scan_record b s2 l2 # filter (\<lambda>x. record_barcode x \<noteq> Some b) ys)"
    using assms(3) update_recent_array [OF wf_history_nonnull [OF ys]] by simp
  then show ?thesis by (auto simp: filter_empty_conv dest: in_set_takeD)
qed

theorem history_dedup_witness:
  "wf_history [] \<and> update_recent ''t1'' ''l1'' ''123'' (JArr []) = Inr (JArr [scan_record ''123'' ''t1'' ''l1'']) \<and>
   update_recent ''t2'' ''l2'' ''123'' (JArr [scan_record ''123'' ''t1'' ''l1'']) = Inr (JArr [scan_record ''123'' ''t2'' ''l2'']) \<and>
   hd [scan_record ''123'' ''t2'' ''l2''] = scan_record ''123'' ''t2'' ''l2'' \<and>
   filter (\<lambda>x. record_barcode x = Some ''123'') [scan_record ''123'' ''t2'' ''l2''] = [scan_record ''123'' ''t2'' ''l2'']"
proof -
  have u1: "update_recent ''t1'' ''l1'' ''123'' (JArr []) = Inr (JArr [scan_record ''123'' ''t1'' ''l1''])"
    by (simp add: update_recent_def)
  have u2: "update_recent ''t2'' ''l2'' ''123'' (JArr [scan_record ''123'' ''t1'' ''l1'']) = Inr (JArr [scan_record ''123'' ''t2'' ''l2''])"
    by (simp add: update_recent_def scan_record_def)
  show ?thesis using history_dedup [OF wf_history_Nil u1 u2] u1 u2 by simp
qed

text \<open>
  C19: recording eleven distinct barcodes into an empty history leaves ten entries, and
  the first barcode recorded is the one evicted.
\<close>

theorem history_cap:
  "distinct bs \<Longrightarrow> length bs = 11 \<Longrightarrow>
   \<exists>ys. record_all (map (\<lambda>b. (b, s, l)) bs) (JArr []) = Inr (JArr ys) \<and> length ys = 10 \<and>
        hd bs \<notin> set (history_barcodes ys)"
proof -
  assume d: "distinct bs" and n: "length bs = 11"
  obtain ys where ys: "record_all (map (\<lambda>b. (b, s, l)) bs) (JArr []) = Inr (JArr ys)" "wf_history ys"
     "history_barcodes ys = take 10 (rev (remdups bs))"
    using record_all_abs [OF wf_history_Nil, of "map (\<lambda>b. (b, s, l)) bs"] fold_hist_step [of bs "[]"]
    by (auto simp: history_barcodes_def List.map_filter_simps comp_def)
  have hb: "history_barcodes ys = take 10 (rev bs)" using ys(3) d by (simp add: distinct_remdups_id)
  have "length ys = 10" using length_history_barcodes [OF ys(2)] hb n by simp
  moreover have "hd bs \<notin> set (take 10 (rev bs))"
  proof -
    obtain c cs where bs: "bs = c # cs" using n by (cases bs) auto
    with n have "take 10 (rev bs) = rev cs" by simp
    with bs d show ?thesis by simp
  qed
  ultimately show ?thesis using ys(1) hb by auto
qed

theorem history_cap_witness:
  "distinct [''10000000'', ''10000001'', ''10000002'', ''10000003'', ''10000004'', ''10000005'',
             ''10000006'', ''10000007'', ''10000008'', ''10000009'', ''10000010''] \<and>
   length [''10000000'', ''10000001'', ''10000002'', ''10000003'', ''10000004'', ''10000005'',
             ''10000006'', ''10000007'', ''10000008'', ''10000009'', ''10000010''] = 11 \<and>
   (\<exists>ys. record_all (map (\<lambda>b. (b, ''t'', ''l''))
      [''10000000'', ''10000001'', ''10000002'', ''10000003'', ''10000004'', ''10000005'',
       ''10000006'', ''10000007'', ''10000008'', ''10000009'', ''10000010'']) (JArr []) = Inr (JArr ys) \<and>
      length ys = 10 \<and> ''10000000'' \<notin> set (history_barcodes ys))"
  using history_cap [of "[''10000000'', ''10000001'', ''10000002'', ''10000003'', ''10000004'', ''10000005'',
       ''10000006'', ''10000007'', ''10000008'', ''10000009'', ''10000010'']" "''t''" "''l''"]
  by simp

text \<open>
  C27: \<open>addToRecentScans\<close> throws a TypeError exactly when the stored history is not an
  array or holds a \<open>null\<close> element; otherwise it returns the new array.
\<close>

theorem update_recent_error:
  "update_recent s l b v = Inl TypeError \<longleftrightarrow> (case v of JArr xs \<Rightarrow> JNull \<in> set xs | _ \<Rightarrow> True)"
proof (cases v)
  case (JArr xs)
  show ?thesis
  proof (cases "JNull \<in> set xs")
    case True
    with JArr show ?thesis by (simp add: update_recent_def remove_barcode_null)
  next
    case False
    with JArr show ?thesis by (simp add: update_recent_array)
  qed
qed (simp_all add: update_recent_def)

lemma render_items_records:
  "render_items (map (\<lambda>(b, s, l). scan_record b s l) rs) = Inr (map (\<lambda>(b, s, l). recent_item_html b l) rs)"
  by (induction rs) (auto simp: scan_record_def js_str_opt_def)

text \<open>The list renders when each record renders on its own: a throw is local to the
  record whose conversion fails.\<close>

definition renders :: "json \<Rightarrow> bool" where
  "renders x \<longleftrightarrow> \<not> isl (render_items [x])"

lemma render_items_Cons_isr:
  "\<not> isl (render_items (x # xs)) \<longleftrightarrow> \<not> isl (render_items [x]) \<and> \<not> isl (render_items xs)"
  by (auto split: sum.splits)

lemma render_items_isr: "\<not> isl (render_items xs) \<longleftrightarrow> list_all renders xs"
  unfolding renders_def by (induction xs) (simp, subst render_items_Cons_isr, simp)

lemma render_scan_record: "renders (scan_record b t l)"
  unfolding renders_def
  by (simp add: scan_record_def js_str_opt_def)

end
