(* ===== verification/JsonText.thy ===== *)
theory JsonText
  imports Json "HOL-Library.AList" "HOL-Library.Multiset"
begin

text \<open>
  The text layer of local storage: \<open>addToRecentScans\<close> writes
  \<open>JSON.stringify(this.recentScans)\<close> under the key \<open>recentScans\<close> (line 353 of
  \<open>src/script.js\<close>) and the constructor reads it back with \<open>JSON.parse\<close> (line 8). Both are
  the ECMAScript library's; they are modelled here from the standard (ECMA-262,
  JSON.stringify and JSON.parse) for the values of theory \<open>Json\<close>:
  \<^item> \<open>json_stringify\<close>: \<open>JSON.stringify\<close> without indentation; strings are quoted with the
    standard's escapes (\<open>QuoteJSONString\<close>), numbers written in decimal;
  \<^item> \<open>json_parse\<close>: a lexer (\<open>lex\<close>, one token per \<open>next_token\<close>) and a stack parser
    (\<open>parse_value\<close>/\<open>parse_after\<close>) that builds objects as the engine does: a repeated key
    keeps its first place and takes the last value (\<open>AList.update\<close>), and the properties
    are enumerated array indices first, ascending, then the other keys in insertion order
    (\<open>js_props\<close>, the order \<open>JSON.stringify\<close> writes them in).
  \<open>json_parse\<close> answers \<open>Some (Inl SyntaxError)\<close> where \<open>JSON.parse\<close> throws and
  \<open>Some (Inr v)\<close> where it returns \<open>v\<close>; it answers \<open>None\<close> for well-formed text whose
  value the model's \<open>json\<close> cannot hold: a number with a fraction, an exponent or more than
  fifteen digits (a double, not an integer of the model), or a \<open>\u\<close> escape above
  \<open>\u00ff\<close> (characters are bytes here).

  Lemmas: the values \<open>json_parse\<close> returns are canonical (\<open>json_canon\<close>: distinct keys in
  the engine's order, integers of at most fifteen digits), and exactly the canonical values
  survive \<open>json_stringify\<close> followed by \<open>json_parse\<close>. The proof goes through the token
  view: lexing the written text gives \<open>json_tokens v\<close>, and the stack parser turns those
  tokens back into \<open>v\<close>. The lexer's termination rests on \<open>next_token\<close> consuming input.
\<close>

section \<open>Writing: \<open>JSON.stringify\<close>\<close>

definition hex_digit :: "nat \<Rightarrow> char" where
  "hex_digit n = (if n < 10 then char_of (48 + n) else char_of (87 + n))"

text \<open>One character of a string literal, as \<open>QuoteJSONString\<close> writes it: the two
  short escapes for quote and backslash, the five control escapes, \<open>\u00xx\<close> (lower-case
  hex) for the other control characters, every other character as itself.\<close>

definition json_escape_char :: "char \<Rightarrow> string" where
  "json_escape_char c =
     (if c = CHR 0x22 then [CHR 0x5C, CHR 0x22]
      else if c = CHR 0x5C then [CHR 0x5C, CHR 0x5C]
      else if c = CHR 0x08 then [CHR 0x5C, CHR ''b'']
      else if c = CHR 0x09 then [CHR 0x5C, CHR ''t'']
      else if c = CHR 0x0A then [CHR 0x5C, CHR ''n'']
      else if c = CHR 0x0C then [CHR 0x5C, CHR ''f'']
      else if c = CHR 0x0D then [CHR 0x5C, CHR ''r'']
      else if of_char c < (32 :: nat) then
        [CHR 0x5C, CHR ''u'', CHR ''0'', CHR ''0'', hex_digit (of_char c div 16), hex_digit (of_char c mod 16)]
      else [c])"

definition json_quote :: "string \<Rightarrow> string" where
  "json_quote s = CHR 0x22 # concat (map json_escape_char s) @ [CHR 0x22]"

text \<open>\<open>JSON.stringify(v)\<close> with no replacer and no indentation.\<close>

fun json_stringify :: "json \<Rightarrow> string" where
  "json_stringify JNull = ''null''"
| "json_stringify (JBool b) = (if b then ''true'' else ''false'')"
| "json_stringify (JNum i) = int_str i"
| "json_stringify (JStr s) = json_quote s"
| "json_stringify (JArr xs) = CHR ''['' # join_with '','' (map json_stringify xs) @ '']''"
| "json_stringify (JObj kvs) =
     CHR ''{'' # join_with '','' (map (\<lambda>(k, v). json_quote k @ CHR '':'' # json_stringify v) kvs) @ ''}''"

section \<open>Reading: \<open>JSON.parse\<close>\<close>

definition is_json_ws :: "char \<Rightarrow> bool" where
  "is_json_ws c \<longleftrightarrow> of_char c \<in> {9, 10, 13, 32 :: nat}"

definition short_escape :: "char \<Rightarrow> char option" where
  "short_escape e =
     (if e = CHR 0x22 \<or> e = CHR 0x5C \<or> e = CHR ''/'' then Some e
      else if e = CHR ''b'' then Some (CHR 0x08)
      else if e = CHR ''f'' then Some (CHR 0x0C)
      else if e = CHR ''n'' then Some (CHR 0x0A)
      else if e = CHR ''r'' then Some (CHR 0x0D)
      else if e = CHR ''t'' then Some (CHR 0x09)
      else None)"

definition hex_val :: "char \<Rightarrow> nat option" where
  "hex_val c =
     (let n = of_char c :: nat in
      if 48 \<le> n \<and> n \<le> 57 then Some (n - 48)
      else if 97 \<le> n \<and> n \<le> 102 then Some (n - 87)
      else if 65 \<le> n \<and> n \<le> 70 then Some (n - 55)
      else None)"

fun hex_acc :: "nat \<Rightarrow> string \<Rightarrow> nat option" where
  "hex_acc n [] = Some n"
| "hex_acc n (c # cs) = (case hex_val c of None \<Rightarrow> None | Some d \<Rightarrow> hex_acc (16 * n + d) cs)"

definition hex4 :: "string \<Rightarrow> nat option" where
  "hex4 cs = (if length cs = 4 then hex_acc 0 cs else None)"

text \<open>The body of a string literal after its opening quote: escapes, no raw control
  character; the flag turns false at a \<open>\u\<close> escape the model's characters cannot hold.\<close>

fun lex_string :: "bool \<Rightarrow> string \<Rightarrow> string \<Rightarrow> (bool \<times> string \<times> string) option" where
  "lex_string ok acc [] = None"
| "lex_string ok acc (c # s) =
     (if c = CHR 0x22 then Some (ok, rev acc, s)
      else if c = CHR 0x5C then
        (case s of
           [] \<Rightarrow> None
         | e # s' \<Rightarrow>
             (if e = CHR ''u'' then
                (case hex4 (take 4 s') of
                   None \<Rightarrow> None
                 | Some n \<Rightarrow>
                     if n < 256 then lex_string ok (char_of n # acc) (drop 4 s')
                     else lex_string False acc (drop 4 s'))
              else
                (case short_escape e of
                   None \<Rightarrow> None
                 | Some d \<Rightarrow> lex_string ok (d # acc) s')))
      else if of_char c < (32 :: nat) then None
      else lex_string ok (c # acc) s)"

definition digits_val :: "string \<Rightarrow> int" where
  "digits_val ds = foldl (\<lambda>n c. 10 * n + (of_char c - 48)) 0 ds"

definition lex_frac :: "string \<Rightarrow> (bool \<times> string) option" where
  "lex_frac s =
     (case s of
        [] \<Rightarrow> Some (False, [])
      | c # r \<Rightarrow>
          if c = CHR ''.'' then
            (if takeWhile is_digit r = [] then None else Some (True, dropWhile is_digit r))
          else Some (False, s))"

definition lex_exp :: "string \<Rightarrow> (bool \<times> string) option" where
  "lex_exp s =
     (case s of
        [] \<Rightarrow> Some (False, [])
      | c # r \<Rightarrow>
          if c = CHR ''e'' \<or> c = CHR ''E'' then
            (let r' = (case r of [] \<Rightarrow> [] | d # r'' \<Rightarrow> if d = CHR ''+'' \<or> d = CHR ''-'' then r'' else r)
             in if takeWhile is_digit r' = [] then None else Some (True, dropWhile is_digit r'))
          else Some (False, s))"

text \<open>A number: optional minus, an integer part without leading zero, optional
  fraction and exponent. The flag says whether the model holds the value exactly.\<close>

definition lex_number :: "string \<Rightarrow> (bool \<times> int \<times> string) option" where
  "lex_number s =
     (let neg = (s \<noteq> [] \<and> hd s = CHR ''-'');
          s1 = (if neg then tl s else s);
          ds = takeWhile is_digit s1;
          r1 = dropWhile is_digit s1
      in if ds = [] \<or> (hd ds = CHR ''0'' \<and> 1 < length ds) then None
         else
           (case lex_frac r1 of
              None \<Rightarrow> None
            | Some (f, r2) \<Rightarrow>
                (case lex_exp r2 of
                   None \<Rightarrow> None
                 | Some (e, r3) \<Rightarrow>
                     (let exact = (\<not> f \<and> \<not> e \<and> length ds \<le> 15);
                          n = digits_val ds
                      in Some (exact, if exact then (if neg then - n else n) else 0, r3)))))"

datatype token =
    TLBrack | TRBrack | TLBrace | TRBrace | TComma | TColon
  | TStr string | TNum int | TTrue | TFalse | TNull

definition lex_cons :: "token \<Rightarrow> bool \<Rightarrow> (bool \<times> token list) option \<Rightarrow> (bool \<times> token list) option" where
  "lex_cons t ok r = map_option (\<lambda>(b, ts). (ok \<and> b, t # ts)) r"


lemma lex_string_shorter: "lex_string ok acc s = Some (b, x, r) \<Longrightarrow> length r < length s"
proof (induction ok acc s rule: lex_string.induct)
  case (1 ok acc)
  then show ?case by simp
next
  case (2 ok acc c s)
  show ?case
  proof (cases "c = CHR 0x22 \<or> c \<noteq> CHR 0x5C")
    case True
    with "2.prems" "2.IH"(4) show ?thesis by (auto split: if_splits)
  next
    case esc: False
    then obtain e s' where s: "s = e # s'" using "2.prems" by (cases s) auto
    show ?thesis
    proof (cases "e = CHR ''u''")
      case True
      then obtain n where n: "hex4 (take 4 s') = Some n"
        using "2.prems" esc s by (auto split: option.splits)
      show ?thesis
      proof (cases "n < 256")
        case small: True
        then show ?thesis using "2.IH"(1) [OF _ _ s _ n small] "2.prems" esc s n \<open>e = _\<close> by auto
      next
        case big: False
        then show ?thesis using "2.IH"(2) [OF _ _ s _ n big] "2.prems" esc s n \<open>e = _\<close> by auto
      qed
    next
      case eu: False
      then obtain d where d: "short_escape e = Some d"
        using "2.prems" esc s by (auto split: option.splits)
      then show ?thesis using "2.IH"(3) [OF _ _ s eu d] "2.prems" esc s eu by auto
    qed
  qed
qed

lemma lex_frac_shorter: "lex_frac s = Some (f, r) \<Longrightarrow> length r \<le> length s"
  by (auto simp: lex_frac_def split: list.splits if_splits
      intro: order.trans [OF length_dropWhile_le])

lemma lex_exp_shorter: "lex_exp s = Some (e, r) \<Longrightarrow> length r \<le> length s"
  by (auto simp: lex_exp_def Let_def split: list.splits if_splits
      intro: order.trans [OF length_dropWhile_le])

lemma dropWhile_shorter: "takeWhile P s \<noteq> [] \<Longrightarrow> length (dropWhile P s) < length s"
  by (cases s) (auto split: if_splits intro: le_imp_less_Suc length_dropWhile_le)

lemma lex_number_shorter: "lex_number s = Some (b, i, r) \<Longrightarrow> length r < length s"
proof -
  assume a: "lex_number s = Some (b, i, r)"
  define s1 where "s1 = (if s \<noteq> [] \<and> hd s = CHR ''-'' then tl s else s)"
  have s1: "length s1 \<le> length s" by (simp add: s1_def)
  have "\<exists>fr er. takeWhile is_digit s1 \<noteq> [] \<and> lex_frac (dropWhile is_digit s1) = Some fr \<and>
      lex_exp (snd fr) = Some er \<and> r = snd er"
    using a unfolding lex_number_def Let_def s1_def [symmetric]
    by (auto split: if_splits option.splits)
  then obtain f r2 e where
    ds: "takeWhile is_digit s1 \<noteq> []" and
    f: "lex_frac (dropWhile is_digit s1) = Some (f, r2)" and
    e: "lex_exp r2 = Some (e, r)"
    by fastforce
  have "length r \<le> length (dropWhile is_digit s1)"
    using lex_frac_shorter [OF f] lex_exp_shorter [OF e] by simp
  also have "\<dots> < length s1" using dropWhile_shorter [OF ds] .
  finally show ?thesis using s1 by simp
qed

text \<open>The structural characters of JSON, each a token by itself.\<close>

definition punct_token :: "char \<Rightarrow> token option" where
  "punct_token c =
     (if c = CHR ''['' then Some TLBrack
      else if c = CHR '']'' then Some TRBrack
      else if c = CHR ''{'' then Some TLBrace
      else if c = CHR ''}'' then Some TRBrace
      else if c = CHR '','' then Some TComma
      else if c = CHR '':'' then Some TColon
      else None)"

text \<open>The literal names \<open>true\<close>, \<open>false\<close> and \<open>null\<close>, starting with \<open>c\<close>.\<close>

definition keyword_token :: "char \<Rightarrow> string \<Rightarrow> (token \<times> string) option" where
  "keyword_token c s =
     (if c # take 3 s = ''true'' then Some (TTrue, drop 3 s)
      else if c # take 4 s = ''false'' then Some (TFalse, drop 4 s)
      else if c # take 3 s = ''null'' then Some (TNull, drop 3 s)
      else None)"

text \<open>One token from the text after a non-blank character \<open>c\<close>: the token, whether the
  model holds its value exactly, and the rest of the text.\<close>

definition next_token :: "char \<Rightarrow> string \<Rightarrow> (token \<times> bool \<times> string) option" where
  "next_token c s =
     (case punct_token c of
        Some t \<Rightarrow> Some (t, True, s)
      | None \<Rightarrow>
          if c = CHR 0x22 then
            (case lex_string True [] s of
               None \<Rightarrow> None
             | Some (ok, x, r) \<Rightarrow> Some (TStr x, ok, r))
          else if c = CHR ''-'' \<or> is_digit c then
            (case lex_number (c # s) of
               None \<Rightarrow> None
             | Some (ok, i, r) \<Rightarrow> Some (TNum i, ok, r))
          else
            (case keyword_token c s of
               None \<Rightarrow> None
             | Some (t, r) \<Rightarrow> Some (t, True, r)))"

lemma keyword_token_shorter: "keyword_token c s = Some (t, r) \<Longrightarrow> length r \<le> length s"
  by (auto simp: keyword_token_def split: if_splits)

lemma next_token_cases:
  assumes "next_token c s = Some (t, ok, r)"
  shows "(punct_token c = Some t \<and> ok \<and> r = s) \<or>
         (\<exists>x. t = TStr x \<and> lex_string True [] s = Some (ok, x, r)) \<or>
         (\<exists>i. t = TNum i \<and> lex_number (c # s) = Some (ok, i, r)) \<or>
         (keyword_token c s = Some (t, r) \<and> ok)"
proof (cases "punct_token c")
  case None
  show ?thesis
  proof (cases "c = CHR 0x22")
    case True
    then show ?thesis using assms None by (auto simp: next_token_def split: option.splits prod.splits)
  next
    case nq: False
    show ?thesis
    proof (cases "c = CHR ''-'' \<or> is_digit c")
      case True
      then show ?thesis using assms None nq by (auto simp: next_token_def split: option.splits prod.splits)
    next
      case False
      then show ?thesis using assms None nq by (auto simp: next_token_def split: option.splits prod.splits)
    qed
  qed
qed (use assms in \<open>simp add: next_token_def\<close>)

lemma next_token_shorter: "next_token c s = Some (t, ok, r) \<Longrightarrow> length r < Suc (length s)"
  using lex_string_shorter [of True "[]" s] lex_number_shorter [of "c # s"] keyword_token_shorter [of c s]
  by (fastforce dest: next_token_cases)

function lex :: "string \<Rightarrow> (bool \<times> token list) option" where
  "lex [] = Some (True, [])"
| "lex (c # s) =
     (if is_json_ws c then lex s
      else
        (case next_token c s of
           None \<Rightarrow> None
         | Some (t, ok, r) \<Rightarrow> lex_cons t ok (lex r)))"
  by pat_completeness auto
termination
  by (relation "measure length") (auto dest: next_token_shorter)

datatype parse_frame = FArr "json list" | FObj "(string \<times> json) list" string

definition is_array_index :: "string \<Rightarrow> bool" where
  "is_array_index k \<longleftrightarrow>
     k \<noteq> [] \<and> list_all is_digit k \<and> (k = ''0'' \<or> 48 < (of_char (hd k) :: nat)) \<and>
     digits_val k < 4294967295"

text \<open>The order in which an object's own properties are enumerated: array indices
  ascending, then the other keys in insertion order.\<close>

definition js_props :: "(string \<times> json) list \<Rightarrow> (string \<times> json) list" where
  "js_props kvs =
     sort_key (\<lambda>kv. digits_val (fst kv)) (filter (\<lambda>kv. is_array_index (fst kv)) kvs) @
     filter (\<lambda>kv. \<not> is_array_index (fst kv)) kvs"

text \<open>The parser over tokens, with an explicit stack of the arrays and objects still
  open; \<open>parse_after\<close> receives a finished value and reads what may follow it.\<close>

fun parse_value :: "parse_frame list \<Rightarrow> token list \<Rightarrow> json option"
and parse_after :: "parse_frame list \<Rightarrow> json \<Rightarrow> token list \<Rightarrow> json option" where
  "parse_value st [] = None"
| "parse_value st (t # ts) =
     (case t of
        TNull \<Rightarrow> parse_after st JNull ts
      | TTrue \<Rightarrow> parse_after st (JBool True) ts
      | TFalse \<Rightarrow> parse_after st (JBool False) ts
      | TNum i \<Rightarrow> parse_after st (JNum i) ts
      | TStr x \<Rightarrow> parse_after st (JStr x) ts
      | TLBrack \<Rightarrow>
          (if ts \<noteq> [] \<and> hd ts = TRBrack then parse_after st (JArr []) (tl ts)
           else parse_value (FArr [] # st) ts)
      | TLBrace \<Rightarrow>
          (case ts of
             TRBrace # ts' \<Rightarrow> parse_after st (JObj []) ts'
           | TStr k # TColon # ts' \<Rightarrow> parse_value (FObj [] k # st) ts'
           | _ \<Rightarrow> None)
      | _ \<Rightarrow> None)"
| "parse_after [] v ts = (if ts = [] then Some v else None)"
| "parse_after (FArr xs # st) v ts =
     (case ts of
        TComma # ts' \<Rightarrow> parse_value (FArr (xs @ [v]) # st) ts'
      | TRBrack # ts' \<Rightarrow> parse_after st (JArr (xs @ [v])) ts'
      | _ \<Rightarrow> None)"
| "parse_after (FObj kvs k # st) v ts =
     (case ts of
        TComma # TStr k' # TColon # ts' \<Rightarrow> parse_value (FObj (AList.update k v kvs) k' # st) ts'
      | TRBrace # ts' \<Rightarrow> parse_after st (JObj (js_props (AList.update k v kvs))) ts'
      | _ \<Rightarrow> None)"

text \<open>\<open>JSON.parse(t)\<close>.\<close>

definition json_parse :: "string \<Rightarrow> (js_error + json) option" where
  "json_parse t =
     (case lex t of
        None \<Rightarrow> Some (Inl SyntaxError)
      | Some (exact, ts) \<Rightarrow>
          (case parse_value [] ts of
             None \<Rightarrow> Some (Inl SyntaxError)
           | Some v \<Rightarrow> if exact then Some (Inr v) else None))"

section \<open>Canonical values and the token view\<close>

definition json_delim :: "string \<Rightarrow> bool" where
  "json_delim s \<longleftrightarrow> s = [] \<or> hd s \<in> {CHR '','', CHR '']'', CHR ''}''}"

fun json_tokens :: "json \<Rightarrow> token list" where
  "json_tokens JNull = [TNull]"
| "json_tokens (JBool b) = [if b then TTrue else TFalse]"
| "json_tokens (JNum i) = [TNum i]"
| "json_tokens (JStr s) = [TStr s]"
| "json_tokens (JArr xs) = TLBrack # join_with [TComma] (map json_tokens xs) @ [TRBrack]"
| "json_tokens (JObj kvs) =
     TLBrace # join_with [TComma] (map (\<lambda>(k, v). TStr k # TColon # json_tokens v) kvs) @ [TRBrace]"

fun json_canon :: "json \<Rightarrow> bool" where
  "json_canon (JNum i) = (\<bar>i\<bar> < 10 ^ 15)"
| "json_canon (JArr xs) = list_all json_canon xs"
| "json_canon (JObj kvs) =
     (distinct (map fst kvs) \<and> js_props kvs = kvs \<and> list_all (\<lambda>(k, v). json_canon v) kvs)"
| "json_canon _ = True"

definition lex_app :: "token list \<Rightarrow> (bool \<times> token list) option \<Rightarrow> (bool \<times> token list) option" where
  "lex_app ts r = map_option (\<lambda>(b, ts'). (b, ts @ ts')) r"

definition member_tokens :: "string \<times> json \<Rightarrow> token list" where
  "member_tokens kv = TStr (fst kv) # TColon # json_tokens (snd kv)"

fun tok_ok :: "token \<Rightarrow> bool" where
  "tok_ok (TNum i) = (\<bar>i\<bar> < 10 ^ 15)"
| "tok_ok _ = True"

fun frame_ok :: "parse_frame \<Rightarrow> bool" where
  "frame_ok (FArr xs) = list_all json_canon xs"
| "frame_ok (FObj kvs k) = (distinct (map fst kvs) \<and> list_all (\<lambda>(k, v). json_canon v) kvs)"

section \<open>Lemmas\<close>

lemma hex_val_hex_digit: "d < 16 \<Longrightarrow> hex_val (hex_digit d) = Some d"
  by (auto simp: hex_val_def hex_digit_def Let_def)

lemma of_char_eqD: "of_char c = (n :: nat) \<Longrightarrow> c = char_of n"
  by (metis char_of_char)

lemma hex_val_zero: "hex_val (CHR ''0'') = Some 0"
  by (simp add: hex_val_def)

lemma hex4_ctrl:
  "(n :: nat) < 32 \<Longrightarrow>
   hex4 (take 4 (CHR ''0'' # CHR ''0'' # hex_digit (n div 16) # hex_digit (n mod 16) # rest)) = Some n"
  using hex_val_hex_digit [of "n div 16"] hex_val_hex_digit [of "n mod 16"]
  by (simp add: hex4_def hex_val_zero less_mult_imp_div_less)

lemma lex_string_escape_short:
  "c \<in> {CHR 0x22, CHR 0x5C, CHR 0x08, CHR 0x09, CHR 0x0A, CHR 0x0C, CHR 0x0D} \<Longrightarrow>
   lex_string ok acc (json_escape_char c @ rest) = lex_string ok (c # acc) rest"
  by (elim insertE emptyE) (simp_all add: json_escape_char_def short_escape_def)

lemma lex_string_escape_ctrl:
  assumes "of_char c < (32 :: nat)" "c \<notin> {CHR 0x22, CHR 0x5C, CHR 0x08, CHR 0x09, CHR 0x0A, CHR 0x0C, CHR 0x0D}"
  shows "lex_string ok acc (json_escape_char c @ rest) = lex_string ok (c # acc) rest"
  using assms hex4_ctrl [OF assms(1), of rest] unfolding json_escape_char_def by simp

lemma lex_string_escape_plain:
  assumes "\<not> of_char c < (32 :: nat)" "c \<noteq> CHR 0x22" "c \<noteq> CHR 0x5C"
  shows "lex_string ok acc (json_escape_char c @ rest) = lex_string ok (c # acc) rest"
proof -
  have "c \<notin> {CHR 0x08, CHR 0x09, CHR 0x0A, CHR 0x0C, CHR 0x0D}" using assms(1) by auto
  then show ?thesis using assms by (simp add: json_escape_char_def)
qed

lemma lex_string_escape:
  "lex_string ok acc (json_escape_char c @ rest) = lex_string ok (c # acc) rest"
  using lex_string_escape_short [of c] lex_string_escape_ctrl [of c] lex_string_escape_plain [of c]
  by blast

lemma lex_string_quote:
  "lex_string ok acc (concat (map json_escape_char cs) @ CHR 0x22 # s) = Some (ok, rev acc @ cs, s)"
  by (induction cs arbitrary: acc) (simp_all add: lex_string_escape)

lemma nat_str_step:
  "10 \<le> n \<Longrightarrow> nat_str n = nat_str (n div 10) @ [char_of (48 + n mod 10)]"
  by (subst nat_str.simps) simp

lemma is_digit_char_of: "(d :: nat) < 10 \<Longrightarrow> is_digit (char_of (48 + d))"
  by (simp add: is_digit_def)

lemma nat_str_digits: "list_all is_digit (nat_str n)"
proof (induction n rule: nat_str.induct)
  case (1 n)
  then show ?case by (cases "n < 10") (simp_all add: nat_str_step is_digit_char_of)
qed

lemma nat_str_hd: "hd (nat_str n) = CHR ''0'' \<longleftrightarrow> n = 0"
proof (induction n rule: nat_str.induct)
  case (1 n)
  show ?case
  proof (cases "n < 10")
    case True
    then show ?thesis by (auto simp: of_char_eqD [of "CHR ''0''"] dest: arg_cong [where f = "of_char :: char \<Rightarrow> nat"])
  next
    case False
    then show ?thesis using 1 by (simp add: nat_str_step)
  qed
qed

lemma of_char_digit: "d < 10 \<Longrightarrow> (of_char (char_of (48 + d)) :: int) = 48 + int d"
proof -
  assume "d < 10"
  then have "(of_char (char_of (48 + d)) :: nat) = 48 + d" by simp
  then show ?thesis by (metis of_nat_add of_nat_numeral of_nat_of_char)
qed

lemma digits_val_snoc: "digits_val (xs @ [c]) = 10 * digits_val xs + (of_char c - 48)"
  by (simp add: digits_val_def)

lemma digits_val_nat_str: "digits_val (nat_str n) = int n"
proof (induction n rule: nat_str.induct)
  case (1 n)
  show ?case
  proof (cases "n < 10")
    case True
    then show ?thesis by (simp add: digits_val_def of_char_digit)
  next
    case False
    then have "digits_val (nat_str n) = 10 * int (n div 10) + int (n mod 10)"
      using 1 by (simp add: nat_str_step digits_val_snoc of_char_digit)
    also have "\<dots> = int (10 * (n div 10) + n mod 10)" by (simp only: of_nat_add of_nat_mult of_nat_numeral)
    finally show ?thesis by simp
  qed
qed

lemma length_nat_str: "n < 10 ^ Suc k \<Longrightarrow> length (nat_str n) \<le> Suc k"
proof (induction n arbitrary: k rule: nat_str.induct)
  case (1 n)
  show ?case
  proof (cases "n < 10")
    case False
    then obtain k' where k: "k = Suc k'" using "1.prems" by (cases k) auto
    have "n div 10 < 10 ^ Suc k'" using "1.prems" k by (simp add: div_less_iff_less_mult)
    then show ?thesis using 1 False k by (simp add: nat_str_step)
  qed simp
qed

lemma json_delim_not_digit: "json_delim s \<Longrightarrow> takeWhile is_digit s = [] \<and> dropWhile is_digit s = s"
  by (cases s) (auto simp: json_delim_def is_digit_def)

lemma json_delim_frac_exp: "json_delim s \<Longrightarrow> lex_frac s = Some (False, s) \<and> lex_exp s = Some (False, s)"
  by (cases s) (auto simp: json_delim_def lex_frac_def lex_exp_def)

lemma nat_str_split:
  "json_delim s \<Longrightarrow> takeWhile is_digit (nat_str m @ s) = nat_str m \<and> dropWhile is_digit (nat_str m @ s) = s"
  using nat_str_digits [of m] json_delim_not_digit [of s]
  by (simp add: takeWhile_append2 dropWhile_append2 list_all_iff)

lemma nat_str_no_leading_zero: "\<not> (hd (nat_str m) = CHR ''0'' \<and> 1 < length (nat_str m))"
  by (auto simp: nat_str_hd)

lemma lex_number_nat:
  assumes "m < 10 ^ 15" "json_delim s"
  shows "lex_number (nat_str m @ s) = Some (True, int m, s)"
    and "lex_number (CHR ''-'' # nat_str m @ s) = Some (True, - int m, s)"
proof -
  have len: "length (nat_str m) \<le> 15" using length_nat_str [of m 14] assms(1) by simp
  have hd: "hd (nat_str m @ s) \<noteq> CHR ''-''"
    using nat_str_digits [of m] by (cases "nat_str m") (auto simp: is_digit_def)
  show "lex_number (nat_str m @ s) = Some (True, int m, s)"
    using hd len nat_str_split [OF assms(2)] json_delim_frac_exp [OF assms(2)] nat_str_no_leading_zero [of m]
    by (simp add: lex_number_def Let_def digits_val_nat_str)
  show "lex_number (CHR ''-'' # nat_str m @ s) = Some (True, - int m, s)"
    using len nat_str_split [OF assms(2)] json_delim_frac_exp [OF assms(2)] nat_str_no_leading_zero [of m]
    by (simp add: lex_number_def Let_def digits_val_nat_str)
qed

lemma lex_number_int_str:
  "\<bar>i\<bar> < 10 ^ 15 \<Longrightarrow> json_delim s \<Longrightarrow> lex_number (int_str i @ s) = Some (True, i, s)"
  using lex_number_nat [of "nat \<bar>i\<bar>" s]
  by (auto simp: int_str_def nat_less_iff)

lemma lex_app_simps [simp]:
  "lex_app [] r = r" "lex_app a (lex_app b r) = lex_app (a @ b) r" "lex_cons t True r = lex_app [t] r"
  by (cases r; auto simp: lex_app_def lex_cons_def)+

lemma lex_punct [simp]:
  "lex (CHR ''['' # s) = lex_app [TLBrack] (lex s)" "lex (CHR '']'' # s) = lex_app [TRBrack] (lex s)"
  "lex (CHR ''{'' # s) = lex_app [TLBrace] (lex s)" "lex (CHR ''}'' # s) = lex_app [TRBrace] (lex s)"
  "lex (CHR '','' # s) = lex_app [TComma] (lex s)" "lex (CHR '':'' # s) = lex_app [TColon] (lex s)"
  by (simp_all add: is_json_ws_def next_token_def punct_token_def)

lemma lex_keywords [simp]:
  "lex (CHR ''n'' # CHR ''u'' # CHR ''l'' # CHR ''l'' # s) = lex_app [TNull] (lex s)"
  "lex (CHR ''t'' # CHR ''r'' # CHR ''u'' # CHR ''e'' # s) = lex_app [TTrue] (lex s)"
  "lex (CHR ''f'' # CHR ''a'' # CHR ''l'' # CHR ''s'' # CHR ''e'' # s) = lex_app [TFalse] (lex s)"
  by (simp_all add: is_json_ws_def is_digit_def next_token_def punct_token_def keyword_token_def)

lemma lex_quote: "lex (json_quote x @ s) = lex_app [TStr x] (lex s)"
  by (simp add: json_quote_def is_json_ws_def next_token_def punct_token_def
      lex_string_quote [of True "[]", simplified])

lemma digit_not_special:
  assumes "is_digit c"
  shows "\<not> is_json_ws c" "c \<noteq> CHR ''['' " "c \<noteq> CHR '']''" "c \<noteq> CHR ''{''" "c \<noteq> CHR ''}''"
    "c \<noteq> CHR '',''" "c \<noteq> CHR '':''" "c \<noteq> CHR 0x22"
  using assms by (auto simp: is_digit_def is_json_ws_def)

lemma lex_num_start:
  "c = CHR ''-'' \<or> is_digit c \<Longrightarrow>
   lex (c # s) = (case lex_number (c # s) of None \<Rightarrow> None | Some (ok, i, r) \<Rightarrow> lex_cons (TNum i) ok (lex r))"
  by (elim disjE)
     (simp add: is_json_ws_def next_token_def punct_token_def split: option.split,
      simp add: digit_not_special next_token_def punct_token_def split: option.split)

declare lex.simps(2) [simp del]

lemma int_str_start: "\<exists>c r. int_str i @ s = c # r \<and> (c = CHR ''-'' \<or> is_digit c)"
proof (cases "i < 0")
  case True
  then show ?thesis by (simp add: int_str_def)
next
  case False
  obtain c r where "nat_str (nat i) = c # r" by (cases "nat_str (nat i)") auto
  moreover have "is_digit c" using nat_str_digits [of "nat i"] calculation by simp
  ultimately show ?thesis using False by (simp add: int_str_def)
qed

lemma lex_int_str:
  assumes "\<bar>i\<bar> < 10 ^ 15" "json_delim s"
  shows "lex (int_str i @ s) = lex_app [TNum i] (lex s)"
proof -
  obtain c r where cr: "int_str i @ s = c # r" and c: "c = CHR ''-'' \<or> is_digit c"
    using int_str_start by blast
  show ?thesis
    using lex_num_start [OF c, of r] lex_number_int_str [OF assms] cr by simp
qed

lemma lex_join:
  assumes "\<And>x s. x \<in> set xs \<Longrightarrow> json_delim s \<Longrightarrow> lex (f x @ s) = lex_app (g x) (lex s)"
      and "json_delim s"
  shows "lex (join_with '','' (map f xs) @ s) = lex_app (join_with [TComma] (map g xs)) (lex s)"
  using assms
proof (induction xs)
  case (Cons x xs)
  show ?case
  proof (cases "xs = []")
    case True
    then show ?thesis using Cons.prems by simp
  next
    case False
    have "lex (join_with '','' (map f xs) @ s) = lex_app (join_with [TComma] (map g xs)) (lex s)"
      using Cons by simp
    moreover have "json_delim (CHR '','' # join_with '','' (map f xs) @ s)" by (simp add: json_delim_def)
    ultimately show ?thesis using False Cons.prems(1) [of x] by (simp add: join_with_Cons is_json_ws_def)
  qed
qed simp

lemma lex_stringify:
  "json_canon v \<Longrightarrow> json_delim s \<Longrightarrow> lex (json_stringify v @ s) = lex_app (json_tokens v) (lex s)"
proof (induction v arbitrary: s rule: json_canon.induct)
  case (1 i)
  then show ?case by (simp add: lex_int_str)
next
  case (2 xs)
  have "json_delim (CHR '']'' # s)" by (simp add: json_delim_def)
  with 2 show ?case by (simp add: lex_join list_all_iff is_json_ws_def)
next
  case (3 kvs)
  have m: "lex ((\<lambda>(k, v). json_quote k @ CHR '':'' # json_stringify v) kv @ s') =
           lex_app ((\<lambda>(k, v). TStr k # TColon # json_tokens v) kv) (lex s')"
    if "kv \<in> set kvs" "json_delim s'" for kv s'
  proof -
    obtain k v where kv: "kv = (k, v)" by fastforce
    have "json_canon v" using 3(2) that(1) kv by (auto simp: list_all_iff)
    then have "lex (json_stringify v @ s') = lex_app (json_tokens v) (lex s')"
      using 3(1) that kv by blast
    then show ?thesis using kv by (simp add: lex_quote is_json_ws_def)
  qed
  have "lex (join_with '','' (map (\<lambda>(k, v). json_quote k @ CHR '':'' # json_stringify v) kvs) @ CHR ''}'' # s) =
        lex_app (join_with [TComma] (map (\<lambda>(k, v). TStr k # TColon # json_tokens v) kvs)) (lex (CHR ''}'' # s))"
    by (rule lex_join [OF m]) (simp_all add: json_delim_def)
  then show ?case by (simp add: is_json_ws_def)
qed (simp_all add: is_json_ws_def is_digit_def lex_quote)

lemma json_tokens_start: "json_tokens v \<noteq> [] \<and> hd (json_tokens v) \<noteq> TRBrack"
  by (cases v) auto

lemma update_new_key: "k \<notin> set (map fst al) \<Longrightarrow> AList.update k v al = al @ [(k, v)]"
  by (induction al) auto

lemma parse_elems:
  assumes "\<forall>x \<in> set (x0 # xs). \<forall>st ts. parse_value st (json_tokens x @ ts) = parse_after st x ts"
  shows "parse_value (FArr acc # st) (join_with [TComma] (map json_tokens (x0 # xs)) @ TRBrack # ts) =
         parse_after st (JArr (acc @ x0 # xs)) ts"
  using assms
proof (induction xs arbitrary: acc x0)
  case Nil
  then show ?case by simp
next
  case (Cons y ys)
  then have "parse_value (FArr (acc @ [x0]) # st) (join_with [TComma] (map json_tokens (y # ys)) @ TRBrack # ts) =
             parse_after st (JArr ((acc @ [x0]) @ y # ys)) ts"
    by simp
  then show ?case using Cons.prems by simp
qed

lemma parse_members:
  assumes "\<forall>kv \<in> set ((kf, vf) # kvs). \<forall>st ts. parse_value st (json_tokens (snd kv) @ ts) = parse_after st (snd kv) ts"
      and "distinct (map fst (acc @ (kf, vf) # kvs))"
  shows "parse_value (FObj acc kf # st)
           (json_tokens vf @ (if kvs = [] then [] else TComma # join_with [TComma] (map member_tokens kvs)) @ TRBrace # ts) =
         parse_after st (JObj (js_props (acc @ (kf, vf) # kvs))) ts"
  using assms
proof (induction kvs arbitrary: acc kf vf)
  case Nil
  then show ?case by (simp add: update_new_key)
next
  case (Cons kv kvs)
  obtain k1 v1 where kv: "kv = (k1, v1)" by fastforce
  have ih: "parse_value (FObj (acc @ [(kf, vf)]) k1 # st)
          (json_tokens v1 @ (if kvs = [] then [] else TComma # join_with [TComma] (map member_tokens kvs)) @ TRBrace # ts) =
        parse_after st (JObj (js_props ((acc @ [(kf, vf)]) @ (k1, v1) # kvs))) ts"
    by (rule Cons.IH) (use Cons.prems kv in auto)
  have vf: "parse_value st' (json_tokens vf @ ts') = parse_after st' vf ts'" for st' ts'
    using Cons.prems(1) by simp
  have "kf \<notin> set (map fst acc)" using Cons.prems(2) by simp
  then show ?case using ih kv
    by (cases "kvs = []") (simp_all add: vf update_new_key member_tokens_def join_with_Cons)
qed

lemma parse_tokens:
  "json_canon v \<Longrightarrow> parse_value st (json_tokens v @ ts) = parse_after st v ts"
proof (induction v arbitrary: st ts rule: json_canon.induct)
  case (2 xs)
  show ?case
  proof (cases xs)
    case (Cons x0 xs')
    have "hd (join_with [TComma] (map json_tokens xs) @ TRBrack # ts) \<noteq> TRBrack"
      using json_tokens_start [of x0] Cons by (cases "json_tokens x0") (auto simp: join_with_Cons)
    moreover have "join_with [TComma] (map json_tokens xs) @ TRBrack # ts \<noteq> []" by simp
    ultimately show ?thesis
      using parse_elems [of x0 xs' "[]" st ts] 2 Cons by (simp add: list_all_iff)
  qed simp
next
  case (3 kvs)
  show ?case
  proof (cases kvs)
    case (Cons kv kvs')
    obtain k0 v0 where kv: "kv = (k0, v0)" by fastforce
    have ih: "\<forall>kv \<in> set ((k0, v0) # kvs'). \<forall>st ts. parse_value st (json_tokens (snd kv) @ ts) = parse_after st (snd kv) ts"
      using 3 Cons kv by (fastforce simp: list_all_iff)
    have "join_with [TComma] (map (\<lambda>(k, v). TStr k # TColon # json_tokens v) kvs) =
          join_with [TComma] (map member_tokens kvs)"
      by (intro arg_cong [where f = "join_with [TComma]"] map_cong) (auto simp: member_tokens_def)
    then show ?thesis
      using parse_members [OF ih, of "[]" st ts] 3(2) Cons kv
      by (cases "kvs' = []") (simp_all add: member_tokens_def join_with_Cons)
  qed simp
qed simp_all

lemma json_parse_stringify: "json_canon v \<Longrightarrow> json_parse (json_stringify v) = Some (Inr v)"
  using lex_stringify [of v "[]"] parse_tokens [of v "[]" "[]"]
  by (simp add: json_parse_def json_delim_def lex_app_def)

lemma digits_val_bound:
  "list_all is_digit ds \<Longrightarrow> 0 \<le> digits_val ds \<and> digits_val ds < 10 ^ length ds"
proof (induction ds rule: rev_induct)
  case Nil
  then show ?case by (simp add: digits_val_def)
next
  case (snoc c ds)
  then have "48 \<le> (of_char c :: int)" "(of_char c :: int) \<le> 57"
    by (simp_all add: is_digit_def) (metis of_nat_le_iff of_nat_numeral of_nat_of_char)+
  with snoc show ?case by (simp add: digits_val_snoc)
qed

lemma lex_number_bound: "lex_number s = Some (ok, i, r) \<Longrightarrow> \<bar>i\<bar> < 10 ^ 15"
proof -
  assume a: "lex_number s = Some (ok, i, r)"
  define s1 where "s1 = (if s \<noteq> [] \<and> hd s = CHR ''-'' then tl s else s)"
  let ?ds = "takeWhile is_digit s1"
  have b: "0 \<le> digits_val ?ds \<and> digits_val ?ds < 10 ^ length ?ds"
    by (rule digits_val_bound) (auto simp: list_all_iff dest: set_takeWhileD)
  have "length ?ds \<le> 15 \<Longrightarrow> (10 :: int) ^ length ?ds \<le> 10 ^ 15"
    by (rule power_increasing) simp_all
  then show ?thesis using a b
    unfolding lex_number_def Let_def s1_def [symmetric]
    by (auto split: if_splits option.splits)
qed

lemma mset_js_props: "mset (js_props kvs) = mset kvs"
  by (simp add: js_props_def mset_filter)

lemma js_props_idem: "js_props (js_props kvs) = js_props kvs"
proof -
  let ?P = "\<lambda>kv. is_array_index (fst kv)" and ?f = "\<lambda>kv. digits_val (fst kv)"
  have "filter ?P (js_props kvs) = sort_key ?f (filter ?P kvs)"
    by (simp add: js_props_def filter_sort)
  moreover have "filter (\<lambda>kv. \<not> ?P kv) (js_props kvs) = filter (\<lambda>kv. \<not> ?P kv) kvs"
    by (simp add: js_props_def filter_sort)
  moreover have "sort_key ?f (sort_key ?f (filter ?P kvs)) = sort_key ?f (filter ?P kvs)"
    by (rule sort_key_id_if_sorted) simp
  ultimately show ?thesis by (metis js_props_def)
qed

lemma next_token_ok: "next_token c s = Some (t, ok, r) \<Longrightarrow> tok_ok t"
  by (auto dest!: next_token_cases lex_number_bound simp: punct_token_def keyword_token_def split: if_splits)

lemma lex_tok_ok: "lex t = Some (b, ts) \<Longrightarrow> list_all tok_ok ts"
proof (induction t arbitrary: b ts rule: lex.induct)
  case (2 c s)
  show ?case
  proof (cases "is_json_ws c")
    case True
    then show ?thesis using 2 by (simp add: lex.simps(2))
  next
    case False
    with "2.prems" obtain t ok r where nt: "next_token c s = Some (t, ok, r)"
      and lc: "lex_cons t ok (lex r) = Some (b, ts)"
      by (auto simp: lex.simps(2) split: option.splits)
    then obtain b' ts' where "lex r = Some (b', ts')" and "ts = t # ts'"
      by (cases "lex r") (auto simp: lex_cons_def)
    then show ?thesis using "2.IH"(2) [OF False nt] next_token_ok [OF nt] by simp
  qed
qed simp

lemma update_values:
  "list_all (\<lambda>(k, v). P v) al \<Longrightarrow> P v \<Longrightarrow> list_all (\<lambda>(k, v). P v) (AList.update k v al)"
  by (induction al) auto

lemma canon_close:
  assumes "distinct (map fst kvs)" "list_all (\<lambda>(k, v). json_canon v) kvs" "json_canon v"
  shows "json_canon (JObj (js_props (AList.update k v kvs)))"
proof -
  let ?u = "AList.update k v kvs"
  have m: "mset (js_props ?u) = mset ?u" by (rule mset_js_props)
  have "distinct (map fst ?u)" using assms(1) by (rule distinct_update)
  moreover have "mset (map fst (js_props ?u)) = mset (map fst ?u)" using m by (metis mset_map)
  ultimately have "distinct (map fst (js_props ?u))" by (metis mset_eq_imp_distinct_iff)
  moreover have "set (js_props ?u) = set ?u" using m by (metis set_mset_mset)
  moreover have "list_all (\<lambda>(k, v). json_canon v) ?u"
    using assms(2,3) by (rule update_values)
  ultimately show ?thesis by (simp add: js_props_idem list_all_iff)
qed

lemma list_all_tl: "list_all P xs \<Longrightarrow> list_all P (tl xs)"
  by (cases xs) auto

lemma parse_canon:
  shows "parse_value st ts = Some w \<Longrightarrow> list_all frame_ok st \<Longrightarrow> list_all tok_ok ts \<Longrightarrow> json_canon w"
    and "parse_after st v ts = Some w \<Longrightarrow> list_all frame_ok st \<Longrightarrow> json_canon v \<Longrightarrow>
         list_all tok_ok ts \<Longrightarrow> json_canon w"
proof (induction st ts and st v ts rule: parse_value_parse_after.induct)
  case (2 st t ts)
  then show ?case
    by (cases t) (auto simp: js_props_def list_all_tl split: if_splits list.splits token.splits)
next
  case (4 xs st v ts)
  then show ?case by (auto split: list.splits token.splits)
next
  case (5 kvs k st v ts)
  have "json_canon (JObj (js_props (AList.update k v kvs)))"
    by (rule canon_close) (use "5.prems" in auto)
  moreover have "frame_ok (FObj (AList.update k v kvs) k')" for k'
    using 5 by (auto intro: distinct_update update_values)
  ultimately show ?case using 5
    by (auto split: list.splits token.splits simp del: json_canon.simps)
qed (auto split: if_splits)

lemma json_parse_result_canon: "json_parse t = Some (Inr v) \<Longrightarrow> json_canon v"
  using lex_tok_ok parse_canon(1) [of "[]"]
  by (auto simp: json_parse_def split: option.splits if_splits)

lemma json_stringify_nonempty: "json_stringify v \<noteq> []"
  by (cases v) (simp_all add: int_str_def json_quote_def)

lemma json_parse_empty_array: "json_parse ''[]'' = Some (Inr (JArr []))"
  by code_simp

section \<open>Properties\<close>

text \<open>
  A value written by \<open>JSON.stringify\<close> is read back unchanged by \<open>JSON.parse\<close>
  exactly when it is canonical: distinct keys in the engine's enumeration order and
  integers of at most fifteen digits.
\<close>

theorem json_roundtrip: "json_parse (json_stringify v) = Some (Inr v) \<longleftrightarrow> json_canon v"
  using json_parse_stringify json_parse_result_canon by blast

text \<open>
  Every value \<open>JSON.parse\<close> returns is canonical, and writing it again with
  \<open>JSON.stringify\<close> gives text that parses to the same value.
\<close>

theorem json_parse_stable:
  "json_parse t = Some (Inr v) \<Longrightarrow> json_canon v \<and> json_parse (json_stringify v) = Some (Inr v)"
  using json_parse_result_canon json_parse_stringify by blast

theorem json_parse_stable_witness:
  "json_parse ''{\"2\":[true],\"b\":null,\"1\":-7}'' =
     Some (Inr (JObj [(''1'', JNum (-7)), (''2'', JArr [JBool True]), (''b'', JNull)])) \<and>
   json_canon (JObj [(''1'', JNum (-7)), (''2'', JArr [JBool True]), (''b'', JNull)]) \<and>
   json_parse (json_stringify (JObj [(''1'', JNum (-7)), (''2'', JArr [JBool True]), (''b'', JNull)])) =
     Some (Inr (JObj [(''1'', JNum (-7)), (''2'', JArr [JBool True]), (''b'', JNull)]))"
proof -
  have p: "json_parse ''{\"2\":[true],\"b\":null,\"1\":-7}'' =
     Some (Inr (JObj [(''1'', JNum (-7)), (''2'', JArr [JBool True]), (''b'', JNull)]))"
    by code_simp
  show ?thesis using json_parse_stable [OF p] p by simp
qed

text \<open>
  \<open>JSON.parse\<close> throws a \<open>SyntaxError\<close> on the empty text, an unclosed array, the
  text \<open>undefined\<close>, a trailing comma, a leading zero, a raw line break inside a string
  and trailing text after a value; surrounding white space is allowed.
\<close>

theorem json_parse_errors:
  "json_parse [] = Some (Inl SyntaxError) \<and> json_parse ''['' = Some (Inl SyntaxError) \<and>
   json_parse ''undefined'' = Some (Inl SyntaxError) \<and> json_parse ''[1,]'' = Some (Inl SyntaxError) \<and>
   json_parse ''[01]'' = Some (Inl SyntaxError) \<and>
   json_parse ([CHR 0x22, CHR 0x0A, CHR 0x22]) = Some (Inl SyntaxError) \<and>
   json_parse ''[] []'' = Some (Inl SyntaxError) \<and>
   json_parse ([CHR 0x0A] @ ''[ ]'' @ [CHR 0x09]) = Some (Inr (JArr []))"
  by code_simp

end
