(* ===== verification/Controller.thy ===== *)
theory Controller
  imports Classifier History JsonText "HOL-Library.Sublist"
begin

text \<open>
  The \<open>EasyFilter\<close> object of \<open>src/script.js\<close> as a state machine. Its fields and the
  parts of the page its handlers write form the record \<open>app\<close>; each method is one
  definition; the browser's asynchronous parts (\<open>getUserMedia\<close>, \<open>requestAnimationFrame\<close>,
  the clipboard promise, \<open>setTimeout\<close>) are events that run the continuation the source
  registered. Handlers return \<open>app js\<close>: a thrown exception keeps the state reached.
  Local storage holds text: what \<open>JSON.stringify\<close> wrote (theory \<open>JsonText\<close>), which
  the constructor reads back with \<open>JSON.parse\<close>.
\<close>

section \<open>State\<close>

datatype msg_type = Success | Error

text \<open>The messages \<open>showMessage\<close> is called with, in source order.\<close>

datatype message =
    CameraOn                 \<comment> \<open>line 51\<close>
  | CameraError              \<comment> \<open>line 54\<close>
  | ScanStopped              \<comment> \<open>line 68\<close>
  | InvalidScan              \<comment> \<open>line 98\<close>
  | ScanSucceeded string     \<comment> \<open>line 111, with the cleaned barcode\<close>
  | EnterBarcode             \<comment> \<open>line 312\<close>
  | MinLength                \<comment> \<open>line 317\<close>
  | Copied                   \<comment> \<open>line 329\<close>
  | CopyFailed               \<comment> \<open>line 331\<close>

text \<open>What one video frame gives \<open>scanLoop\<close>: not enough data yet, or jsQR's answer.\<close>

datatype frame = NotReady | Ready "string option"

record app =
  stream :: "nat option"          \<comment> \<open>\<open>this.stream\<close>, by the id of the camera stream\<close>
  live_streams :: "nat set"       \<comment> \<open>camera streams whose tracks were not stopped\<close>
  is_scanning :: bool             \<comment> \<open>\<open>this.isScanning\<close>\<close>
  raf_pending :: nat              \<comment> \<open>\<open>requestAnimationFrame\<close> callbacks of \<open>scanLoop\<close> waiting\<close>
  media_pending :: nat            \<comment> \<open>\<open>getUserMedia\<close> promises not settled\<close>
  start_visible :: bool           \<comment> \<open>\<open>startScanBtn.style.display\<close> is not \<open>none\<close>\<close>
  stop_visible :: bool            \<comment> \<open>\<open>stopScanBtn.style.display\<close> is not \<open>none\<close>\<close>
  recent_scans :: json            \<comment> \<open>\<open>this.recentScans\<close>\<close>
  storage :: "string option"        \<comment> \<open>\<open>localStorage\<close> key \<open>recentScans\<close>\<close>
  recent_list :: "recent_view option"   \<comment> \<open>\<open>recentScansList.innerHTML\<close>\<close>
  result_visible :: bool          \<comment> \<open>\<open>resultSection.style.display\<close> is \<open>block\<close>\<close>
  barcode_value :: string         \<comment> \<open>\<open>barcodeValue.textContent\<close>\<close>
  usage_details :: "usage_info option"  \<comment> \<open>\<open>usageDetails.innerHTML\<close>\<close>
  manual_input :: string          \<comment> \<open>\<open>manualBarcodeInput.value\<close>\<close>
  msg :: "(nat \<times> msg_type \<times> message) option"  \<comment> \<open>the \<open>.message\<close> element, by creation number\<close>
  next_msg :: nat                 \<comment> \<open>creation number of the next message element\<close>
  msg_timers :: "nat list"        \<comment> \<open>the 3-second removal timers not yet fired\<close>
  clip_pending :: "string list"   \<comment> \<open>texts of \<open>clipboard.writeText\<close> calls not settled\<close>
  clipboard :: "string option"    \<comment> \<open>the system clipboard\<close>

section \<open>Methods\<close>

text \<open>
  \<open>showMessage\<close>, lines 376--397: the old message element is removed, a new one is put
  at the top of the page, and a timer will remove this element (and only this one)
  three seconds later.
\<close>

definition show_message :: "message \<Rightarrow> msg_type \<Rightarrow> app \<Rightarrow> app" where
  "show_message m ty s =
     s\<lparr>msg := Some (next_msg s, ty, m), next_msg := Suc (next_msg s),
       msg_timers := msg_timers s @ [next_msg s]\<rparr>"

text \<open>The timer of message \<open>i\<close> fires: \<open>if (messageElement.parentNode) messageElement.remove()\<close>.\<close>

definition message_timeout :: "nat \<Rightarrow> app \<Rightarrow> app" where
  "message_timeout i s =
     s\<lparr>msg_timers := remove1 i (msg_timers s),
       msg := (case msg s of Some (j, m) \<Rightarrow> if j = i then None else Some (j, m) | None \<Rightarrow> None)\<rparr>"

text \<open>\<open>stopScan\<close>, lines 58--69.\<close>

definition stop_scan :: "app \<Rightarrow> app" where
  "stop_scan s =
     (let s1 = (case stream s of
                  Some st \<Rightarrow> s\<lparr>live_streams := live_streams s - {st}, stream := None\<rparr>
                | None \<Rightarrow> s)
      in show_message ScanStopped Success
           (s1\<lparr>is_scanning := False, start_visible := True, stop_visible := False\<rparr>))"

text \<open>\<open>displayResult\<close>, lines 114--124 (scrolling leaves no state).\<close>

definition display_result :: "string \<Rightarrow> app \<Rightarrow> app" where
  "display_result barcode s =
     s\<lparr>barcode_value := barcode, result_visible := True,
       usage_details := Some (generate_usage_info barcode)\<rparr>"

text \<open>\<open>loadRecentScans\<close>, lines 357--369.\<close>

definition load_recent :: "app \<Rightarrow> app js" where
  "load_recent s =
     (case load_recent_scans (recent_scans s) of
        Inl e \<Rightarrow> Inl (e, s)
      | Inr v \<Rightarrow> Inr (s\<lparr>recent_list := Some v\<rparr>))"

text \<open>
  \<open>addToRecentScans\<close>, lines 335--355: the new array is assigned, written to storage
  (overwriting), and the list is drawn again. A throw inside \<open>filter\<close> comes before
  any assignment.
\<close>

definition add_to_recent_scans :: "string \<Rightarrow> string \<Rightarrow> string \<Rightarrow> app \<Rightarrow> app js" where
  "add_to_recent_scans stamp loc_time barcode s =
     (case update_recent stamp loc_time barcode (recent_scans s) of
        Inl e \<Rightarrow> Inl (e, s)
      | Inr r \<Rightarrow> load_recent (s\<lparr>recent_scans := r, storage := Some (json_stringify r)\<rparr>))"

text \<open>
  \<open>processBarcode\<close>, lines 93--112: clean, reject fewer than eight digits, else stop
  scanning, fill the manual input, show the result, record it, report success.
\<close>

definition process_barcode :: "string \<Rightarrow> string \<Rightarrow> string \<Rightarrow> app \<Rightarrow> app js" where
  "process_barcode stamp loc_time barcodeData s =
     (let cleanBarcode = clean_barcode barcodeData in
      if length cleanBarcode < 8 then Inr (show_message InvalidScan Error s)
      else
        (let s1 = (stop_scan s)\<lparr>manual_input := cleanBarcode\<rparr>;
             s2 = display_result cleanBarcode s1
         in js_bind (add_to_recent_scans stamp loc_time cleanBarcode s2)
              (\<lambda>s3. Inr (show_message (ScanSucceeded cleanBarcode) Success s3))))"

text \<open>
  \<open>scanLoop\<close>, lines 71--91: one iteration on one frame. It stops when scanning is off
  and returns after handing a decoded code to \<open>processBarcode\<close>, whatever that makes
  of it; otherwise it asks for the next animation frame.
\<close>

definition scan_loop :: "frame \<Rightarrow> string \<Rightarrow> string \<Rightarrow> app \<Rightarrow> app js" where
  "scan_loop fr stamp loc_time s =
     (if \<not> is_scanning s then Inr s
      else case fr of
             Ready (Some data) \<Rightarrow> process_barcode stamp loc_time data s
           | _ \<Rightarrow> Inr (s\<lparr>raf_pending := Suc (raf_pending s)\<rparr>))"

text \<open>
  \<open>startScan\<close>, lines 37--56, in two halves. The click calls \<open>getUserMedia\<close> and
  awaits it; the buttons do not change until the promise settles.
\<close>

definition start_scan :: "app \<Rightarrow> app" where
  "start_scan s = s\<lparr>media_pending := Suc (media_pending s)\<rparr>"

text \<open>
  The camera granted stream \<open>sid\<close>: the rest of the \<open>try\<close> block runs. Line 43 has
  just assigned \<open>srcObject\<close>, which resets the video's \<open>readyState\<close> to
  \<open>HAVE_NOTHING\<close>, so the first \<open>scanLoop\<close> call (line 49) sees a frame that is not
  ready and only requests the next animation frame; no clock is read. An exception of
  that call would be caught by the \<open>catch\<close> that reports a camera failure.
\<close>

definition media_granted :: "nat \<Rightarrow> app \<Rightarrow> app" where
  "media_granted sid s =
     (let s1 = s\<lparr>media_pending := media_pending s - 1, stream := Some sid,
                 live_streams := insert sid (live_streams s), is_scanning := True,
                 start_visible := False, stop_visible := True\<rparr>
      in case scan_loop NotReady [] [] s1 of
           Inr s2 \<Rightarrow> show_message CameraOn Success s2
         | Inl (e, s2) \<Rightarrow> show_message CameraError Error s2)"

definition media_denied :: "app \<Rightarrow> app" where
  "media_denied s = show_message CameraError Error (s\<lparr>media_pending := media_pending s - 1\<rparr>)"

text \<open>\<open>searchManualBarcode\<close>, lines 308--324: the trimmed input, not digit-filtered.\<close>

definition search_manual_barcode :: "string \<Rightarrow> string \<Rightarrow> app \<Rightarrow> app js" where
  "search_manual_barcode stamp loc_time s =
     (let barcode = js_trim (manual_input s) in
      if barcode = [] then Inr (show_message EnterBarcode Error s)
      else if length barcode < 8 then Inr (show_message MinLength Error s)
      else js_bind (add_to_recent_scans stamp loc_time barcode (display_result barcode s))
             (\<lambda>s1. Inr (s1\<lparr>manual_input := []\<rparr>)))"

text \<open>\<open>copyBarcode\<close>, lines 326--333: the shown text goes to \<open>writeText\<close>; the message
  comes when the promise settles.\<close>

definition copy_barcode :: "app \<Rightarrow> app" where
  "copy_barcode s = s\<lparr>clip_pending := clip_pending s @ [barcode_value s]\<rparr>"

definition clipboard_settled :: "nat \<Rightarrow> bool \<Rightarrow> app \<Rightarrow> app" where
  "clipboard_settled i ok s =
     (let s1 = s\<lparr>clip_pending := take i (clip_pending s) @ drop (Suc i) (clip_pending s)\<rparr> in
      if ok then show_message Copied Success (s1\<lparr>clipboard := Some (clip_pending s ! i)\<rparr>)
      else show_message CopyFailed Error s1)"

text \<open>\<open>selectRecentScan\<close>, lines 371--374.\<close>

definition select_recent_scan :: "string \<Rightarrow> app \<Rightarrow> app" where
  "select_recent_scan barcode s = display_result barcode s"

section \<open>Start-up\<close>

text \<open>
  The page before the constructor runs. The markup is not part of the repository; the
  specification's UI surface and the handlers fix what matters: the start button shows,
  the stop button and the result section are hidden, the input is empty, no message.
\<close>

definition initial_page :: "string option \<Rightarrow> json \<Rightarrow> app" where
  "initial_page st r =
     \<lparr>stream = None, live_streams = {}, is_scanning = False, raf_pending = 0, media_pending = 0,
      start_visible = True, stop_visible = False, recent_scans = r, storage = st,
      recent_list = None, result_visible = False, barcode_value = [], usage_details = None,
      manual_input = [], msg = None, next_msg = 0, msg_timers = [], clip_pending = [],
      clipboard = None\<rparr>"

text \<open>
  The constructor, lines 2--13: \<open>JSON.parse(localStorage.getItem('recentScans') || '[]')\<close>,
  then \<open>loadRecentScans\<close> (element lookups and handler registration leave no state).
  \<open>getItem\<close> answers \<open>null\<close> for a missing key; \<open>||\<close> replaces it, and the empty
  string, by \<open>'[]'\<close>. A throw of \<open>JSON.parse\<close> ends the constructor before
  \<open>recentScans\<close> is assigned (\<open>JNull\<close> stands for the unassigned field there).
  \<open>None\<close>: stored text whose value the model's \<open>json\<close> cannot hold.
\<close>

definition stored_text :: "string option \<Rightarrow> string" where
  "stored_text st = (case st of None \<Rightarrow> ''[]'' | Some t \<Rightarrow> if t = [] then ''[]'' else t)"

definition easy_filter :: "string option \<Rightarrow> app js option" where
  "easy_filter st =
     (case json_parse (stored_text st) of
        None \<Rightarrow> None
      | Some (Inl e) \<Rightarrow> Some (Inl (e, initial_page st JNull))
      | Some (Inr r) \<Rightarrow> Some (load_recent (initial_page st r)))"

section \<open>Events\<close>

text \<open>
  The events that run code of the source: the listeners of \<open>bindEvents\<close> (a click on
  the search button and the Enter key in the input both are \<open>SearchManual\<close>), the
  settling of the promises and timers the handlers started, the inline \<open>onclick\<close> of a
  recent item, and typing into the input. Events that carry clock strings are those
  whose handler may record a scan.
\<close>

datatype event =
    ClickStart
  | MediaGranted nat
  | MediaDenied
  | ClickStop
  | AnimationFrame frame string string
  | TypeInput string
  | SearchManual string string
  | ClickCopy
  | ClipboardSettled nat bool
  | ClickRecent string
  | MessageTimeout nat

fun step :: "app \<Rightarrow> event \<Rightarrow> app js" where
  "step s ClickStart = Inr (start_scan s)"
| "step s (MediaGranted sid) = Inr (media_granted sid s)"
| "step s MediaDenied = Inr (media_denied s)"
| "step s ClickStop = Inr (stop_scan s)"
| "step s (AnimationFrame fr t l) = scan_loop fr t l (s\<lparr>raf_pending := raf_pending s - 1\<rparr>)"
| "step s (TypeInput v) = Inr (s\<lparr>manual_input := v\<rparr>)"
| "step s (SearchManual t l) = search_manual_barcode t l s"
| "step s ClickCopy = Inr (copy_barcode s)"
| "step s (ClipboardSettled i ok) = Inr (clipboard_settled i ok s)"
| "step s (ClickRecent b) = Inr (select_recent_scan b s)"
| "step s (MessageTimeout i) = Inr (message_timeout i s)"

text \<open>
  The argument the inline handler \<open>easyFilter.selectRecentScan('...')\<close> receives is the
  barcode text only when that text cannot end the attribute or the string literal;
  for any other text the click runs whatever code the markup forms.
\<close>

definition onclick_safe :: "string \<Rightarrow> bool" where
  "onclick_safe b \<longleftrightarrow> list_all (\<lambda>c. c \<notin> set [CHR 0x27, CHR 0x5C, CHR 0x22, CHR 0x26, CHR 0x0A, CHR 0x0D]) b"

definition recent_targets :: "json \<Rightarrow> string list" where
  "recent_targets r =
     (case r of JArr xs \<Rightarrow> List.map_filter (\<lambda>x. case js_get x ''barcode'' of
                                              Inr v \<Rightarrow> (case js_str_opt v of Inr b \<Rightarrow> Some b | Inl e \<Rightarrow> None)
                                            | Inl e \<Rightarrow> None) xs
              | _ \<Rightarrow> [])"

text \<open>The barcodes of the items drawn on the page, which the user can click.\<close>

definition clickable :: "app \<Rightarrow> string \<Rightarrow> bool" where
  "clickable s b \<longleftrightarrow> recent_list s \<noteq> None \<and> b \<in> set (recent_targets (recent_scans s))"

text \<open>
  When the browser delivers an event to the program's code: a hidden button takes no
  click. A click on an item whose barcode breaks the inline handler runs text the user
  typed, which the model does not interpret; those clicks are left out here, and
  \<open>reachable_no_exception\<close> names them as the exception.
\<close>

fun enabled :: "app \<Rightarrow> event \<Rightarrow> bool" where
  "enabled s ClickStart = start_visible s"
| "enabled s (MediaGranted sid) =
     (0 < media_pending s \<and> sid \<notin> live_streams s \<and> stream s \<noteq> Some sid)"
| "enabled s MediaDenied = (0 < media_pending s)"
| "enabled s ClickStop = stop_visible s"
| "enabled s (AnimationFrame fr t l) = (0 < raf_pending s)"
| "enabled s (TypeInput v) = True"
| "enabled s (SearchManual t l) = True"
| "enabled s ClickCopy = result_visible s"
| "enabled s (ClipboardSettled i ok) = (i < length (clip_pending s))"
| "enabled s (ClickRecent b) =
     (clickable s b \<and> onclick_safe b)"
| "enabled s (MessageTimeout i) = (i \<in> set (msg_timers s))"

text \<open>
  Stores the application's own writes can produce: nothing yet, or text that parses to an
  array that is a well-formed history whose records \<open>loadRecentScans\<close> can draw (the
  application writes only string fields).
\<close>

definition wf_store :: "string option \<Rightarrow> bool" where
  "wf_store st =
     (case json_parse (stored_text st) of
        Some (Inr (JArr xs)) \<Rightarrow> wf_history xs \<and> \<not> isl (render_items xs)
      | _ \<Rightarrow> False)"

text \<open>
  Reachable states: a start on such a store, any enabled event, and a reload of the
  page, which constructs a new application on what storage holds.
\<close>

inductive reachable :: "app \<Rightarrow> bool" where
  boot: "wf_store st \<Longrightarrow> easy_filter st = Some (Inr s) \<Longrightarrow> reachable s"
| step: "reachable s \<Longrightarrow> enabled s e \<Longrightarrow> reachable (js_state (step s e))"
| reload: "reachable s \<Longrightarrow> easy_filter (storage s) = Some (Inr s') \<Longrightarrow> reachable s'"

section \<open>Invariants\<close>

text \<open>
  What every reachable state satisfies, in three parts stated over the fields they
  concern, so that updates of other fields leave them alone: the scanning flag, the
  current stream and the two buttons agree; the history is a well-formed array, equal to
  what the text in storage parses to, and the list on the page is its rendering; every message element
  on the page has its removal timer pending.
\<close>


definition scan_ok :: "bool \<Rightarrow> nat option \<Rightarrow> bool \<Rightarrow> bool \<Rightarrow> nat set \<Rightarrow> bool" where
  "scan_ok sc st sv pv live \<longleftrightarrow> (sc \<longleftrightarrow> st \<noteq> None) \<and> sv = (\<not> sc) \<and> pv = sc \<and> set_option st \<subseteq> live"

definition hist_ok :: "json \<Rightarrow> string option \<Rightarrow> recent_view option \<Rightarrow> bool" where
  "hist_ok r st view \<longleftrightarrow> (\<exists>xs. r = JArr xs \<and> wf_history xs) \<and> json_parse (stored_text st) = Some (Inr r) \<and>
     map_option Inr view = Some (load_recent_scans r)"

definition msg_ok :: "(nat \<times> msg_type \<times> message) option \<Rightarrow> nat \<Rightarrow> nat list \<Rightarrow> bool" where
  "msg_ok m n ts \<longleftrightarrow> (case m of Some (i, _) \<Rightarrow> i \<in> set ts | None \<Rightarrow> True) \<and>
     list_all (\<lambda>i. i < n) ts \<and> distinct ts"

definition app_inv :: "app \<Rightarrow> bool" where
  "app_inv s \<longleftrightarrow> scan_ok (is_scanning s) (stream s) (start_visible s) (stop_visible s) (live_streams s) \<and>
     hist_ok (recent_scans s) (storage s) (recent_list s) \<and> msg_ok (msg s) (next_msg s) (msg_timers s)"

text \<open>A fresh start on empty storage, and the states reachable from a given one.\<close>

definition fresh_app :: app where
  "fresh_app = (initial_page None (JArr []))\<lparr>recent_list := Some NoRecentScans\<rparr>"

inductive later :: "app \<Rightarrow> app \<Rightarrow> bool" where
  now: "later s s"
| step: "later s t \<Longrightarrow> enabled t e \<Longrightarrow> later s (js_state (step t e))"

text \<open>A camera stream that is still live although the application no longer holds it.\<close>

definition orphaned :: "nat \<Rightarrow> app \<Rightarrow> bool" where
  "orphaned x s \<longleftrightarrow> x \<in> live_streams s \<and> stream s \<noteq> Some x"

text \<open>The state after two start clicks, both granted, and a stop.\<close>

definition leak_state :: app where
  "leak_state = stop_scan (media_granted 1
     (media_granted 0 (start_scan (start_scan fresh_app))))"

text \<open>
  Runs: a sequence of events delivered one after the other, each enabled in the state the
  previous one left (\<open>None\<close> when one is not). An animation-frame event runs one
  pending \<open>requestAnimationFrame\<close> callback; a grant event restarts scanning.
\<close>

fun run :: "app \<Rightarrow> event list \<Rightarrow> app option" where
  "run s [] = Some s"
| "run s (e # es) = (if enabled s e then run (js_state (step s e)) es else None)"

fun is_frame :: "event \<Rightarrow> bool" where
  "is_frame (AnimationFrame fr t l) = True"
| "is_frame _ = False"

fun is_grant :: "event \<Rightarrow> bool" where
  "is_grant (MediaGranted sid) = True"
| "is_grant _ = False"

fun is_search :: "event \<Rightarrow> bool" where
  "is_search (SearchManual t l) = True"
| "is_search _ = False"

text \<open>A barcode as the decode path records it, and a history of such barcodes only.\<close>

definition scan_digits :: "string \<Rightarrow> bool" where
  "scan_digits b \<longleftrightarrow> list_all is_digit b \<and> 8 \<le> length b"

definition digit_history :: "app \<Rightarrow> bool" where
  "digit_history s =
     (case recent_scans s of JArr xs \<Rightarrow> list_all scan_digits (history_barcodes xs) | _ \<Rightarrow> False)"

text \<open>Not scanning, with \<open>n\<close> animation-frame callbacks pending.\<close>

definition idle :: "nat \<Rightarrow> app \<Rightarrow> bool" where
  "idle n s \<longleftrightarrow> \<not> is_scanning s \<and> raf_pending s = n"

section \<open>Lemmas on the handlers\<close>

lemma load_recent_scans_array: "\<not> isl (render_items xs) \<Longrightarrow> \<exists>v. load_recent_scans (JArr xs) = Inr v"
  by (auto simp: load_recent_scans_def split: sum.splits)

lemma load_recent_scans_renders: "load_recent_scans (JArr xs) = Inr v \<Longrightarrow> \<not> isl (render_items xs)"
  by (cases xs) (auto simp: load_recent_scans_def split: if_splits sum.splits)

lemma render_history_update:
  "\<not> isl (render_items xs) \<Longrightarrow> \<not> isl (render_items (take n (scan_record b t l # filter P xs)))"
  unfolding render_items_isr
proof -
  assume "list_all renders xs"
  then have "list_all renders (scan_record b t l # filter P xs)"
    by (simp add: render_scan_record list_all_iff)
  then show "list_all renders (take n (scan_record b t l # filter P xs))"
    unfolding list_all_iff by (blast dest: in_set_takeD)
qed

lemma stored_text_stringify [simp]: "stored_text (Some (json_stringify v)) = json_stringify v"
  by (simp add: stored_text_def json_stringify_nonempty)

lemma scan_record_canon: "json_canon (scan_record b t l)"
  by (simp add: scan_record_def js_props_def is_array_index_def is_digit_def)

lemma canon_history_update:
  "json_canon (JArr xs) \<Longrightarrow> json_canon (JArr (take 10 (scan_record b t l # filter P xs)))"
  by (auto simp: list_all_iff scan_record_canon dest: in_set_takeD)

lemma add_to_recent_scans_ok:
  assumes "hist_ok (recent_scans s) (storage s) (recent_list s)"
  shows "\<exists>ys v. add_to_recent_scans t l b s =
           Inr (s\<lparr>recent_scans := JArr ys, storage := Some (json_stringify (JArr ys)), recent_list := Some v\<rparr>) \<and>
         hist_ok (JArr ys) (Some (json_stringify (JArr ys))) (Some v) \<and>
         (\<forall>xs. recent_scans s = JArr xs \<longrightarrow> history_barcodes ys = hist_step b (history_barcodes xs))"
proof -
  obtain xs where xs: "recent_scans s = JArr xs" "wf_history xs"
    and p: "json_parse (stored_text (storage s)) = Some (Inr (JArr xs))"
    using assms unfolding hist_ok_def by auto
  let ?ys = "take 10 (scan_record b t l # filter (\<lambda>x. record_barcode x \<noteq> Some b) xs)"
  have u: "update_recent t l b (JArr xs) = Inr (JArr ?ys)"
    using update_recent_array [OF wf_history_nonnull [OF xs(2)]] .
  have wf: "wf_history ?ys" using wf_history_update [OF xs(2)] .
  have "json_canon (JArr ?ys)" using canon_history_update json_parse_result_canon [OF p] by blast
  then have q: "json_parse (stored_text (Some (json_stringify (JArr ?ys)))) = Some (Inr (JArr ?ys))"
    unfolding stored_text_stringify by (rule json_parse_stringify)
  have "\<not> isl (render_items xs)"
    using assms xs(1) by (auto simp: hist_ok_def dest: load_recent_scans_renders [OF sym])
  then obtain v where v: "load_recent_scans (JArr ?ys) = Inr v"
    using load_recent_scans_array render_history_update by blast
  show ?thesis using u wf v xs q history_barcodes_update [OF xs(2)]
    by (intro exI [of _ ?ys] exI [of _ v]) (auto simp: add_to_recent_scans_def load_recent_def hist_ok_def)
qed

lemma msg_ok_show: "msg_ok m n ts \<Longrightarrow> msg_ok (Some (n, ty, x)) (Suc n) (ts @ [n])"
  by (auto simp: msg_ok_def list_all_iff)

lemma app_inv_frame [simp]:
  "app_inv (s\<lparr>media_pending := n\<rparr>) = app_inv s" "app_inv (s\<lparr>raf_pending := n\<rparr>) = app_inv s"
  "app_inv (s\<lparr>manual_input := v\<rparr>) = app_inv s" "app_inv (s\<lparr>clip_pending := cs\<rparr>) = app_inv s"
  "app_inv (s\<lparr>clipboard := c\<rparr>) = app_inv s"
  by (simp_all add: app_inv_def)

lemma app_inv_show_message [simp]: "app_inv s \<Longrightarrow> app_inv (show_message m ty s)"
  by (auto simp: app_inv_def show_message_def intro: msg_ok_show)

lemma scan_ok_stopped: "scan_ok False None True False L"
  by (simp add: scan_ok_def)

lemma app_inv_stop_scan: "app_inv s \<Longrightarrow> app_inv (stop_scan s)"
  by (auto simp: stop_scan_def Let_def intro!: app_inv_show_message split: option.splits)
     (simp_all add: app_inv_def scan_ok_stopped)

lemma app_inv_display_result: "app_inv s \<Longrightarrow> app_inv (display_result b s)"
  by (simp add: app_inv_def display_result_def)

lemma app_inv_add:
  assumes "app_inv s"
  shows "\<exists>s'. add_to_recent_scans t l b s = Inr s' \<and> app_inv s'"
  using add_to_recent_scans_ok [of s t l b] assms by (auto simp: app_inv_def)

lemma app_inv_process_barcode:
  assumes "app_inv s"
  shows "\<exists>s'. process_barcode t l d s = Inr s' \<and> app_inv s'"
proof (cases "length (clean_barcode d) < 8")
  case True
  then show ?thesis using assms by (simp add: process_barcode_def app_inv_show_message)
next
  case False
  let ?s2 = "display_result (clean_barcode d) ((stop_scan s)\<lparr>manual_input := clean_barcode d\<rparr>)"
  have "app_inv ?s2"
    using app_inv_stop_scan [OF assms] by (intro app_inv_display_result) (simp add: app_inv_def)
  then obtain s3 where "add_to_recent_scans t l (clean_barcode d) ?s2 = Inr s3" "app_inv s3"
    using app_inv_add by blast
  with False show ?thesis by (simp add: process_barcode_def Let_def app_inv_show_message)
qed


lemma app_inv_scan_loop:
  assumes "app_inv s"
  shows "\<exists>s'. scan_loop fr t l s = Inr s' \<and> app_inv s'"
proof (cases "is_scanning s")
  case True
  show ?thesis
  proof (cases fr)
    case (Ready c)
    then show ?thesis
      using True assms app_inv_process_barcode [OF assms]
      by (cases c) (auto simp: scan_loop_def app_inv_def)
  qed (use True assms in \<open>simp add: scan_loop_def app_inv_def\<close>)
qed (simp add: scan_loop_def assms)

lemma app_inv_media_granted: "app_inv s \<Longrightarrow> app_inv (media_granted sid s)"
proof -
  assume inv: "app_inv s"
  let ?s1 = "s\<lparr>media_pending := media_pending s - 1, stream := Some sid,
                 live_streams := insert sid (live_streams s), is_scanning := True,
                 start_visible := False, stop_visible := True\<rparr>"
  have "app_inv ?s1" using inv by (simp add: app_inv_def scan_ok_def)
  then obtain s2 where "scan_loop NotReady [] [] ?s1 = Inr s2" "app_inv s2"
    using app_inv_scan_loop by blast
  then show ?thesis by (simp add: media_granted_def app_inv_show_message)
qed

lemma app_inv_search:
  assumes "app_inv s"
  shows "\<exists>s'. search_manual_barcode t l s = Inr s' \<and> app_inv s'"
proof -
  let ?b = "js_trim (manual_input s)"
  have "app_inv (display_result ?b s)" using assms by (rule app_inv_display_result)
  then obtain s1 where "add_to_recent_scans t l ?b (display_result ?b s) = Inr s1" "app_inv s1"
    using app_inv_add by blast
  then show ?thesis
    using assms by (simp add: search_manual_barcode_def Let_def)
qed

lemma msg_ok_timeout:
  "msg_ok m n ts \<Longrightarrow>
   msg_ok (case m of Some (j, x) \<Rightarrow> if j = i then None else Some (j, x) | None \<Rightarrow> None) n (remove1 i ts)"
  by (auto simp: msg_ok_def list_all_iff dest: in_set_remove1 [THEN iffD1, rotated] split: option.splits)

lemma app_inv_step:
  assumes "app_inv s"
  shows "\<exists>s'. step s e = Inr s' \<and> app_inv s'"
proof (cases e)
  case (AnimationFrame fr t l)
  have "app_inv (s\<lparr>raf_pending := raf_pending s - 1\<rparr>)" using assms by simp
  with AnimationFrame show ?thesis using app_inv_scan_loop by simp
next
  case (MessageTimeout i)
  then show ?thesis using assms by (simp add: message_timeout_def app_inv_def msg_ok_timeout)
next
  case (SearchManual t l)
  then show ?thesis using assms app_inv_search by simp
qed (use assms in \<open>simp_all add: start_scan_def media_denied_def copy_barcode_def
        clipboard_settled_def select_recent_scan_def Let_def app_inv_media_granted app_inv_stop_scan
        app_inv_display_result\<close>)


lemma easy_filter_ok:
  assumes "wf_store st"
  shows "\<exists>s. easy_filter st = Some (Inr s) \<and> app_inv s"
proof -
  obtain xs where p: "json_parse (stored_text st) = Some (Inr (JArr xs))" and wf: "wf_history xs"
    and rd: "\<not> isl (render_items xs)"
    using assms by (auto simp: wf_store_def split: option.splits sum.splits json.splits)
  obtain v where v: "load_recent_scans (JArr xs) = Inr v"
    using load_recent_scans_array [OF rd] by blast
  have "app_inv ((initial_page st (JArr xs))\<lparr>recent_list := Some v\<rparr>)"
    using p wf v by (simp add: app_inv_def initial_page_def scan_ok_def hist_ok_def msg_ok_def)
  with p v show ?thesis by (simp add: easy_filter_def load_recent_def initial_page_def)
qed

lemma app_inv_wf_store: "app_inv s \<Longrightarrow> wf_store (storage s)"
  by (auto simp: app_inv_def hist_ok_def wf_store_def dest: load_recent_scans_renders [OF sym])

lemma reachable_app_inv: "reachable s \<Longrightarrow> app_inv s"
proof (induction rule: reachable.induct)
  case (boot st s)
  then show ?case using easy_filter_ok by fastforce
next
  case (step s e)
  from app_inv_step [OF step.IH] obtain s' where "step s e = Inr s'" "app_inv s'" by blast
  then show ?case by simp
next
  case (reload s s')
  then show ?case using easy_filter_ok [OF app_inv_wf_store] by fastforce
qed


lemma easy_filter_fresh: "easy_filter None = Some (Inr fresh_app)"
  by (simp add: easy_filter_def load_recent_def load_recent_scans_def initial_page_def stored_text_def
      fresh_app_def json_parse_empty_array)

lemma reachable_fresh_app: "reachable fresh_app"
  by (rule reachable.boot [of None])
     (simp_all add: wf_store_def easy_filter_fresh stored_text_def json_parse_empty_array wf_history_def)

lemma hist_ok_view:
  assumes "hist_ok r st view"
  shows "\<exists>xs v. r = JArr xs \<and> wf_history xs \<and> load_recent_scans r = Inr v \<and> view = Some v"
proof -
  from assms obtain xs where "r = JArr xs" "wf_history xs" unfolding hist_ok_def by blast
  moreover from assms obtain v where "view = Some v" "load_recent_scans r = Inr v"
    unfolding hist_ok_def by (cases view) auto
  ultimately show ?thesis by blast
qed

lemma reachable_hist_ok: "reachable s \<Longrightarrow> hist_ok (recent_scans s) (storage s) (recent_list s)"
  using reachable_app_inv by (simp add: app_inv_def)

lemma classify_Inr:
  "classify d = Inr u \<Longrightarrow> 8 \<le> length (clean_barcode d) \<and> u = generate_usage_info (clean_barcode d)"
  by (simp add: classify_def Let_def usage_from_table_code split: if_splits)

lemma stop_scan_fields [simp]:
  "is_scanning (stop_scan s) = False" "stream (stop_scan s) = None"
  "recent_scans (stop_scan s) = recent_scans s" "storage (stop_scan s) = storage s"
  "recent_list (stop_scan s) = recent_list s" "manual_input (stop_scan s) = manual_input s"
  "usage_details (stop_scan s) = usage_details s" "barcode_value (stop_scan s) = barcode_value s"
  by (simp_all add: stop_scan_def show_message_def split: option.splits)

lemma show_message_fields [simp]:
  "msg (show_message m ty s) = Some (next_msg s, ty, m)"
  "is_scanning (show_message m ty s) = is_scanning s" "stream (show_message m ty s) = stream s"
  "live_streams (show_message m ty s) = live_streams s"
  "recent_scans (show_message m ty s) = recent_scans s" "storage (show_message m ty s) = storage s"
  "recent_list (show_message m ty s) = recent_list s" "manual_input (show_message m ty s) = manual_input s"
  "usage_details (show_message m ty s) = usage_details s"
  "barcode_value (show_message m ty s) = barcode_value s"
  by (simp_all add: show_message_def)

lemma process_barcode_accepts:
  assumes "app_inv s" "8 \<le> length (clean_barcode d)"
  shows "\<exists>s' ys. process_barcode t l d s = Inr s' \<and> app_inv s' \<and>
     usage_details s' = Some (generate_usage_info (clean_barcode d)) \<and>
     barcode_value s' = clean_barcode d \<and> manual_input s' = clean_barcode d \<and>
     \<not> is_scanning s' \<and> stream s' = None \<and> recent_scans s' = JArr ys \<and> storage s' = Some (json_stringify (JArr ys)) \<and>
     take 1 (history_barcodes ys) = [clean_barcode d] \<and>
     (\<exists>i. msg s' = Some (i, Success, ScanSucceeded (clean_barcode d)))"
proof -
  let ?c = "clean_barcode d"
  let ?s2 = "display_result ?c ((stop_scan s)\<lparr>manual_input := ?c\<rparr>)"
  have inv2: "app_inv ?s2"
    using app_inv_stop_scan [OF assms(1)] by (intro app_inv_display_result) (simp add: app_inv_def)
  then obtain ys v where add: "add_to_recent_scans t l ?c ?s2 =
      Inr (?s2\<lparr>recent_scans := JArr ys, storage := Some (json_stringify (JArr ys)), recent_list := Some v\<rparr>)"
    and ok: "hist_ok (JArr ys) (Some (json_stringify (JArr ys))) (Some v)"
    and h: "\<forall>xs. recent_scans ?s2 = JArr xs \<longrightarrow> history_barcodes ys = hist_step ?c (history_barcodes xs)"
    using add_to_recent_scans_ok [of ?s2 t l ?c] by (auto simp: app_inv_def)
  have "hist_ok (recent_scans ?s2) (storage ?s2) (recent_list ?s2)"
    using inv2 unfolding app_inv_def by blast
  then obtain xs where "recent_scans ?s2 = JArr xs" using hist_ok_view by blast
  with h have hd: "take 1 (history_barcodes ys) = [?c]" by (simp add: hist_step_def)
  have inv3: "app_inv (?s2\<lparr>recent_scans := JArr ys, storage := Some (json_stringify (JArr ys)), recent_list := Some v\<rparr>)"
    using inv2 ok by (simp add: app_inv_def)
  have "process_barcode t l d s = Inr (show_message (ScanSucceeded ?c) Success
      (?s2\<lparr>recent_scans := JArr ys, storage := Some (json_stringify (JArr ys)), recent_list := Some v\<rparr>))"
    using assms(2) add by (simp add: process_barcode_def Let_def)
  with hd inv3 show ?thesis by (simp add: display_result_def)
qed

lemma fresh_app_simps [simp]:
  "start_visible fresh_app" "\<not> is_scanning fresh_app" "stream fresh_app = None"
  "live_streams fresh_app = {}" "media_pending fresh_app = 0" "raf_pending fresh_app = 0"
  by (simp_all add: fresh_app_def initial_page_def)

lemma reachable_enabled_step:
  "reachable s \<Longrightarrow> enabled s e \<Longrightarrow> js_state (step s e) = s' \<Longrightarrow> reachable s'"
  using reachable.step by blast

lemma orphaned_frame [simp]:
  "orphaned x (show_message m ty s) = orphaned x s" "orphaned x (display_result b s) = orphaned x s"
  "orphaned x (s\<lparr>media_pending := n\<rparr>) = orphaned x s" "orphaned x (s\<lparr>raf_pending := n\<rparr>) = orphaned x s"
  "orphaned x (s\<lparr>manual_input := v\<rparr>) = orphaned x s" "orphaned x (s\<lparr>clip_pending := cs\<rparr>) = orphaned x s"
  "orphaned x (s\<lparr>clipboard := c\<rparr>) = orphaned x s" "orphaned x (message_timeout i s) = orphaned x s"
  by (simp_all add: orphaned_def show_message_def display_result_def message_timeout_def)

lemma orphaned_add: "orphaned x (js_state (add_to_recent_scans t l b s)) = orphaned x s"
  by (auto simp: add_to_recent_scans_def load_recent_def orphaned_def split: sum.splits)

lemma orphaned_stop_scan: "orphaned x s \<Longrightarrow> orphaned x (stop_scan s)"
  by (auto simp: stop_scan_def orphaned_def show_message_def split: option.splits)

lemma orphaned_js_bind_show:
  "orphaned x (js_state r) \<Longrightarrow> orphaned x (js_state (js_bind r (\<lambda>s. Inr (show_message m ty s))))"
  by (cases r) auto

lemma orphaned_process_barcode: "orphaned x s \<Longrightarrow> orphaned x (js_state (process_barcode t l d s))"
  by (auto simp: process_barcode_def Let_def orphaned_add orphaned_stop_scan intro!: orphaned_js_bind_show)

lemma orphaned_scan_loop: "orphaned x s \<Longrightarrow> orphaned x (js_state (scan_loop fr t l s))"
  by (auto simp: scan_loop_def orphaned_process_barcode split: frame.splits option.splits)

lemma orphaned_media_granted:
  assumes "orphaned x s" "sid \<notin> live_streams s"
  shows "orphaned x (media_granted sid s)"
proof -
  let ?s1 = "s\<lparr>media_pending := media_pending s - 1, stream := Some sid,
                 live_streams := insert sid (live_streams s), is_scanning := True,
                 start_visible := False, stop_visible := True\<rparr>"
  have "orphaned x ?s1" using assms by (auto simp: orphaned_def)
  then have "orphaned x (js_state (scan_loop NotReady [] [] ?s1))" by (rule orphaned_scan_loop)
  then show ?thesis by (auto simp: media_granted_def split: sum.splits)
qed

lemma orphaned_js_bind_input:
  "orphaned x (js_state r) \<Longrightarrow> orphaned x (js_state (js_bind r (\<lambda>s. Inr (s\<lparr>manual_input := v\<rparr>))))"
  by (cases r) auto

lemma orphaned_search: "orphaned x s \<Longrightarrow> orphaned x (js_state (search_manual_barcode t l s))"
  by (auto simp: search_manual_barcode_def Let_def orphaned_add intro!: orphaned_js_bind_input)

lemma orphaned_step: "orphaned x s \<Longrightarrow> enabled s e \<Longrightarrow> orphaned x (js_state (step s e))"
  by (cases e) (simp_all add: start_scan_def media_denied_def copy_barcode_def clipboard_settled_def
      select_recent_scan_def Let_def orphaned_media_granted orphaned_stop_scan orphaned_scan_loop
      orphaned_search)

lemma idle_frame [simp]:
  "idle n (show_message m ty s) = idle n s" "idle n (display_result b s) = idle n s"
  "idle n (s\<lparr>media_pending := k\<rparr>) = idle n s" "idle n (s\<lparr>manual_input := v\<rparr>) = idle n s"
  "idle n (s\<lparr>clip_pending := cs\<rparr>) = idle n s" "idle n (s\<lparr>clipboard := c\<rparr>) = idle n s"
  "idle n (message_timeout i s) = idle n s" "idle n (select_recent_scan b s) = idle n s"
  by (simp_all add: idle_def show_message_def display_result_def message_timeout_def
      select_recent_scan_def)

lemma idle_add: "idle n (js_state (add_to_recent_scans t l b s)) = idle n s"
  by (auto simp: add_to_recent_scans_def load_recent_def idle_def split: sum.splits)

lemma idle_js_bind_input:
  "idle n (js_state r) \<Longrightarrow> idle n (js_state (js_bind r (\<lambda>s. Inr (s\<lparr>manual_input := v\<rparr>))))"
  by (cases r) auto

lemma idle_search: "idle n s \<Longrightarrow> idle n (js_state (search_manual_barcode t l s))"
  by (auto simp: search_manual_barcode_def Let_def idle_add intro!: idle_js_bind_input)

lemma idle_stop_scan: "idle n s \<Longrightarrow> idle n (stop_scan s)"
  by (simp add: idle_def stop_scan_def show_message_def Let_def split: option.split)

lemma idle_frame_event:
  "idle n s \<Longrightarrow> idle (n - 1) (js_state (scan_loop fr t l (s\<lparr>raf_pending := raf_pending s - 1\<rparr>)))"
  by (simp add: idle_def scan_loop_def)

lemma idle_step:
  assumes "idle n s" "enabled s e" "\<not> is_grant e"
  shows "idle (n - (if is_frame e then 1 else 0)) (js_state (step s e)) \<and> (is_frame e \<longrightarrow> 0 < n)"
proof (cases e)
  case (AnimationFrame fr t l)
  then show ?thesis using assms(1,2) idle_frame_event [OF assms(1)] by (simp add: idle_def)
qed (use assms in \<open>simp_all add: start_scan_def media_denied_def copy_barcode_def clipboard_settled_def
      Let_def idle_search idle_stop_scan\<close>)

lemma digit_history_frame [simp]:
  "digit_history (show_message m ty s) = digit_history s" "digit_history (display_result b s) = digit_history s"
  "digit_history (stop_scan s) = digit_history s"
  "digit_history (s\<lparr>media_pending := k\<rparr>) = digit_history s" "digit_history (s\<lparr>raf_pending := k\<rparr>) = digit_history s"
  "digit_history (s\<lparr>manual_input := v\<rparr>) = digit_history s"
  "digit_history (s\<lparr>clip_pending := cs\<rparr>) = digit_history s" "digit_history (s\<lparr>clipboard := c\<rparr>) = digit_history s"
  "digit_history (message_timeout i s) = digit_history s" "digit_history (select_recent_scan b s) = digit_history s"
  by (simp_all add: digit_history_def show_message_def display_result_def message_timeout_def
      select_recent_scan_def)

lemma list_all_hist_step: "P b \<Longrightarrow> list_all P h \<Longrightarrow> list_all P (hist_step b h)"
  by (auto simp: hist_step_def list_all_iff dest: in_set_takeD)

lemma digit_history_add:
  assumes "hist_ok (recent_scans s) (storage s) (recent_list s)" "digit_history s" "scan_digits b"
  shows "\<exists>s'. add_to_recent_scans t l b s = Inr s' \<and> digit_history s'"
proof -
  obtain ys v where add: "add_to_recent_scans t l b s =
      Inr (s\<lparr>recent_scans := JArr ys, storage := Some (json_stringify (JArr ys)), recent_list := Some v\<rparr>)"
    and h: "\<forall>xs. recent_scans s = JArr xs \<longrightarrow> history_barcodes ys = hist_step b (history_barcodes xs)"
    using add_to_recent_scans_ok [OF assms(1)] by blast
  obtain xs where "recent_scans s = JArr xs" using assms(1) hist_ok_view by blast
  with h assms(2,3) have "list_all scan_digits (history_barcodes ys)"
    by (simp add: digit_history_def list_all_hist_step)
  with add show ?thesis by (simp add: digit_history_def)
qed

lemma scan_digits_clean: "8 \<le> length (clean_barcode d) \<Longrightarrow> scan_digits (clean_barcode d)"
  by (simp add: scan_digits_def clean_barcode_def list_all_iff)

lemma digit_history_process_barcode:
  assumes "app_inv s" "digit_history s"
  shows "digit_history (js_state (process_barcode t l d s))"
proof (cases "length (clean_barcode d) < 8")
  case True
  then show ?thesis using assms(2) by (simp add: process_barcode_def)
next
  case False
  let ?s2 = "display_result (clean_barcode d) ((stop_scan s)\<lparr>manual_input := clean_barcode d\<rparr>)"
  have "app_inv ?s2"
    using app_inv_stop_scan [OF assms(1)] by (intro app_inv_display_result) (simp add: app_inv_def)
  then have "hist_ok (recent_scans ?s2) (storage ?s2) (recent_list ?s2)" by (simp add: app_inv_def)
  moreover have "digit_history ?s2" using assms(2) by simp
  ultimately obtain s3 where "add_to_recent_scans t l (clean_barcode d) ?s2 = Inr s3" "digit_history s3"
    using digit_history_add scan_digits_clean False by (metis not_less)
  with False show ?thesis by (simp add: process_barcode_def Let_def)
qed

lemma digit_history_scan_loop:
  "app_inv s \<Longrightarrow> digit_history s \<Longrightarrow> digit_history (js_state (scan_loop fr t l s))"
  by (auto simp: scan_loop_def digit_history_process_barcode split: frame.splits option.splits)

lemma digit_history_media_granted:
  assumes "app_inv s" "digit_history s"
  shows "digit_history (media_granted sid s)"
proof -
  let ?s1 = "s\<lparr>media_pending := media_pending s - 1, stream := Some sid,
                 live_streams := insert sid (live_streams s), is_scanning := True,
                 start_visible := False, stop_visible := True\<rparr>"
  have "app_inv ?s1" using assms(1) by (simp add: app_inv_def scan_ok_def)
  moreover have "digit_history ?s1" using assms(2) by (simp add: digit_history_def)
  ultimately have "digit_history (js_state (scan_loop NotReady [] [] ?s1))" by (rule digit_history_scan_loop)
  then show ?thesis by (auto simp: media_granted_def split: sum.splits)
qed

lemma digit_history_step:
  assumes "app_inv s" "enabled s e" "\<not> is_search e" "digit_history s"
  shows "digit_history (js_state (step s e))"
  using assms
  by (cases e) (simp_all add: start_scan_def media_denied_def copy_barcode_def clipboard_settled_def
      Let_def digit_history_media_granted digit_history_scan_loop)

section \<open>Properties of the controller\<close>

text \<open>
  C1: no handler of the program throws in a reachable state: every event the browser
  can deliver, started from an empty or well-formed store and followed by any events and
  reloads, returns normally, with one exception the statement names. A click on a recent
  item whose barcode breaks the inline \<open>onclick\<close> text runs the user's text as code,
  which may throw; \<open>manual_search_markup_injection\<close> shows that such items are reachable.
\<close>

theorem reachable_no_exception:
  assumes "reachable s" "enabled s e \<or> (\<exists>b. e = ClickRecent b \<and> clickable s b)"
  shows "(\<exists>s'. step s e = Inr s') \<or> (\<exists>b. e = ClickRecent b \<and> \<not> onclick_safe b)"
proof (cases "enabled s e")
  case True
  then show ?thesis using app_inv_step [OF reachable_app_inv [OF assms(1)]] by blast
next
  case False
  with assms(2) obtain b where "e = ClickRecent b" "clickable s b" by blast
  with False show ?thesis by simp
qed

theorem reachable_no_exception_witness:
  "reachable fresh_app \<and> enabled fresh_app ClickStart \<and> (\<exists>s'. step fresh_app ClickStart = Inr s')"
proof -
  have "enabled fresh_app ClickStart" by (simp add: fresh_app_def initial_page_def)
  then show ?thesis using reachable_no_exception [OF reachable_fresh_app, of ClickStart] reachable_fresh_app
    by simp
qed

text \<open>
  C7: in every reachable state the scanning flag is on exactly when a stream is held,
  the start button shows exactly when not scanning, the stop button exactly when
  scanning, and the held stream is live.
\<close>

theorem reachable_scan_consistent:
  "reachable s \<Longrightarrow> (is_scanning s \<longleftrightarrow> stream s \<noteq> None) \<and> start_visible s = (\<not> is_scanning s) \<and>
     stop_visible s = is_scanning s \<and> set_option (stream s) \<subseteq> live_streams s"
  using reachable_app_inv by (simp add: app_inv_def scan_ok_def)

theorem reachable_scan_consistent_witness:
  "reachable fresh_app \<and> (is_scanning fresh_app \<longleftrightarrow> stream fresh_app \<noteq> None) \<and>
   start_visible fresh_app = (\<not> is_scanning fresh_app) \<and> stop_visible fresh_app = is_scanning fresh_app \<and>
   set_option (stream fresh_app) \<subseteq> live_streams fresh_app"
  using reachable_scan_consistent [OF reachable_fresh_app] reachable_fresh_app by simp

text \<open>
  C6: in every reachable state the history is a well-formed array (string barcodes, no
  duplicates, at most ten) and the list on the page is its rendering.
\<close>

theorem reachable_history_wf:
  "reachable s \<Longrightarrow> \<exists>xs v. recent_scans s = JArr xs \<and> wf_history xs \<and>
     load_recent_scans (JArr xs) = Inr v \<and> recent_list s = Some v"
  using hist_ok_view [OF reachable_hist_ok] by fastforce


theorem reachable_history_wf_witness:
  "reachable fresh_app \<and> (\<exists>xs v. recent_scans fresh_app = JArr xs \<and> wf_history xs \<and>
     load_recent_scans (JArr xs) = Inr v \<and> recent_list fresh_app = Some v)"
  using reachable_history_wf [OF reachable_fresh_app] reachable_fresh_app by blast

text \<open>
  C20: reloading the page in any reachable state rebuilds the same history and the same
  rendered list from storage, with the camera off.
\<close>

theorem reachable_reload_roundtrip:
  "reachable s \<Longrightarrow> \<exists>s'. easy_filter (storage s) = Some (Inr s') \<and> reachable s' \<and>
     recent_scans s' = recent_scans s \<and> recent_list s' = recent_list s \<and>
     \<not> is_scanning s' \<and> live_streams s' = {}"
proof -
  assume r: "reachable s"
  then have inv: "app_inv s" by (rule reachable_app_inv)
  then obtain s' where s': "easy_filter (storage s) = Some (Inr s')" "app_inv s'"
    using easy_filter_ok [OF app_inv_wf_store] by blast
  have "reachable s'" using reachable.reload [OF r s'(1)] .
  moreover have same: "recent_scans s' = recent_scans s \<and> \<not> is_scanning s' \<and> live_streams s' = {}"
    using s'(1) inv
    by (auto simp: easy_filter_def load_recent_def initial_page_def app_inv_def hist_ok_def
        split: sum.splits)
  moreover have "recent_list s' = recent_list s"
  proof -
    obtain v where "load_recent_scans (recent_scans s) = Inr v" "recent_list s = Some v"
      using hist_ok_view [of "recent_scans s"] inv by (auto simp: app_inv_def)
    moreover obtain v' where "load_recent_scans (recent_scans s') = Inr v'" "recent_list s' = Some v'"
      using hist_ok_view [of "recent_scans s'"] s'(2) by (auto simp: app_inv_def)
    ultimately show ?thesis using same by simp
  qed
  ultimately show ?thesis using s'(1) by blast
qed


theorem reachable_reload_roundtrip_witness:
  "reachable fresh_app \<and> (\<exists>s'. easy_filter (storage fresh_app) = Some (Inr s') \<and> reachable s' \<and>
     recent_scans s' = recent_scans fresh_app \<and> recent_list s' = recent_list fresh_app \<and>
     \<not> is_scanning s' \<and> live_streams s' = {})"
  using reachable_reload_roundtrip [OF reachable_fresh_app] reachable_fresh_app by blast

text \<open>
  C3: a decoded value with fewer than eight digits only shows the invalid-barcode error;
  nothing else of the state changes.
\<close>

theorem process_barcode_invalid:
  "length (clean_barcode d) < 8 \<Longrightarrow> process_barcode t l d s = Inr (show_message InvalidScan Error s)"
  by (simp add: process_barcode_def)

theorem process_barcode_invalid_witness:
  "length (clean_barcode ''12a34'') < 8 \<and>
   process_barcode ''t'' ''l'' ''12a34'' fresh_app = Inr (show_message InvalidScan Error fresh_app)"
  using process_barcode_invalid [of "''12a34''" "''t''" "''l''" fresh_app]
  by (simp add: clean_barcode_def is_digit_def)

text \<open>
  C2: a decoded value the specification's classify accepts stops scanning and releases
  the stream, shows the cleaned barcode and exactly classify's usage information, puts
  the cleaned barcode in the input and at the front of the stored history, and reports
  success.
\<close>

theorem process_barcode_valid:
  assumes "reachable s" "classify d = Inr u"
  shows "\<exists>s' ys. process_barcode t l d s = Inr s' \<and> usage_details s' = Some u \<and>
     barcode_value s' = clean_barcode d \<and> manual_input s' = clean_barcode d \<and>
     \<not> is_scanning s' \<and> stream s' = None \<and> recent_scans s' = JArr ys \<and> storage s' = Some (json_stringify (JArr ys)) \<and>
     take 1 (history_barcodes ys) = [clean_barcode d] \<and>
     (\<exists>i. msg s' = Some (i, Success, ScanSucceeded (clean_barcode d)))"
  using process_barcode_accepts [OF reachable_app_inv [OF assms(1)], of d t l] classify_Inr [OF assms(2)]
  by auto

theorem process_barcode_valid_witness:
  "reachable fresh_app \<and> classify ''8809841630962'' = Inr (generate_usage_info ''8809841630962'') \<and>
   (\<exists>s' ys. process_barcode ''t'' ''l'' ''8809841630962'' fresh_app = Inr s' \<and>
     usage_details s' = Some (generate_usage_info ''8809841630962'') \<and>
     barcode_value s' = clean_barcode ''8809841630962'' \<and> manual_input s' = clean_barcode ''8809841630962'' \<and>
     \<not> is_scanning s' \<and> stream s' = None \<and> recent_scans s' = JArr ys \<and> storage s' = Some (json_stringify (JArr ys)) \<and>
     take 1 (history_barcodes ys) = [clean_barcode ''8809841630962''] \<and>
     (\<exists>i. msg s' = Some (i, Success, ScanSucceeded (clean_barcode ''8809841630962''))))"
proof -
  have c: "classify ''8809841630962'' = Inr (generate_usage_info ''8809841630962'')"
    by (simp add: classify_def clean_barcode_def is_digit_def usage_from_table_code)
  show ?thesis using process_barcode_valid [OF reachable_fresh_app c, of "''t''" "''l''"] c reachable_fresh_app
    by blast
qed

text \<open>
  C10: when a frame decodes to a value with fewer than eight digits, scanLoop shows the
  error and returns without requesting another frame, although scanning stays on.
\<close>

theorem scan_loop_invalid_stops:
  "is_scanning s \<Longrightarrow> length (clean_barcode d) < 8 \<Longrightarrow>
   scan_loop (Ready (Some d)) t l s = Inr (show_message InvalidScan Error s)"
  by (simp add: scan_loop_def process_barcode_def)


theorem scan_loop_invalid_stops_witness:
  "is_scanning (fresh_app\<lparr>is_scanning := True\<rparr>) \<and> length (clean_barcode ''12'') < 8 \<and>
   scan_loop (Ready (Some ''12'')) ''t'' ''l'' (fresh_app\<lparr>is_scanning := True\<rparr>) =
     Inr (show_message InvalidScan Error (fresh_app\<lparr>is_scanning := True\<rparr>))"
  using scan_loop_invalid_stops [of "fresh_app\<lparr>is_scanning := True\<rparr>" "''12''" "''t''" "''l''"]
  by (simp add: clean_barcode_def is_digit_def)

text \<open>
  C14: a reachable state exists in which scanning is on and the camera stream is held,
  yet no animation frame is pending and the start button is hidden: no further frame is
  ever decoded until the user presses stop.
\<close>

theorem scanner_freezes:
  "\<exists>s. reachable s \<and> is_scanning s \<and> stream s \<noteq> None \<and> raf_pending s = 0 \<and> media_pending s = 0 \<and>
     \<not> start_visible s \<and> (\<forall>fr t l. \<not> enabled s (AnimationFrame fr t l))"
proof -
  let ?s1 = "start_scan fresh_app"
  let ?s2 = "media_granted 0 ?s1"
  let ?s3 = "show_message InvalidScan Error (?s2\<lparr>raf_pending := raf_pending ?s2 - 1\<rparr>)"
  have r1: "reachable ?s1"
    by (rule reachable_enabled_step [OF reachable_fresh_app, of ClickStart]) simp_all
  have r2: "reachable ?s2"
    by (rule reachable_enabled_step [OF r1, of "MediaGranted 0"])
       (simp_all add: start_scan_def)
  have st2: "is_scanning ?s2" "raf_pending ?s2 = 1"
    by (simp_all add: media_granted_def start_scan_def scan_loop_def show_message_def)
  have r3: "reachable ?s3"
    by (rule reachable_enabled_step [OF r2, of "AnimationFrame (Ready (Some ''12'')) ''t'' ''l''"])
       (use st2 in \<open>simp_all add: scan_loop_def process_barcode_def clean_barcode_def is_digit_def\<close>)
  moreover have "is_scanning ?s3 \<and> stream ?s3 \<noteq> None \<and> raf_pending ?s3 = 0 \<and> media_pending ?s3 = 0 \<and>
      \<not> start_visible ?s3"
    by (simp add: media_granted_def start_scan_def scan_loop_def show_message_def)
  ultimately show ?thesis by auto
qed

text \<open>
  C16: a live stream that is not this.stream stays live in every later state: no handler
  can stop it.
\<close>

theorem orphan_stream_persists:
  "x \<in> live_streams s \<Longrightarrow> stream s \<noteq> Some x \<Longrightarrow> later s t \<Longrightarrow> x \<in> live_streams t \<and> stream t \<noteq> Some x"
proof -
  assume "x \<in> live_streams s" "stream s \<noteq> Some x" "later s t"
  then have "orphaned x s" by (simp add: orphaned_def)
  from \<open>later s t\<close> this have "orphaned x t"
    by (induction rule: later.induct) (auto intro: orphaned_step)
  then show ?thesis by (simp add: orphaned_def)
qed

text \<open>
  C15: a reachable state exists in which scanning is stopped and no stream is held, yet
  camera stream 0 was never stopped (two start clicks before the permission prompt
  settles).
\<close>

theorem camera_leak:
  "\<exists>s. reachable s \<and> \<not> is_scanning s \<and> stream s = None \<and> 0 \<in> live_streams s \<and> \<not> stop_visible s"
proof -
  let ?s2 = "start_scan (start_scan fresh_app)"
  let ?s3 = "media_granted 0 ?s2"
  let ?s4 = "media_granted 1 ?s3"
  have r1: "reachable (start_scan fresh_app)"
    by (rule reachable_enabled_step [OF reachable_fresh_app, of ClickStart]) simp_all
  have r2: "reachable ?s2"
    by (rule reachable_enabled_step [OF r1, of ClickStart]) (simp_all add: start_scan_def)
  have r3: "reachable ?s3"
    by (rule reachable_enabled_step [OF r2, of "MediaGranted 0"])
       (simp_all add: start_scan_def)
  have r4: "reachable ?s4"
    by (rule reachable_enabled_step [OF r3, of "MediaGranted 1"])
       (simp_all add: start_scan_def media_granted_def scan_loop_def show_message_def)
  have r5: "reachable (stop_scan ?s4)"
    by (rule reachable_enabled_step [OF r4, of ClickStop])
       (simp_all add: start_scan_def media_granted_def scan_loop_def show_message_def)
  moreover have "0 \<in> live_streams (stop_scan ?s4) \<and> \<not> stop_visible (stop_scan ?s4)"
    by (simp add: stop_scan_def start_scan_def media_granted_def scan_loop_def show_message_def)
  ultimately show ?thesis by auto
qed

theorem orphan_stream_persists_witness:
  "0 \<in> live_streams leak_state \<and> stream leak_state \<noteq> Some 0 \<and> later leak_state leak_state \<and>
   0 \<in> live_streams leak_state \<and> stream leak_state \<noteq> Some 0"
proof -
  have a: "0 \<in> live_streams leak_state" "stream leak_state \<noteq> Some 0"
    by (simp_all add: leak_state_def stop_scan_def start_scan_def media_granted_def scan_loop_def
        show_message_def)
  show ?thesis using orphan_stream_persists [OF a later.now] a later.now by blast
qed

text \<open>
  C24: stopScan turns scanning off, drops and stops exactly the held stream, shows the
  start button, hides the stop button and reports the stop.
\<close>

theorem stop_scan_releases:
  "\<not> is_scanning (stop_scan s) \<and> stream (stop_scan s) = None \<and>
   live_streams (stop_scan s) = live_streams s - set_option (stream s) \<and>
   start_visible (stop_scan s) \<and> \<not> stop_visible (stop_scan s) \<and>
   msg (stop_scan s) = Some (next_msg s, Success, ScanStopped)"
  by (simp add: stop_scan_def show_message_def split: option.splits)

text \<open>
  C22: a manual search whose trimmed input is empty or shorter than eight characters
  only shows the matching error message.
\<close>

theorem search_manual_errors:
  "length (js_trim (manual_input s)) < 8 \<Longrightarrow>
   search_manual_barcode t l s =
     Inr (show_message (if js_trim (manual_input s) = [] then EnterBarcode else MinLength) Error s)"
  by (simp add: search_manual_barcode_def Let_def)

theorem search_manual_errors_witness:
  "length (js_trim (manual_input (fresh_app\<lparr>manual_input := '' 1234 ''\<rparr>))) < 8 \<and>
   search_manual_barcode ''t'' ''l'' (fresh_app\<lparr>manual_input := '' 1234 ''\<rparr>) =
     Inr (show_message MinLength Error (fresh_app\<lparr>manual_input := '' 1234 ''\<rparr>))"
proof -
  have t: "js_trim '' 1234 '' = ''1234''" by (simp add: js_trim_def is_js_space_def)
  show ?thesis using search_manual_errors [of "fresh_app\<lparr>manual_input := '' 1234 ''\<rparr>" "''t''" "''l''"] t
    by simp
qed

text \<open>
  C21: a manual search with at least eight characters after trimming shows and records
  the trimmed input as it is, not digit-filtered, and clears the input; scanning is
  untouched.
\<close>

theorem search_manual_valid:
  assumes "reachable s" "8 \<le> length (js_trim (manual_input s))"
  shows "\<exists>s' ys. search_manual_barcode t l s = Inr s' \<and>
     barcode_value s' = js_trim (manual_input s) \<and>
     usage_details s' = Some (generate_usage_info (js_trim (manual_input s))) \<and>
     manual_input s' = [] \<and> recent_scans s' = JArr ys \<and> storage s' = Some (json_stringify (JArr ys)) \<and>
     take 1 (history_barcodes ys) = [js_trim (manual_input s)] \<and>
     is_scanning s' = is_scanning s \<and> stream s' = stream s"
proof -
  let ?b = "js_trim (manual_input s)"
  let ?s1 = "display_result ?b s"
  have inv1: "app_inv ?s1" using reachable_app_inv [OF assms(1)] by (rule app_inv_display_result)
  then obtain ys v where add: "add_to_recent_scans t l ?b ?s1 =
      Inr (?s1\<lparr>recent_scans := JArr ys, storage := Some (json_stringify (JArr ys)), recent_list := Some v\<rparr>)"
    and h: "\<forall>xs. recent_scans ?s1 = JArr xs \<longrightarrow> history_barcodes ys = hist_step ?b (history_barcodes xs)"
    using add_to_recent_scans_ok [of ?s1 t l ?b] by (auto simp: app_inv_def)
  have "hist_ok (recent_scans ?s1) (storage ?s1) (recent_list ?s1)"
    using inv1 unfolding app_inv_def by blast
  then obtain xs where "recent_scans ?s1 = JArr xs" using hist_ok_view by blast
  with h have hd: "take 1 (history_barcodes ys) = [?b]" by (simp add: hist_step_def)
  have "?b \<noteq> []" using assms(2) by auto
  with assms(2) add hd show ?thesis
    by (simp add: search_manual_barcode_def Let_def display_result_def)
qed

theorem search_manual_valid_witness:
  "reachable (fresh_app\<lparr>manual_input := ''abcdefgh''\<rparr>) \<and>
   8 \<le> length (js_trim (manual_input (fresh_app\<lparr>manual_input := ''abcdefgh''\<rparr>))) \<and>
   (\<exists>s' ys. search_manual_barcode ''t'' ''l'' (fresh_app\<lparr>manual_input := ''abcdefgh''\<rparr>) = Inr s' \<and>
     barcode_value s' = ''abcdefgh'' \<and> usage_details s' = Some (generate_usage_info ''abcdefgh'') \<and>
     manual_input s' = [] \<and> recent_scans s' = JArr ys \<and> storage s' = Some (json_stringify (JArr ys)) \<and>
     take 1 (history_barcodes ys) = [''abcdefgh''] \<and>
     is_scanning s' = is_scanning (fresh_app\<lparr>manual_input := ''abcdefgh''\<rparr>) \<and>
     stream s' = stream (fresh_app\<lparr>manual_input := ''abcdefgh''\<rparr>))"
proof -
  have r: "reachable (fresh_app\<lparr>manual_input := ''abcdefgh''\<rparr>)"
    by (rule reachable_enabled_step [OF reachable_fresh_app, of "TypeInput ''abcdefgh''"]) simp_all
  have t: "js_trim ''abcdefgh'' = ''abcdefgh''" by (simp add: js_trim_def is_js_space_def)
  show ?thesis using search_manual_valid [OF r, of "''t''" "''l''"] r t by simp
qed

text \<open>
  C23: text typed into the search box reaches the history markup as markup and as code.
  After searching for \<open>');x.y;('\<close>, a reachable page draws an item for it whose
  \<open>onclick\<close> attribute, in the HTML text \<open>loadRecentScans\<close> assigns to
  \<open>innerHTML\<close>, reads \<open>easyFilter.selectRecentScan('');x.y;('')\<close>: a call on the
  empty string followed by the user's statement, which throws a \<open>ReferenceError\<close>.
\<close>

theorem manual_search_markup_injection:
  \<open>\<exists>s html. reachable s \<and> clickable s ([CHR 0x27] @ '');x.y;('' @ [CHR 0x27]) \<and>
     \<not> onclick_safe ([CHR 0x27] @ '');x.y;('' @ [CHR 0x27]) \<and>
     recent_list s = Some (RecentItems html) \<and>
     sublist (''onclick="easyFilter.selectRecentScan('' @ [CHR 0x27, CHR 0x27] @ '');x.y;('' @
              [CHR 0x27, CHR 0x27] @ '')"'') html\<close>
proof -
  let ?p = "[CHR 0x27] @ '');x.y;('' @ [CHR 0x27]"
  let ?s1 = "fresh_app\<lparr>manual_input := ?p\<rparr>"
  let ?s2 = "(display_result ?p ?s1)\<lparr>recent_scans := JArr [scan_record ?p ''t'' ''l''],
            storage := Some (json_stringify (JArr [scan_record ?p ''t'' ''l''])),
            recent_list := Some (RecentItems (recent_item_html ?p ''l'')), manual_input := []\<rparr>"
  have r1: "reachable ?s1"
    by (rule reachable_enabled_step [OF reachable_fresh_app, of "TypeInput ?p"]) simp_all
  have t: "js_trim ?p = ?p" by (simp add: js_trim_def is_js_space_def)
  have "search_manual_barcode ''t'' ''l'' ?s1 = Inr ?s2"
    using t by (simp add: search_manual_barcode_def add_to_recent_scans_def update_recent_def
        load_recent_def load_recent_scans_def scan_record_def js_str_opt_def fresh_app_def
        initial_page_def display_result_def Let_def)
  then have r2: "reachable ?s2"
    using reachable_enabled_step [OF r1, of "SearchManual ''t'' ''l''"] by simp
  have c: "clickable ?s2 ?p"
    by (simp add: clickable_def recent_targets_def scan_record_def js_str_opt_def List.map_filter_def)
  have u: "\<not> onclick_safe ?p" by (simp add: onclick_safe_def)
  have h: \<open>recent_item_html ?p ''l'' = ''<div class="recent-item" '' @
      (''onclick="easyFilter.selectRecentScan('' @ [CHR 0x27, CHR 0x27] @ '');x.y;('' @
       [CHR 0x27, CHR 0x27] @ '')"'') @
      ''><span class="recent-barcode">'' @ ?p @ ''</span><span class="recent-time">l</span></div>''\<close>
    by (simp add: recent_item_html_def)
  have l: "recent_list ?s2 = Some (RecentItems (recent_item_html ?p ''l''))" by simp
  have \<open>sublist (''onclick="easyFilter.selectRecentScan('' @ [CHR 0x27, CHR 0x27] @ '');x.y;('' @
              [CHR 0x27, CHR 0x27] @ '')"'') (recent_item_html ?p ''l'')\<close>
    unfolding h by (rule sublist_appendI)
  with r2 c u l show ?thesis by blast
qed

text \<open>
  C25: every message shown in a reachable state has its removal timer pending, and that
  timer removes it.
\<close>

theorem reachable_message_timer:
  "reachable s \<Longrightarrow> msg s = Some (i, ty, m) \<Longrightarrow>
   enabled s (MessageTimeout i) \<and> msg (js_state (step s (MessageTimeout i))) = None"
proof -
  assume "reachable s" "msg s = Some (i, ty, m)"
  moreover have "msg_ok (msg s) (next_msg s) (msg_timers s)"
    using reachable_app_inv [OF \<open>reachable s\<close>] by (simp add: app_inv_def)
  ultimately show ?thesis by (simp add: msg_ok_def message_timeout_def)
qed

theorem reachable_message_timer_witness:
  "reachable (media_denied (start_scan fresh_app)) \<and>
   msg (media_denied (start_scan fresh_app)) = Some (0, Error, CameraError) \<and>
   enabled (media_denied (start_scan fresh_app)) (MessageTimeout 0) \<and>
   msg (js_state (step (media_denied (start_scan fresh_app)) (MessageTimeout 0))) = None"
proof -
  have r1: "reachable (start_scan fresh_app)"
    by (rule reachable_enabled_step [OF reachable_fresh_app, of ClickStart]) simp_all
  have r2: "reachable (media_denied (start_scan fresh_app))"
    by (rule reachable_enabled_step [OF r1, of MediaDenied]) (simp_all add: start_scan_def)
  have m: "msg (media_denied (start_scan fresh_app)) = Some (0, Error, CameraError)"
    by (simp add: media_denied_def start_scan_def fresh_app_def initial_page_def)
  show ?thesis using reachable_message_timer [OF r2 m] r2 m by simp
qed

text \<open>
  C26: the removal timer of an older message never removes a newer one.
\<close>

theorem message_timeout_keeps_newer:
  "msg s = Some (j, x) \<Longrightarrow> j \<noteq> i \<Longrightarrow> msg (message_timeout i s) = msg s"
  by (simp add: message_timeout_def)

theorem message_timeout_keeps_newer_witness:
  "msg (show_message CameraOn Success fresh_app) = Some (0, Success, CameraOn) \<and> (0::nat) \<noteq> 5 \<and>
   msg (message_timeout 5 (show_message CameraOn Success fresh_app)) =
     msg (show_message CameraOn Success fresh_app)"
  using message_timeout_keeps_newer [of "show_message CameraOn Success fresh_app" 0 "(Success, CameraOn)" 5]
  by (simp add: fresh_app_def initial_page_def)

text \<open>
  Copying puts the barcode shown at the time of the click on the clipboard and
  reports success when the promise resolves.
\<close>

theorem copy_clipboard:
  "clipboard (clipboard_settled (length (clip_pending s)) True (display_result b (copy_barcode s))) =
     Some (barcode_value s) \<and>
   clip_pending (clipboard_settled (length (clip_pending s)) True (display_result b (copy_barcode s))) =
     clip_pending s \<and>
   msg (clipboard_settled (length (clip_pending s)) True (display_result b (copy_barcode s))) =
     Some (next_msg s, Success, Copied)"
  by (simp add: clipboard_settled_def copy_barcode_def display_result_def show_message_def)

text \<open>
  Selecting a recent scan shows its usage information without changing the history,
  storage, list or scanning state.
\<close>

theorem select_recent_frame:
  "recent_scans (select_recent_scan b s) = recent_scans s \<and> storage (select_recent_scan b s) = storage s \<and>
   recent_list (select_recent_scan b s) = recent_list s \<and> is_scanning (select_recent_scan b s) = is_scanning s \<and>
   barcode_value (select_recent_scan b s) = b \<and>
   usage_details (select_recent_scan b s) = Some (generate_usage_info b)"
  by (simp add: select_recent_scan_def display_result_def)

text \<open>
  C28: stored text that is not a history breaks the page: \<open>null\<close> or an array holding
  \<open>null\<close> make the constructor throw a TypeError, malformed text makes it throw a
  SyntaxError; an empty string boots with an empty history; a stored empty JSON string boots,
  but every later recording throws a TypeError.
\<close>

theorem boot_corrupt_store:
  "easy_filter (Some ''null'') = Some (Inl (TypeError, initial_page (Some ''null'') JNull)) \<and>
   easy_filter (Some ''[null]'') = Some (Inl (TypeError, initial_page (Some ''[null]'') (JArr [JNull]))) \<and>
   easy_filter (Some ''[{}'') = Some (Inl (SyntaxError, initial_page (Some ''[{}'') JNull)) \<and>
   (\<exists>s. easy_filter (Some []) = Some (Inr s) \<and> recent_scans s = JArr [] \<and>
     recent_list s = Some NoRecentScans) \<and>
   (\<exists>s. easy_filter (Some ''\"\"'') = Some (Inr s) \<and>
     (\<exists>s'. search_manual_barcode t l (s\<lparr>manual_input := ''12345678''\<rparr>) = Inl (TypeError, s')))"
proof -
  have p: "json_parse ''null'' = Some (Inr JNull)" "json_parse ''[null]'' = Some (Inr (JArr [JNull]))"
    "json_parse ''[{}'' = Some (Inl SyntaxError)" "json_parse ''\"\"'' = Some (Inr (JStr []))"
    by code_simp+
  have t: "js_trim ''12345678'' = ''12345678''" by (simp add: js_trim_def is_js_space_def)
  show ?thesis
    using p t by (simp add: easy_filter_def load_recent_def load_recent_scans_def stored_text_def
        json_parse_empty_array initial_page_def search_manual_barcode_def add_to_recent_scans_def update_recent_def
        display_result_def Let_def)
qed

text \<open>
  C11: the scan loop ends once scanning is off. From a state that is not scanning, along
  any run without a new camera grant, every animation-frame event uses up one pending
  callback and schedules none: the number of frame callbacks that run is exactly the
  number pending at the start minus those left, so at most \<open>raf_pending s\<close>, and
  scanning stays off.
\<close>

theorem scan_loop_terminates:
  assumes "\<not> is_scanning s" "list_all (\<lambda>e. \<not> is_grant e) es" "run s es = Some s'"
  shows "length (filter is_frame es) + raf_pending s' = raf_pending s \<and> \<not> is_scanning s'"
proof -
  have "idle (raf_pending s) s" using assms(1) by (simp add: idle_def)
  with assms(2,3) show ?thesis
  proof (induction es arbitrary: s)
    case Nil
    then show ?case by (simp add: idle_def)
  next
    case (Cons e es)
    then have en: "enabled s e" and r: "run (js_state (step s e)) es = Some s'" by (auto split: if_splits)
    from idle_step [OF Cons.prems(3) en] Cons.prems(1)
    have "idle (raf_pending s - (if is_frame e then 1 else 0)) (js_state (step s e))"
      and pos: "is_frame e \<longrightarrow> 0 < raf_pending s" by simp_all
    then have "idle (raf_pending (js_state (step s e))) (js_state (step s e))
        \<and> raf_pending (js_state (step s e)) = raf_pending s - (if is_frame e then 1 else 0)"
      by (simp add: idle_def)
    with Cons.IH [of "js_state (step s e)"] Cons.prems(1) r pos show ?case by auto
  qed
qed

theorem scan_loop_terminates_witness:
  "\<not> is_scanning leak_state \<and>
   list_all (\<lambda>e. \<not> is_grant e) [AnimationFrame NotReady ''t'' ''l'', AnimationFrame NotReady ''t'' ''l''] \<and>
   run leak_state [AnimationFrame NotReady ''t'' ''l'', AnimationFrame NotReady ''t'' ''l''] =
     Some (leak_state\<lparr>raf_pending := 0\<rparr>) \<and>
   length (filter is_frame [AnimationFrame NotReady ''t'' ''l'', AnimationFrame NotReady ''t'' ''l'']) +
     raf_pending (leak_state\<lparr>raf_pending := 0\<rparr>) = raf_pending leak_state"
proof -
  have l: "\<not> is_scanning leak_state" "raf_pending leak_state = 2"
    by (simp_all add: leak_state_def stop_scan_def media_granted_def start_scan_def scan_loop_def
        show_message_def Let_def)
  have r: "run leak_state [AnimationFrame NotReady ''t'' ''l'', AnimationFrame NotReady ''t'' ''l''] =
     Some (leak_state\<lparr>raf_pending := 0\<rparr>)"
    using l by (simp add: scan_loop_def numeral_2_eq_2)
  show ?thesis using scan_loop_terminates [OF l(1) _ r] l r by simp
qed

text \<open>
  C13: two start clicks whose camera requests are both granted run two scan loops at
  once: two animation-frame callbacks are pending while scanning, so every video frame is
  decoded twice.
\<close>

theorem double_scan_loop:
  "\<exists>s. reachable s \<and> is_scanning s \<and> raf_pending s = 2"
proof -
  let ?s2 = "start_scan (start_scan fresh_app)"
  let ?s3 = "media_granted 0 ?s2"
  let ?s4 = "media_granted 1 ?s3"
  have r1: "reachable (start_scan fresh_app)"
    by (rule reachable_enabled_step [OF reachable_fresh_app, of ClickStart]) simp_all
  have r2: "reachable ?s2"
    by (rule reachable_enabled_step [OF r1, of ClickStart]) (simp_all add: start_scan_def)
  have r3: "reachable ?s3"
    by (rule reachable_enabled_step [OF r2, of "MediaGranted 0"])
       (simp_all add: start_scan_def)
  have r4: "reachable ?s4"
    by (rule reachable_enabled_step [OF r3, of "MediaGranted 1"])
       (simp_all add: start_scan_def media_granted_def scan_loop_def show_message_def Let_def)
  moreover have "is_scanning ?s4 \<and> raf_pending ?s4 = 2"
    by (simp add: start_scan_def media_granted_def scan_loop_def show_message_def Let_def)
  ultimately show ?thesis by blast
qed


text \<open>
  C8: the decode path records digits only. Along any run from a reachable state whose
  history holds only barcodes of eight or more digits, a history of such barcodes is
  kept as long as no manual search is made: the scanner path filters and checks every
  value it records, and only \<open>searchManualBarcode\<close> records other text.
\<close>

theorem decode_path_digits:
  assumes "reachable s" "digit_history s" "list_all (\<lambda>e. \<not> is_search e) es" "run s es = Some s'"
  shows "digit_history s'"
  using assms
proof (induction es arbitrary: s)
  case (Cons e es)
  then have en: "enabled s e" and r: "run (js_state (step s e)) es = Some s'" by (auto split: if_splits)
  have "reachable (js_state (step s e))" using reachable.step [OF Cons.prems(1) en] .
  moreover have "digit_history (js_state (step s e))"
    using digit_history_step [OF reachable_app_inv [OF Cons.prems(1)] en] Cons.prems(2,3) by simp
  ultimately show ?case using Cons.IH Cons.prems(3) r by simp
qed simp

theorem decode_path_digits_witness:
  "\<exists>s'. reachable fresh_app \<and> digit_history fresh_app \<and>
     list_all (\<lambda>e. \<not> is_search e) [ClickStart, MediaGranted 0, AnimationFrame (Ready (Some ''8809-8416-30962'')) ''t'' ''l''] \<and>
     run fresh_app [ClickStart, MediaGranted 0, AnimationFrame (Ready (Some ''8809-8416-30962'')) ''t'' ''l''] = Some s' \<and>
     digit_history s'"
proof -
  have d: "digit_history fresh_app"
    by (simp add: digit_history_def fresh_app_def initial_page_def history_barcodes_def)
  obtain s' where r: "run fresh_app [ClickStart, MediaGranted 0, AnimationFrame (Ready (Some ''8809-8416-30962'')) ''t'' ''l''] = Some s'"
    by (simp add: start_scan_def media_granted_def scan_loop_def show_message_def)
  show ?thesis
    using decode_path_digits [OF reachable_fresh_app d _ r] reachable_fresh_app d r by auto
qed

end
