(* ===== verification/Page.thy ===== *)
theory Page
  imports Controller
begin

text \<open>
  The page around the \<open>EasyFilter\<close> object: the top-level script of \<open>src/script.js\<close>
  (lines 400--410), the order of the constructor's statements (lines 2--13) and how a
  browser event reaches the object. The record \<open>page\<close> holds the object once \<open>new\<close>
  has allocated it, whether \<open>bindEvents\<close> gave the buttons their listeners, whether the
  global \<open>let easyFilter\<close> holds the object, and \<open>window.easyFilter\<close>. The
  \<open>DOMContentLoaded\<close> listeners run in registration order and an exception in one is
  reported without stopping the next (\<open>dispatch\<close>). Button clicks reach the object
  through the listeners \<open>bindEvents\<close> registered; a click on a recent item runs the
  inline \<open>onclick\<close> text, which looks up the global \<open>easyFilter\<close>.
\<close>

section \<open>The page\<close>

datatype window_val = WNull | WUndefined | WObject

record page =
  obj :: "app option"
  bound :: bool
  global_ef :: bool
  window_ef :: window_val

text \<open>Lines 401 and 407, before the document has loaded: \<open>let easyFilter;\<close> and
  \<open>window.easyFilter = null\<close>.\<close>

definition script_page :: page where
  "script_page = \<lparr>obj = None, bound = False, global_ef = False, window_ef = WNull\<rparr>"

text \<open>
  The constructor reaches \<open>bindEvents\<close> (line 11) exactly when \<open>JSON.parse\<close> (line 8)
  returned; \<open>loadRecentScans\<close> (line 12) comes after it, so a throw there leaves the
  listeners in place.
\<close>

definition ctor_binds :: "string option \<Rightarrow> bool" where
  "ctor_binds st = (case json_parse (stored_text st) of Some (Inr r) \<Rightarrow> True | _ \<Rightarrow> False)"

datatype listener = CreateApp | ExposeApp

text \<open>The two \<open>DOMContentLoaded\<close> listeners: \<open>easyFilter = new EasyFilter()\<close>
  (lines 402--404; the assignment is skipped when the constructor throws) and
  \<open>window.easyFilter = easyFilter\<close> (lines 408--410).\<close>

fun run_listener :: "string option \<Rightarrow> page \<Rightarrow> listener \<Rightarrow> page js option" where
  "run_listener st p CreateApp =
     (case easy_filter st of
        None \<Rightarrow> None
      | Some (Inl (e, s)) \<Rightarrow> Some (Inl (e, p\<lparr>obj := Some s, bound := ctor_binds st\<rparr>))
      | Some (Inr s) \<Rightarrow> Some (Inr (p\<lparr>obj := Some s, bound := True, global_ef := True\<rparr>)))"
| "run_listener st p ExposeApp =
     Some (Inr (p\<lparr>window_ef := (if global_ef p then WObject else WUndefined)\<rparr>))"

fun dispatch :: "string option \<Rightarrow> listener list \<Rightarrow> page \<Rightarrow> page option" where
  "dispatch st [] p = Some p"
| "dispatch st (l # ls) p =
     (case run_listener st p l of None \<Rightarrow> None | Some r \<Rightarrow> dispatch st ls (js_state r))"

definition load_page :: "string option \<Rightarrow> page option" where
  "load_page st = dispatch st [CreateApp, ExposeApp] script_page"

text \<open>Events that only a listener of \<open>bindEvents\<close> (lines 27--35) delivers to the
  object; typing changes the input, and a recent item carries its own \<open>onclick\<close>.\<close>

fun listener_event :: "event \<Rightarrow> bool" where
  "listener_event ClickStart = True"
| "listener_event ClickStop = True"
| "listener_event ClickCopy = True"
| "listener_event (SearchManual t l) = True"
| "listener_event _ = False"

definition obj_result :: "page \<Rightarrow> app js \<Rightarrow> page js" where
  "obj_result p r = (case r of Inl (e, s) \<Rightarrow> Inl (e, p\<lparr>obj := Some s\<rparr>) | Inr s \<Rightarrow> Inr (p\<lparr>obj := Some s\<rparr>))"

text \<open>An event on the loaded page. The inline handler
  \<open>easyFilter.selectRecentScan('...')\<close> (line 363) throws a \<open>TypeError\<close> when the
  global is still undefined.\<close>

definition page_step :: "page \<Rightarrow> event \<Rightarrow> page js" where
  "page_step p e =
     (case obj p of
        None \<Rightarrow> Inr p
      | Some s \<Rightarrow>
          (case e of
             ClickRecent b \<Rightarrow> if global_ef p then obj_result p (step s e) else Inl (TypeError, p)
           | _ \<Rightarrow> obj_result p (step s e)))"

definition page_enabled :: "page \<Rightarrow> event \<Rightarrow> bool" where
  "page_enabled p e =
     (case obj p of None \<Rightarrow> False | Some s \<Rightarrow> enabled s e \<and> (listener_event e \<longrightarrow> bound p))"

inductive page_reach :: "string option \<Rightarrow> page \<Rightarrow> bool" for st where
  load: "load_page st = Some p \<Longrightarrow> page_reach st p"
| step: "page_reach st p \<Longrightarrow> page_enabled p e \<Longrightarrow> page_reach st (js_state (page_step p e))"

section \<open>Lemmas\<close>

text \<open>The page flags change only while loading; an event changes only the object, and
  on the object it is the controller's step.\<close>

lemma page_step_flags [simp]:
  "bound (js_state (page_step p e)) = bound p"
  "global_ef (js_state (page_step p e)) = global_ef p"
  "window_ef (js_state (page_step p e)) = window_ef p"
  by (auto simp: page_step_def obj_result_def split: option.splits event.splits sum.splits)

lemma page_step_obj:
  assumes "obj p = Some s" "global_ef p \<or> (\<forall>b. e \<noteq> ClickRecent b)"
  shows "obj (js_state (page_step p e)) = Some (js_state (step s e))"
  using assms by (cases e) (auto simp: page_step_def obj_result_def split: sum.splits)

lemma page_step_recent_undefined:
  "obj p = Some s \<Longrightarrow> \<not> global_ef p \<Longrightarrow> page_step p (ClickRecent b) = Inl (TypeError, p)"
  by (simp add: page_step_def)

lemma load_page_cases:
  "load_page st =
     (case easy_filter st of
        None \<Rightarrow> None
      | Some (Inl (e, s)) \<Rightarrow> Some \<lparr>obj = Some s, bound = ctor_binds st, global_ef = False, window_ef = WUndefined\<rparr>
      | Some (Inr s) \<Rightarrow> Some \<lparr>obj = Some s, bound = True, global_ef = True, window_ef = WObject\<rparr>)"
proof (cases "easy_filter st")
  case (Some r)
  then show ?thesis by (cases r) (auto simp: load_page_def script_page_def)
qed (simp add: load_page_def)

lemma inert_enabled:
  assumes "page_enabled p e" "\<not> bound p" "obj p = Some ((initial_page st JNull)\<lparr>manual_input := v\<rparr>)"
  shows "\<exists>w. e = TypeInput w"
  using assms by (cases e) (simp_all add: page_enabled_def initial_page_def clickable_def)

lemma page_enabled_obj: "page_enabled p e \<Longrightarrow> \<exists>s. obj p = Some s \<and> enabled s e"
  by (auto simp: page_enabled_def split: option.splits)

lemma json_parse_samples:
  "json_parse ''[null]'' = Some (Inr (JArr [JNull]))" "json_parse ''[{}'' = Some (Inl SyntaxError)"
  \<open>json_parse ''[{"barcode":"12345678","time":{"toString":1}}]'' =
     Some (Inr (JArr [JObj [(''barcode'', JStr ''12345678''), (''time'', JObj [(''toString'', JNum 1)])]]))\<close>
  by code_simp+

lemma load_page_fresh:
  "load_page None = Some \<lparr>obj = Some fresh_app, bound = True, global_ef = True, window_ef = WObject\<rparr>"
  by (simp add: load_page_cases easy_filter_fresh)

lemma load_page_null_array:
  "load_page (Some ''[null]'') =
     Some \<lparr>obj = Some (initial_page (Some ''[null]'') (JArr [JNull])), bound = True, global_ef = False,
           window_ef = WUndefined\<rparr>"
  by (simp add: load_page_cases easy_filter_def ctor_binds_def json_parse_samples stored_text_def
      load_recent_def load_recent_scans_def initial_page_def)

section \<open>Properties of the page\<close>

text \<open>
  C9: on a store the application's own writes produce, the page refines the controller
  model: the constructor returns, both globals hold the object, the buttons have their
  listeners, and every object state met along the page's events is reachable in the
  controller's state machine.
\<close>

theorem page_refines_controller:
  assumes "wf_store st" "page_reach st p"
  shows "global_ef p \<and> bound p \<and> window_ef p = WObject \<and> (\<exists>s. obj p = Some s \<and> reachable s)"
  using assms(2,1)
proof (induction rule: page_reach.induct)
  case (load p)
  obtain s where ef: "easy_filter st = Some (Inr s)" using easy_filter_ok [OF load.prems] by blast
  with load.hyps have "p = \<lparr>obj = Some s, bound = True, global_ef = True, window_ef = WObject\<rparr>"
    by (simp add: load_page_cases)
  with reachable.boot [OF load.prems ef] show ?case by simp
next
  case (step p e)
  then obtain s where s: "obj p = Some s" "reachable s" "global_ef p" by blast
  from step.hyps(2) s(1) have "enabled s e" by (auto dest: page_enabled_obj)
  with s have "obj (js_state (page_step p e)) = Some (js_state (step s e))"
    "reachable (js_state (step s e))" by (simp_all add: page_step_obj reachable.step)
  with step.IH step.prems show ?case by simp
qed

theorem page_refines_controller_witness:
  "\<exists>p. wf_store None \<and> page_reach None p \<and> global_ef p \<and> bound p \<and> window_ef p = WObject \<and>
     (\<exists>s. obj p = Some s \<and> reachable s)"
proof -
  have w: "wf_store None" by (simp add: wf_store_def stored_text_def json_parse_empty_array wf_history_def)
  have r: "page_reach None \<lparr>obj = Some fresh_app, bound = True, global_ef = True, window_ef = WObject\<rparr>"
    using load_page_fresh by (rule page_reach.load)
  show ?thesis using page_refines_controller [OF w r] w r by blast
qed

text \<open>
  C12: a recent item can be clicked while the global \<open>easyFilter\<close> is undefined. With
  a record whose \<open>time\<close> is an object with its own \<open>toString\<close> key stored, the
  template conversion in \<open>loadRecentScans\<close> throws, so the constructor fails after
  \<open>bindEvents\<close> and the assignment of line 403 never happens. The \<open>filter\<close> of
  \<open>addToRecentScans\<close> compares barcodes without converting them, so a manual search
  for the same barcode replaces the record and draws the list; a click on the drawn item
  then runs \<open>easyFilter.selectRecentScan\<close> on \<open>undefined\<close> and throws a \<open>TypeError\<close>.
\<close>

theorem recent_click_undefined_global:
  \<open>\<exists>p. page_reach (Some ''[{"barcode":"12345678","time":{"toString":1}}]'') p \<and>
     page_enabled p (ClickRecent ''12345678'') \<and> \<not> global_ef p \<and>
     page_step p (ClickRecent ''12345678'') = Inl (TypeError, p)\<close>
proof -
  let ?st = \<open>Some ''[{"barcode":"12345678","time":{"toString":1}}]''\<close>
  let ?r = "JArr [JObj [(''barcode'', JStr ''12345678''), (''time'', JObj [(''toString'', JNum 1)])]]"
  let ?p0 = "\<lparr>obj = Some (initial_page ?st ?r), bound = True, global_ef = False, window_ef = WUndefined\<rparr>"
  let ?p1 = "js_state (page_step ?p0 (TypeInput ''12345678''))"
  let ?p2 = "js_state (page_step ?p1 (SearchManual ''t'' ''l''))"
  have "load_page ?st = Some ?p0"
    by (simp add: load_page_cases easy_filter_def ctor_binds_def json_parse_samples stored_text_def
        load_recent_def load_recent_scans_def initial_page_def js_str_opt_def)
  then have r0: "page_reach ?st ?p0" by (rule page_reach.load)
  have r1: "page_reach ?st ?p1"
    using r0 by (rule page_reach.step) (simp add: page_enabled_def)
  have r2: "page_reach ?st ?p2"
    using r1 by (rule page_reach.step) (simp add: page_enabled_def page_step_def obj_result_def)
  have t: "js_trim ''12345678'' = ''12345678''" by (simp add: js_trim_def is_js_space_def)
  have o: "\<exists>s. obj ?p2 = Some s \<and> enabled s (ClickRecent ''12345678'')"
    using t by (simp add: page_step_def obj_result_def initial_page_def search_manual_barcode_def
        add_to_recent_scans_def update_recent_def scan_record_def load_recent_def load_recent_scans_def
        display_result_def clickable_def recent_targets_def onclick_safe_def js_str_opt_def Let_def)
  then have en: "page_enabled ?p2 (ClickRecent ''12345678'')" by (auto simp: page_enabled_def)
  have g: "\<not> global_ef ?p2" by simp
  from o g have "page_step ?p2 (ClickRecent ''12345678'') = Inl (TypeError, ?p2)"
    by (auto simp: page_step_recent_undefined)
  with r2 en g show ?thesis by blast
qed

text \<open>
  C29: a store that parses but is not a history breaks recording without stopping the
  scanner. With \<open>[null]\<close> stored, the constructor throws in \<open>loadRecentScans\<close> after
  \<open>bindEvents\<close>: the camera starts, and when an animation frame decodes a barcode,
  \<open>processBarcode\<close> stops scanning and shows the result, but \<open>addToRecentScans\<close> throws
  a \<open>TypeError\<close> that escapes the frame callback. The last message is the one
  \<open>stopScan\<close> showed, no success is reported, and nothing is stored.
\<close>

theorem corrupt_store_scan:
  "\<exists>p p' s i. page_reach (Some ''[null]'') p \<and>
     page_enabled p (AnimationFrame (Ready (Some ''8809841630962'')) ''t'' ''l'') \<and>
     page_step p (AnimationFrame (Ready (Some ''8809841630962'')) ''t'' ''l'') = Inl (TypeError, p') \<and>
     page_reach (Some ''[null]'') p' \<and> obj p' = Some s \<and> bound p' \<and> \<not> global_ef p' \<and>
     barcode_value s = ''8809841630962'' \<and> \<not> is_scanning s \<and> stream s = None \<and>
     storage s = Some ''[null]'' \<and> recent_list s = None \<and> msg s = Some (i, Success, ScanStopped)"
proof -
  let ?s0 = "initial_page (Some ''[null]'') (JArr [JNull])"
  let ?p0 = "\<lparr>obj = Some ?s0, bound = True, global_ef = False, window_ef = WUndefined\<rparr>"
  let ?p1 = "js_state (page_step ?p0 ClickStart)"
  let ?p2 = "js_state (page_step ?p1 (MediaGranted 0))"
  let ?e = "AnimationFrame (Ready (Some ''8809841630962'')) ''t'' ''l''"
  have r0: "page_reach (Some ''[null]'') ?p0"
    using load_page_null_array by (rule page_reach.load)
  have r1: "page_reach (Some ''[null]'') ?p1"
    using r0 by (rule page_reach.step) (simp add: page_enabled_def initial_page_def)
  have r2: "page_reach (Some ''[null]'') ?p2"
    using r1 by (rule page_reach.step)
      (simp add: page_enabled_def page_step_def obj_result_def start_scan_def initial_page_def)
  have o2: "obj ?p2 = Some (media_granted 0 (start_scan ?s0))"
    by (simp add: page_step_def obj_result_def)
  have en: "page_enabled ?p2 ?e"
    using o2 by (simp add: page_enabled_def media_granted_def scan_loop_def show_message_def start_scan_def
        initial_page_def)
  have c: "clean_barcode ''8809841630962'' = ''8809841630962''" by (simp add: clean_barcode_def is_digit_def)
  let ?s3 = "display_result ''8809841630962''
          ((stop_scan ((media_granted 0 (start_scan ?s0))\<lparr>raf_pending := 0\<rparr>))\<lparr>manual_input := ''8809841630962''\<rparr>)"
  have st: "page_step ?p2 ?e = Inl (TypeError, ?p2\<lparr>obj := Some ?s3\<rparr>)"
    using o2 c by (simp add: page_step_def obj_result_def scan_loop_def process_barcode_def Let_def
        add_to_recent_scans_def update_recent_def media_granted_def start_scan_def initial_page_def
        stop_scan_def display_result_def show_message_def)
  have r3: "page_reach (Some ''[null]'') (?p2\<lparr>obj := Some ?s3\<rparr>)"
    using page_reach.step [OF r2 en] st by simp
  show ?thesis
    using r2 en st r3
    by (intro exI [of _ ?p2] exI [of _ "?p2\<lparr>obj := Some ?s3\<rparr>"] exI [of _ ?s3])
      (simp add: page_step_def obj_result_def media_granted_def scan_loop_def show_message_def
        start_scan_def initial_page_def stop_scan_def display_result_def)
qed


text \<open>
  C30: a store that does not parse leaves a dead page. \<open>JSON.parse\<close> throws before
  \<open>bindEvents\<close>, so no button has a listener and no recent item exists: the only event
  with an effect is typing into the input, and the object stays as the markup left it.
\<close>

theorem syntax_error_page_inert:
  assumes "page_reach st p" "json_parse (stored_text st) = Some (Inl e)"
  shows "\<not> bound p \<and> \<not> global_ef p \<and> (\<exists>v. obj p = Some ((initial_page st JNull)\<lparr>manual_input := v\<rparr>))"
  using assms
proof (induction rule: page_reach.induct)
  case (load p)
  then have "p = \<lparr>obj = Some (initial_page st JNull), bound = False, global_ef = False, window_ef = WUndefined\<rparr>"
    by (simp add: load_page_cases easy_filter_def ctor_binds_def)
  then show ?case by (auto intro: exI [of _ "[]"] simp: initial_page_def)
next
  case (step p e')
  then obtain v where nb: "\<not> bound p" "\<not> global_ef p"
    and o: "obj p = Some ((initial_page st JNull)\<lparr>manual_input := v\<rparr>)" by blast
  obtain w where "e' = TypeInput w" using inert_enabled [OF step.hyps(2) nb(1) o] by blast
  with nb o show ?case by (intro conjI exI [of _ w]) (simp_all add: page_step_def obj_result_def)
qed

theorem syntax_error_page_inert_witness:
  "page_reach (Some ''[{}'') \<lparr>obj = Some (initial_page (Some ''[{}'') JNull), bound = False,
      global_ef = False, window_ef = WUndefined\<rparr> \<and>
   json_parse (stored_text (Some ''[{}'')) = Some (Inl SyntaxError) \<and>
   \<not> bound \<lparr>obj = Some (initial_page (Some ''[{}'') JNull), bound = False,
      global_ef = False, window_ef = WUndefined\<rparr>"
proof -
  have j: "json_parse (stored_text (Some ''[{}'')) = Some (Inl SyntaxError)"
    by (simp add: stored_text_def json_parse_samples)
  have "load_page (Some ''[{}'') = Some \<lparr>obj = Some (initial_page (Some ''[{}'') JNull), bound = False,
      global_ef = False, window_ef = WUndefined\<rparr>"
    using j by (simp add: load_page_cases easy_filter_def ctor_binds_def)
  then have r: "page_reach (Some ''[{}'') \<lparr>obj = Some (initial_page (Some ''[{}'') JNull), bound = False,
      global_ef = False, window_ef = WUndefined\<rparr>" by (rule page_reach.load)
  show ?thesis using syntax_error_page_inert [OF r j] r j by simp
qed

end
