(* ===== verification/Spec2Isabelle.thy ===== *)
theory Spec2Isabelle
  imports Page
begin

text \<open>
  \<^bold>\<open>A verification library for the barcode scanner of \<open>src/script.js\<close>.\<close>

  \<^bold>\<open>The program.\<close> One class, \<open>EasyFilter\<close>, drives a browser page: it opens the
  camera (\<open>startScan\<close>, \<open>getUserMedia\<close>), decodes one video frame per animation
  frame (\<open>scanLoop\<close>, jsQR), cleans a decoded value to its digits and accepts it when
  eight or more remain (\<open>processBarcode\<close>), shows the value with usage information
  (\<open>displayResult\<close>, \<open>generateUsageInfo\<close>: six known filter barcodes, else a
  category by length and first character), and records it in a ten-entry history kept
  in local storage (\<open>addToRecentScans\<close>, \<open>loadRecentScans\<close>). A manual search
  (\<open>searchManualBarcode\<close>), a copy button (\<open>copyBarcode\<close>), clicks on history items
  (\<open>selectRecentScan\<close>) and transient messages (\<open>showMessage\<close>) complete it.

  \<^bold>\<open>The theories.\<close>
  \<^item> \<open>Prelude\<close>: character classes of the source's regular expression and of
    \<open>trim\<close>, \<open>join\<close>, the exception monad \<open>'s js\<close> (a throw keeps the state
    reached, as a JavaScript handler's earlier mutations persist), shared list lemmas.
  \<^item> \<open>Json\<close>: JavaScript values as \<open>JSON.parse\<close> returns them, property reads
    (\<open>js_get\<close>, throwing on \<open>null\<close>) and template-literal conversion (\<open>js_str\<close>,
    ECMA-262 ToString, which throws a \<open>TypeError\<close> on an object with an own
    \<open>toString\<close> key, also inside an array).
  \<^item> \<open>JsonText\<close>: the text in local storage. \<open>json_stringify\<close> is
    \<open>JSON.stringify\<close> (line 353) and \<open>json_parse\<close> is \<open>JSON.parse\<close> (line 8): a lexer
    (\<open>lex\<close>, one \<open>next_token\<close> at a time, with \<open>lex_string\<close> and \<open>lex_number\<close>) and a
    stack parser (\<open>parse_value\<close>, \<open>parse_after\<close>) that builds objects in the engine's
    property order (\<open>js_props\<close>). Lemmas: every parsed value is canonical
    (\<open>json_canon\<close>), exactly the canonical values survive writing and reading back, and
    the \<open>SyntaxError\<close> cases.
  \<^item> \<open>Classifier\<close>: \<open>clean_barcode\<close> (line 95), the six part records and
    \<open>generate_usage_info\<close> (lines 126--306) with the pattern part
    \<open>heuristic_category\<close>; the specification's table design \<open>usage_from_table\<close> and
    contract \<open>classify\<close>. Lemmas: the if-chain agrees with the table of the
    specification; the exact and heuristic answers the specification lists.
  \<^item> \<open>History\<close>: the array update of \<open>addToRecentScans\<close> (\<open>update_recent\<close>,
    with \<open>remove_barcode\<close> for its \<open>filter\<close>) and the markup of
    \<open>loadRecentScans\<close> (\<open>load_recent_scans\<close>), over JSON values. Abstraction:
    \<open>history_barcodes\<close>, the barcodes newest first; \<open>wf_history\<close> the invariant.
    Lemmas: refinement of one call and of any run to ``the ten most recent distinct
    barcodes''; deduplication; the cap; exactly when it throws; a list renders when
    each of its records does.
  \<^item> \<open>Controller\<close>: the object and the page as the record \<open>app\<close>, one definition
    per method, the events of the browser (\<open>event\<close>, \<open>step\<close>, \<open>enabled\<close>) and
    the reachable states (\<open>reachable\<close>: a boot on an empty store or on text that parses
    to a well-formed history, any enabled event, a page reload). Storage holds the text
    \<open>addToRecentScans\<close> wrote; the constructor (\<open>easy_filter\<close>) parses
    \<open>getItem(..) || '[]'\<close> (\<open>stored_text\<close>). \<open>startScan\<close> is split at its \<open>await\<close>
    (\<open>start_scan\<close>, \<open>media_granted\<close>, \<open>media_denied\<close>); the first
    \<open>scanLoop\<close> runs right after line 43 assigns \<open>srcObject\<close>, when the video's
    \<open>readyState\<close> is \<open>HAVE_NOTHING\<close>, so it only requests a frame and every decode
    happens in an animation-frame callback, where an exception is uncaught; each pending
    \<open>requestAnimationFrame\<close> callback is counted and runs one \<open>scan_loop\<close>
    iteration when its \<open>AnimationFrame\<close> event comes; the clipboard promise and the
    message timers settle as events; \<open>run\<close> delivers a list of events in order.
    \<open>enabled\<close> delivers the events whose handler is the program's code: a click on a
    drawn recent item (\<open>clickable\<close>) whose barcode breaks the inline \<open>onclick\<close>
    text runs the user's text instead, which the model does not interpret. The
    invariant \<open>app_inv\<close> (scanning flag, stream and buttons agree; history well formed,
    equal to what the stored text parses to, and rendered; every message has its removal
    timer) holds in all reachable states, by rule induction.
  \<^item> \<open>Page\<close>: the top-level script (lines 400--410) around the object. The record
    \<open>page\<close> holds the object, whether \<open>bindEvents\<close> bound the buttons, the global
    \<open>let easyFilter\<close> and \<open>window.easyFilter\<close>. \<open>load_page\<close> runs the two
    \<open>DOMContentLoaded\<close> listeners through \<open>dispatch\<close> (registration order, an
    exception reported and the next listener run); \<open>ctor_binds\<close> is the constructor's
    statement order (\<open>JSON.parse\<close> before \<open>bindEvents\<close> before
    \<open>loadRecentScans\<close>). \<open>page_step\<close> delivers an event to the object, a button
    click only through a bound listener and a recent-item click through the global
    \<open>easyFilter\<close>; \<open>page_reach\<close> is the page's step relation from any stored text.
    Lemmas: on the application's own stores a page step is a controller step
    (refinement); what a throwing constructor leaves, and when the undefined global is
    reached.

  \<^bold>\<open>What the lemmas show.\<close> No handler of the program's code throws from a reachable
  state, the one exception being a click on an item whose barcode breaks the inline
  \<open>onclick\<close> (\<open>reachable_no_exception\<close>); the decode
  path refines the specification's \<open>classify\<close>; the history operations refine the
  specification's record operation; a reload reproduces the history from the stored text;
  once scanning is off the animation-frame chain ends (\<open>scan_loop_terminates\<close>);
  along any run without a manual search, the history holds only barcodes of eight or
  more digits when it did at the start (\<open>decode_path_digits\<close>); the page the
  listeners build on such a store behaves as the controller model
  (\<open>page_refines_controller\<close>).
  They also show where the code departs from its specification: an invalid decode ends
  the scan loop while the camera stays on (\<open>scanner_freezes\<close>); two start clicks leak a
  camera stream that no later event stops (\<open>camera_leak\<close>, \<open>orphan_stream_persists\<close>)
  and run two scan loops at once (\<open>double_scan_loop\<close>); manual input is stored
  unfiltered and reaches \<open>innerHTML\<close> unescaped, as markup and as code in the
  \<open>onclick\<close> text (\<open>manual_search_markup_injection\<close>); unexpected or malformed stored text
  makes the constructor or every later recording throw; a stored value that parses but
  is not a history leaves the buttons bound to a half-built object, on which a decoded
  barcode is shown but recording it throws out of the frame callback
  (\<open>corrupt_store_scan\<close>); a record whose value cannot be converted to text makes
  the constructor throw, yet items get drawn later and a click on one dereferences the
  undefined global \<open>easyFilter\<close> (\<open>recent_click_undefined_global\<close>); and text that
  does not parse leaves a page on which nothing but typing has an effect.

  \<^bold>\<open>Bounds and loops.\<close> No fuel is needed: every recursion is structural except the
  lexer, whose termination rests on \<open>next_token\<close> consuming input; the only unbounded
  loop of the source, the animation-frame chain of \<open>scanLoop\<close>, is one event per
  iteration, and its end after a stop is a theorem about runs. The history's bound of
  ten is the source's literal; numbers in stored text are held exactly up to fifteen
  digits, the integers a double represents exactly.

  \<^bold>\<open>Not modelled.\<close> The camera and jsQR (their results enter as events), the
  page markup (\<open>initial_page\<close> fixes the visible state the handlers assume), element
  lookups and scrolling (no state; a missing element or canvas context would throw in
  the constructor, but the markup that decides it is not in the repository), a full
  \<open>QuotaExceededError\<close> of \<open>setItem\<close>, stored numbers with a fraction, an exponent or more than fifteen digits and \<open>\u\<close>
  escapes above \<open>\u00ff\<close> (\<open>json_parse\<close> answers \<open>None\<close>: characters are bytes and
  numbers integers here), non-ASCII white space in \<open>trim\<close>, and the HTML text of the
  usage information and the category bullet lists: static Korean content selected by the
  modelled category, which an eight-bit character model cannot write.
\<close>

end
